(* ===== verification/Ployz_Prelude.thy ===== *)
theory Ployz_Prelude
  imports Main "HOL-Library.Word" "HOL-Library.Multiset" "HOL-Library.Char_ord"
    "HOL-Library.List_Lexorder" "HOL-Library.Option_ord" "HOL-Library.Product_Lexorder"
begin

text \<open>
  The vocabulary that every component theory of the development shares.

  \<^item> The Rust \<open>Result\<close> type is the sum \<open>'e + 'a\<close> with \<open>Inl\<close> the error; the
    \<open>?\<close> operator is \<open>bind_res\<close>, a loop whose body may return early is \<open>map_res\<close>.
  \<^item> Effectful code is an \<open>action\<close>: a function from the state of the world to a result and the
    next state. An error keeps the effects made before it, as in the source.
  \<^item> \<open>Ordering\<close>, \<open>Ord::cmp\<close>, \<open>Ordering::then_with\<close> and the stable \<open>sort_by\<close>, with
    the locale \<open>comparator\<close> for the laws a comparison function has to obey.
  \<^item> The collections \<open>act_simps\<close> (evaluation of actions) and \<open>cmp_laws\<close> (comparators).
\<close>

named_theorems act_simps \<open>evaluation of results and actions\<close>
named_theorems cmp_laws \<open>comparison functions that are total preorders\<close>

section \<open>Results and the early return\<close>

type_synonym ('e, 'a) result = "'e + 'a"

fun bind_res :: "('e, 'a) result \<Rightarrow> ('a \<Rightarrow> ('e, 'b) result) \<Rightarrow> ('e, 'b) result" where
  "bind_res (Inl e) f = Inl e"
| "bind_res (Inr a) f = f a"

fun map_err :: "('e \<Rightarrow> 'f) \<Rightarrow> ('e, 'a) result \<Rightarrow> ('f, 'a) result" where
  "map_err f (Inl e) = Inl (f e)"
| "map_err f (Inr a) = Inr a"

fun ok_or :: "'a option \<Rightarrow> 'e \<Rightarrow> ('e, 'a) result" where
  "ok_or None e = Inl e"
| "ok_or (Some a) e = Inr a"

fun is_ok :: "('e, 'a) result \<Rightarrow> bool" where
  "is_ok (Inl _) = False"
| "is_ok (Inr _) = True"

definition guard_res :: "bool \<Rightarrow> 'e \<Rightarrow> ('e, unit) result" where
  "guard_res ok e = (if ok then Inr () else Inl e)"

primrec map_res :: "('a \<Rightarrow> ('e, 'b) result) \<Rightarrow> 'a list \<Rightarrow> ('e, 'b list) result" where
  "map_res f [] = Inr []"
| "map_res f (x # xs) =
    bind_res (f x) (\<lambda>y. bind_res (map_res f xs) (\<lambda>ys. Inr (y # ys)))"

primrec fold_res :: "('a \<Rightarrow> 's \<Rightarrow> ('e, 's) result) \<Rightarrow> 'a list \<Rightarrow> 's \<Rightarrow> ('e, 's) result" where
  "fold_res f [] s = Inr s"
| "fold_res f (x # xs) s = bind_res (f x s) (fold_res f xs)"

primrec check_all :: "('a \<Rightarrow> ('e, unit) result) \<Rightarrow> 'a list \<Rightarrow> ('e, unit) result" where
  "check_all f [] = Inr ()"
| "check_all f (x # xs) = bind_res (f x) (\<lambda>_. check_all f xs)"

section \<open>Actions on the state of the world\<close>

type_synonym ('w, 'e, 'a) action = "'w \<Rightarrow> ('e, 'a) result \<times> 'w"

definition ret_act :: "'a \<Rightarrow> ('w, 'e, 'a) action" where
  "ret_act a w = (Inr a, w)"

definition fail_act :: "'e \<Rightarrow> ('w, 'e, 'a) action" where
  "fail_act e w = (Inl e, w)"

definition bind_act ::
    "('w, 'e, 'a) action \<Rightarrow> ('a \<Rightarrow> ('w, 'e, 'b) action) \<Rightarrow> ('w, 'e, 'b) action" where
  "bind_act m f w = (case m w of (Inl e, w') \<Rightarrow> (Inl e, w') | (Inr a, w') \<Rightarrow> f a w')"

definition lift_res :: "('e, 'a) result \<Rightarrow> ('w, 'e, 'a) action" where
  "lift_res r w = (r, w)"

definition map_err_act :: "('e \<Rightarrow> 'f) \<Rightarrow> ('w, 'e, 'a) action \<Rightarrow> ('w, 'f, 'a) action" where
  "map_err_act f m w = (case m w of (r, w') \<Rightarrow> (map_err f r, w'))"

primrec for_each :: "('a \<Rightarrow> ('w, 'e, unit) action) \<Rightarrow> 'a list \<Rightarrow> ('w, 'e, unit) action" where
  "for_each f [] = ret_act ()"
| "for_each f (x # xs) = bind_act (f x) (\<lambda>_. for_each f xs)"

primrec fold_act ::
    "('a \<Rightarrow> 's \<Rightarrow> ('w, 'e, 's) action) \<Rightarrow> 'a list \<Rightarrow> 's \<Rightarrow> ('w, 'e, 's) action" where
  "fold_act f [] s = ret_act s"
| "fold_act f (x # xs) s = bind_act (f x s) (fold_act f xs)"

section \<open>Comparison and sorting\<close>

datatype ordering = Less | Equal | Greater

fun then_with :: "ordering \<Rightarrow> ordering \<Rightarrow> ordering" where
  "then_with Less _ = Less"
| "then_with Greater _ = Greater"
| "then_with Equal r = r"

fun reverse_ord :: "ordering \<Rightarrow> ordering" where
  "reverse_ord Less = Greater"
| "reverse_ord Equal = Equal"
| "reverse_ord Greater = Less"

definition cmp :: "'a::linorder \<Rightarrow> 'a \<Rightarrow> ordering" where
  "cmp a b = (if a < b then Less else if a = b then Equal else Greater)"

primrec insort_by :: "('a \<Rightarrow> 'a \<Rightarrow> ordering) \<Rightarrow> 'a \<Rightarrow> 'a list \<Rightarrow> 'a list" where
  "insort_by c x [] = [x]"
| "insort_by c x (y # ys) = (if c x y = Greater then y # insort_by c x ys else x # y # ys)"

primrec sort_by :: "('a \<Rightarrow> 'a \<Rightarrow> ordering) \<Rightarrow> 'a list \<Rightarrow> 'a list" where
  "sort_by c [] = []"
| "sort_by c (x # xs) = insort_by c x (sort_by c xs)"

definition sort_by_key :: "('a \<Rightarrow> 'k::linorder) \<Rightarrow> 'a list \<Rightarrow> 'a list" where
  "sort_by_key f = sort_by (\<lambda>x y. cmp (f x) (f y))"

fun opt_or_else :: "'a option \<Rightarrow> 'a option \<Rightarrow> 'a option" where
  "opt_or_else (Some a) _ = Some a"
| "opt_or_else None b = b"

fun unwrap_or :: "'a option \<Rightarrow> 'a \<Rightarrow> 'a" where
  "unwrap_or (Some a) _ = a"
| "unwrap_or None d = d"

text \<open>\<open>Iterator::position\<close>, and \<open>iter_mut().find(..)\<close> followed by an update of what it found.\<close>

primrec position :: "('a \<Rightarrow> bool) \<Rightarrow> 'a list \<Rightarrow> nat option" where
  "position p [] = None"
| "position p (x # xs) = (if p x then Some 0 else map_option Suc (position p xs))"

primrec update_first :: "('a \<Rightarrow> bool) \<Rightarrow> ('a \<Rightarrow> 'a) \<Rightarrow> 'a list \<Rightarrow> 'a list" where
  "update_first p f [] = []"
| "update_first p f (x # xs) = (if p x then f x # xs else x # update_first p f xs)"

section \<open>Facts about results\<close>

lemma bind_res_Inr_iff [simp]:
  "bind_res r f = Inr b \<longleftrightarrow> (\<exists>a. r = Inr a \<and> f a = Inr b)"
  by (cases r) auto

lemma bind_res_Inl_iff:
  "bind_res r f = Inl e \<longleftrightarrow> r = Inl e \<or> (\<exists>a. r = Inr a \<and> f a = Inl e)"
  by (cases r) auto

lemma map_err_Inr_iff [simp]: "map_err f r = Inr a \<longleftrightarrow> r = Inr a"
  by (cases r) auto

lemma ok_or_Inr_iff [simp]: "ok_or x e = Inr a \<longleftrightarrow> x = Some a"
  by (cases x) auto

lemma ok_or_Inl_iff [simp]: "ok_or x e = Inl e' \<longleftrightarrow> x = None \<and> e' = e"
  by (cases x) auto

lemma guard_res_Inr_iff [simp]: "guard_res ok e = Inr u \<longleftrightarrow> ok"
  by (simp add: guard_res_def)

lemma guard_res_Inl_iff [simp]: "guard_res ok e = Inl e' \<longleftrightarrow> \<not> ok \<and> e' = e"
  by (auto simp: guard_res_def)

lemma is_ok_iff: "is_ok r \<longleftrightarrow> (\<exists>a. r = Inr a)"
  by (cases r) auto

lemma map_res_Inr_iff:
  "map_res f xs = Inr ys \<longleftrightarrow> list_all2 (\<lambda>x y. f x = Inr y) xs ys"
  by (induction xs arbitrary: ys) (auto simp: list_all2_Cons1)

lemma check_all_Inr_iff [simp]:
  "check_all f xs = Inr u \<longleftrightarrow> (\<forall>x\<in>set xs. f x = Inr ())"
  by (induction xs) auto

lemma fold_res_invariant:
  assumes "fold_res f xs s = Inr s'" and "P s"
    and "\<And>x s s'. x \<in> set xs \<Longrightarrow> P s \<Longrightarrow> f x s = Inr s' \<Longrightarrow> P s'"
  shows "P s'"
  using assms by (induction xs arbitrary: s) auto

lemma fold_res_append:
  "fold_res f (xs @ ys) s = bind_res (fold_res f xs s) (fold_res f ys)"
proof (induction xs arbitrary: s)
  case (Cons x xs)
  then show ?case by (cases "f x s") simp_all
qed simp

lemma list_all2_set1:
  assumes "list_all2 P xs ys" and "x \<in> set xs"
  obtains y where "y \<in> set ys" "P x y"
  using assms by (induction rule: list_all2_induct) auto

lemma list_all2_set2:
  assumes "list_all2 P xs ys" and "y \<in> set ys"
  obtains x where "x \<in> set xs" "P x y"
  using assms by (induction rule: list_all2_induct) auto

section \<open>Facts about actions\<close>

lemma ret_act_apply [act_simps]: "ret_act a w = (Inr a, w)"
  by (simp add: ret_act_def)

lemma fail_act_apply [act_simps]: "fail_act e w = (Inl e, w)"
  by (simp add: fail_act_def)

lemma lift_res_apply [act_simps]: "lift_res r w = (r, w)"
  by (simp add: lift_res_def)

lemma bind_act_Inr:
  "bind_act m f w = (Inr b, w'') \<longleftrightarrow> (\<exists>a w'. m w = (Inr a, w') \<and> f a w' = (Inr b, w''))"
  by (auto simp: bind_act_def split: prod.splits sum.splits)

lemma bind_act_Inl:
  "bind_act m f w = (Inl e, w'') \<longleftrightarrow>
    m w = (Inl e, w'') \<or> (\<exists>a w'. m w = (Inr a, w') \<and> f a w' = (Inl e, w''))"
  by (auto simp: bind_act_def split: prod.splits sum.splits)

lemma map_err_act_Inr: "map_err_act f m w = (Inr a, w') \<longleftrightarrow> m w = (Inr a, w')"
  by (auto simp: map_err_act_def split: prod.splits)

lemma bind_act_state_invariant:
  assumes "bind_act m f w = (r, w'')"
    and "\<And>r w'. m w = (r, w') \<Longrightarrow> P w'"
    and "\<And>a w' r w''. m w = (Inr a, w') \<Longrightarrow> P w' \<Longrightarrow> f a w' = (r, w'') \<Longrightarrow> P w''"
  shows "P w''"
proof -
  obtain r1 w1 where m: "m w = (r1, w1)" by fastforce
  show ?thesis
  proof (cases r1)
    case (Inl e)
    then show ?thesis using assms(1) assms(2)[OF m] m by (simp add: bind_act_def)
  next
    case (Inr a)
    then have "f a w1 = (r, w'')" using assms(1) m by (simp add: bind_act_def)
    then show ?thesis using assms(3) assms(2)[OF m] m Inr by blast
  qed
qed

lemma fold_act_state_invariant:
  assumes "fold_act f xs s w = (r, w')" and "P w"
    and "\<And>x s w r w'. x \<in> set xs \<Longrightarrow> P w \<Longrightarrow> f x s w = (r, w') \<Longrightarrow> P w'"
  shows "P w'"
  using assms
proof (induction xs arbitrary: s w r w')
  case Nil
  then show ?case by (simp add: ret_act_def)
next
  case (Cons x xs)
  have step: "\<And>y s w r w'. y \<in> set xs \<Longrightarrow> P w \<Longrightarrow> f y s w = (r, w') \<Longrightarrow> P w'"
    by (rule Cons.prems(3)) auto
  from Cons.prems(1) have "bind_act (f x s) (fold_act f xs) w = (r, w')" by simp
  then show ?case
  proof (rule bind_act_state_invariant[where P = P])
    fix r1 w1 assume "f x s w = (r1, w1)"
    then show "P w1" using Cons.prems(3)[OF list.set_intros(1) Cons.prems(2)] by blast
  next
    fix a w1 r2 w2 assume P: "P w1" and run: "fold_act f xs a w1 = (r2, w2)"
    show "P w2" by (rule Cons.IH[OF run P]) (rule step)
  qed
qed

lemma for_each_state_invariant:
  assumes "for_each f xs w = (r, w')" and "P w"
    and "\<And>x w r w'. x \<in> set xs \<Longrightarrow> P w \<Longrightarrow> f x w = (r, w') \<Longrightarrow> P w'"
  shows "P w'"
  using assms
proof (induction xs arbitrary: w r w')
  case Nil
  then show ?case by (simp add: ret_act_def)
next
  case (Cons x xs)
  have step: "\<And>y w r w'. y \<in> set xs \<Longrightarrow> P w \<Longrightarrow> f y w = (r, w') \<Longrightarrow> P w'"
    by (rule Cons.prems(3)) auto
  from Cons.prems(1) have "bind_act (f x) (\<lambda>_. for_each f xs) w = (r, w')" by simp
  then show ?case
  proof (rule bind_act_state_invariant[where P = P])
    fix r1 w1 assume "f x w = (r1, w1)"
    then show "P w1" using Cons.prems(3)[OF list.set_intros(1) Cons.prems(2)] by blast
  next
    fix w1 r2 w2 assume P: "P w1" and run: "for_each f xs w1 = (r2, w2)"
    show "P w2" by (rule Cons.IH[OF run P]) (rule step)
  qed
qed

section \<open>Comparators and the stable sort\<close>

lemma reverse_ord_iff [simp]:
  "reverse_ord r = Less \<longleftrightarrow> r = Greater" "reverse_ord r = Equal \<longleftrightarrow> r = Equal"
  "reverse_ord r = Greater \<longleftrightarrow> r = Less"
  by (cases r; simp)+

text \<open>
  The contract of a comparison closure: \<open>slice::sort_by\<close> may panic or return an unspecified
  order when the closure is not a total preorder.
\<close>

locale comparator =
  fixes c :: "'a \<Rightarrow> 'a \<Rightarrow> ordering"
  assumes flip: "c y x = reverse_ord (c x y)"
    and trans: "c x y \<noteq> Greater \<Longrightarrow> c y z \<noteq> Greater \<Longrightarrow> c x z \<noteq> Greater"
begin

lemma cmp_refl [simp]: "c x x = Equal"
  using flip[of x x] by (cases "c x x") auto

lemma Greater_flip: "c x y = Greater \<longleftrightarrow> c y x = Less"
  by (simp add: flip[of x y])

lemma Equal_sym: "c x y = Equal \<longleftrightarrow> c y x = Equal"
  by (simp add: flip[of x y])

lemma le_total: "c x y \<noteq> Greater \<or> c y x \<noteq> Greater"
  using Greater_flip[of x y] by auto

lemma Equal_iff: "c x y = Equal \<longleftrightarrow> c x y \<noteq> Greater \<and> c y x \<noteq> Greater"
  using Greater_flip[of y x] by (cases "c x y") auto

lemma Less_iff: "c x y = Less \<longleftrightarrow> c y x = Greater"
  using Greater_flip[of y x] by simp

lemma Equal_left:
  assumes "c x y = Equal"
  shows "c x z = c y z"
proof -
  have xy: "c x y \<noteq> Greater" "c y x \<noteq> Greater" using assms by (auto simp: Equal_iff)
  have "c x z = Greater \<longleftrightarrow> c y z = Greater" using xy trans[of x y z] trans[of y x z] by auto
  moreover have "c x z = Less \<longleftrightarrow> c y z = Less"
    using xy trans[of z x y] trans[of z y x] by (auto simp: Less_iff)
  ultimately show ?thesis by (cases "c x z"; cases "c y z"; simp)
qed

lemma set_insort_by [simp]: "set (insort_by c x xs) = insert x (set xs)"
  by (induction xs) auto

lemma mset_insort_by [simp]: "mset (insort_by c x xs) = add_mset x (mset xs)"
  by (induction xs) auto

lemma sorted_insort_by:
  "sorted_wrt (\<lambda>a b. c a b \<noteq> Greater) xs \<Longrightarrow>
   sorted_wrt (\<lambda>a b. c a b \<noteq> Greater) (insort_by c x xs)"
proof (induction xs)
  case (Cons y ys)
  show ?case
  proof (cases "c x y = Greater")
    case True
    then have "c y x \<noteq> Greater" by (simp add: Greater_flip[of x y])
    then show ?thesis using Cons True by auto
  next
    case False
    then have "c x z \<noteq> Greater" if "z \<in> set ys" for z
      using that Cons.prems trans[of x y z] by auto
    then show ?thesis using Cons.prems False by auto
  qed
qed simp

lemma sorted_sort_by: "sorted_wrt (\<lambda>a b. c a b \<noteq> Greater) (sort_by c xs)"
  by (induction xs) (auto simp: sorted_insort_by)

lemma mset_sort_by: "mset (sort_by c xs) = mset xs"
  by (induction xs) auto

lemma set_sort_by: "set (sort_by c xs) = set xs"
  by (induction xs) auto

lemma length_sort_by: "length (sort_by c xs) = length xs"
  using mset_sort_by mset_eq_length by blast

lemma filter_Equal_insort_by:
  "sorted_wrt (\<lambda>a b. c a b \<noteq> Greater) xs \<Longrightarrow>
   filter (\<lambda>y. c z y = Equal) (insort_by c x xs) = filter (\<lambda>y. c z y = Equal) (x # xs)"
proof (induction xs)
  case (Cons y ys)
  show ?case
  proof (cases "c x y = Greater \<and> c z x = Equal")
    case True
    then have "c z y = Greater" using Equal_left by metis
    then show ?thesis using Cons True by simp
  next
    case False
    then show ?thesis using Cons by auto
  qed
qed simp

lemma stable_sort_by: "filter (\<lambda>y. c z y = Equal) (sort_by c xs) = filter (\<lambda>y. c z y = Equal) xs"
  by (induction xs) (auto simp: filter_Equal_insort_by sorted_sort_by)

lemma sort_by_hd_least:
  assumes "x \<in> set xs"
  shows "c (hd (sort_by c xs)) x \<noteq> Greater"
proof (cases "sort_by c xs")
  case Nil
  then show ?thesis using assms set_sort_by[of xs] by simp
next
  case (Cons y ys)
  then show ?thesis
    using assms set_sort_by[of xs] sorted_sort_by[of xs] by (cases "x = y") auto
qed

lemma sorted_lists_equal:
  assumes "mset xs = mset ys"
    and "sorted_wrt (\<lambda>a b. c a b \<noteq> Greater) xs" "sorted_wrt (\<lambda>a b. c a b \<noteq> Greater) ys"
    and "\<And>a b. a \<in> set xs \<Longrightarrow> b \<in> set xs \<Longrightarrow> c a b = Equal \<Longrightarrow> a = b"
  shows "xs = ys"
  using assms
proof (induction xs arbitrary: ys)
  case (Cons x xs)
  then obtain y ys' where ys: "ys = y # ys'" by (cases ys) auto
  have sets: "set (x # xs) = set ys" using Cons.prems(1) mset_eq_setD by blast
  have "c x y \<noteq> Greater" using Cons.prems(2) sets ys by (cases "x = y") auto
  moreover have "c y x \<noteq> Greater" using Cons.prems(3) sets ys by (cases "x = y") auto
  ultimately have "c x y = Equal" by (simp add: Equal_iff)
  then have "x = y" using Cons.prems(4) sets ys by auto
  then show ?case using Cons ys by auto
qed simp

lemma sort_by_permutation:
  assumes "mset xs = mset ys"
    and "\<And>a b. a \<in> set xs \<Longrightarrow> b \<in> set xs \<Longrightarrow> c a b = Equal \<Longrightarrow> a = b"
  shows "sort_by c xs = sort_by c ys"
  using assms
  by (intro sorted_lists_equal) (auto simp: mset_sort_by set_sort_by sorted_sort_by)

end

lemma comparator_key [cmp_laws]: "comparator (\<lambda>x y. cmp (f x) (f y))"
  by unfold_locales (auto simp: cmp_def split: if_splits)

interpretation linorder_cmp: comparator "cmp :: 'a::linorder \<Rightarrow> 'a \<Rightarrow> ordering"
  using comparator_key[of "\<lambda>x. x"] by simp

lemma comparator_then [cmp_laws]:
  assumes "comparator c1" and "comparator c2"
  shows "comparator (\<lambda>x y. then_with (c1 x y) (c2 x y))"
proof
  fix x y z
  show "then_with (c1 y x) (c2 y x) = reverse_ord (then_with (c1 x y) (c2 x y))"
    using comparator.flip[OF assms(1), of y x] comparator.flip[OF assms(2), of y x]
    by (cases "c1 x y"; simp)
  assume xy: "then_with (c1 x y) (c2 x y) \<noteq> Greater"
    and yz: "then_with (c1 y z) (c2 y z) \<noteq> Greater"
  have le: "c1 x y \<noteq> Greater" "c1 y z \<noteq> Greater" using xy yz by auto
  then have xz: "c1 x z \<noteq> Greater" using comparator.trans[OF assms(1)] by blast
  show "then_with (c1 x z) (c2 x z) \<noteq> Greater"
  proof (cases "c1 x z = Equal")
    case True
    then have "c1 z x = Equal" using comparator.Equal_sym[OF assms(1)] by blast
    then have "c1 x y = Equal" "c1 y z = Equal"
      using le True comparator.trans[OF assms(1), of z x y] comparator.trans[OF assms(1), of y z x]
        comparator.Equal_left[OF assms(1), of z x y] comparator.flip[OF assms(1), of y x]
        comparator.flip[OF assms(1), of z y]
      by (cases "c1 x y"; cases "c1 y z"; simp)+
    then show ?thesis using xy yz True comparator.trans[OF assms(2), of x y z] by simp
  next
    case False
    then show ?thesis using xz by (cases "c1 x z") auto
  qed
qed

lemma comparator_on [cmp_laws]:
  assumes "comparator c"
  shows "comparator (\<lambda>x y. c (f x) (f y))"
proof
  show "c (f y) (f x) = reverse_ord (c (f x) (f y))" for x y
    using comparator.flip[OF assms] .
  show "c (f x) (f y) \<noteq> Greater \<Longrightarrow> c (f y) (f z) \<noteq> Greater \<Longrightarrow> c (f x) (f z) \<noteq> Greater" for x y z
    using comparator.trans[OF assms] .
qed

lemma comparator_reverse [cmp_laws]:
  assumes "comparator c"
  shows "comparator (\<lambda>x y. c y x)"
  using comparator.flip[OF assms] comparator.trans[OF assms]
  by unfold_locales blast+

lemma cmp_Equal_iff [simp]: "cmp a b = Equal \<longleftrightarrow> a = b"
  by (auto simp: cmp_def)

lemma cmp_Greater_iff [simp]: "cmp a b = Greater \<longleftrightarrow> b < a"
  by (auto simp: cmp_def)

lemma cmp_Less_iff [simp]: "cmp a b = Less \<longleftrightarrow> a < b"
  by (auto simp: cmp_def)

lemma then_with_Equal_iff [simp]: "then_with a b = Equal \<longleftrightarrow> a = Equal \<and> b = Equal"
  by (cases a) auto

lemma then_with_Greater_iff:
  "then_with a b = Greater \<longleftrightarrow> a = Greater \<or> a = Equal \<and> b = Greater"
  by (cases a) auto

lemma sorted_sort_by_key: "sorted_wrt (\<lambda>a b. f a \<le> f b) (sort_by_key f xs)"
proof -
  have "sorted_wrt (\<lambda>a b. cmp (f a) (f b) \<noteq> Greater) (sort_by (\<lambda>x y. cmp (f x) (f y)) xs)"
    by (rule comparator.sorted_sort_by[OF comparator_key])
  then show ?thesis by (simp add: sort_by_key_def not_less)
qed

lemma mset_sort_by_key [simp]: "mset (sort_by_key f xs) = mset xs"
  unfolding sort_by_key_def by (rule comparator.mset_sort_by[OF comparator_key])

lemma set_sort_by_key [simp]: "set (sort_by_key f xs) = set xs"
  unfolding sort_by_key_def by (rule comparator.set_sort_by[OF comparator_key])

section \<open>Options\<close>

lemma opt_or_else_Some_iff [simp]:
  "opt_or_else a b = Some x \<longleftrightarrow> a = Some x \<or> a = None \<and> b = Some x"
  by (cases a) auto

section \<open>Searching\<close>

lemma position_Some:
  "position p xs = Some i \<Longrightarrow> i < length xs \<and> p (xs ! i) \<and> (\<forall>j<i. \<not> p (xs ! j))"
  by (induction xs arbitrary: i) (auto split: if_splits simp: nth_Cons split: nat.splits)

lemma position_None: "position p xs = None \<longleftrightarrow> (\<forall>x\<in>set xs. \<not> p x)"
  by (induction xs) auto

lemma position_ex: "x \<in> set xs \<Longrightarrow> p x \<Longrightarrow> \<exists>i. position p xs = Some i"
  using position_None[of p xs] by (cases "position p xs") auto

lemma map_update_first [simp]: "(\<And>x. g (f x) = g x) \<Longrightarrow> map g (update_first p f xs) = map g xs"
  by (induction xs) auto

lemma length_update_first [simp]: "length (update_first p f xs) = length xs"
  by (induction xs) auto

end
