(* ===== verification/Rust_Strings.thy ===== *)
theory Rust_Strings
  imports Ployz_Prelude "HOL-Library.Sublist"
begin

text \<open>
  The \<open>str\<close> and \<open>String\<close> operations of the standard library that the source uses, on the
  UTF-8 bytes of the string: a \<open>string\<close> is a list of \<open>char\<close>, and a \<open>char\<close> is a byte.
  \<open>str::trim\<close> removes the code points with the Unicode property \<open>White_Space\<close>, given by their
  UTF-8 encodings in \<open>white_space\<close>. Decimal and hexadecimal formatting and \<open>str::parse\<close> are
  written out, with the round trip between them.
\<close>

section \<open>Trimming\<close>

definition white_space :: "string list" where
  "white_space =
    [[CHR 0x09], [CHR 0x0A], [CHR 0x0B], [CHR 0x0C], [CHR 0x0D], [CHR 0x20],
     [CHR 0xC2, CHR 0x85], [CHR 0xC2, CHR 0xA0], [CHR 0xE1, CHR 0x9A, CHR 0x80],
     [CHR 0xE2, CHR 0x80, CHR 0x80], [CHR 0xE2, CHR 0x80, CHR 0x81], [CHR 0xE2, CHR 0x80, CHR 0x82],
     [CHR 0xE2, CHR 0x80, CHR 0x83], [CHR 0xE2, CHR 0x80, CHR 0x84], [CHR 0xE2, CHR 0x80, CHR 0x85],
     [CHR 0xE2, CHR 0x80, CHR 0x86], [CHR 0xE2, CHR 0x80, CHR 0x87], [CHR 0xE2, CHR 0x80, CHR 0x88],
     [CHR 0xE2, CHR 0x80, CHR 0x89], [CHR 0xE2, CHR 0x80, CHR 0x8A], [CHR 0xE2, CHR 0x80, CHR 0xA8],
     [CHR 0xE2, CHR 0x80, CHR 0xA9], [CHR 0xE2, CHR 0x80, CHR 0xAF], [CHR 0xE2, CHR 0x81, CHR 0x9F],
     [CHR 0xE3, CHR 0x80, CHR 0x80]]"

function drop_patterns :: "string list \<Rightarrow> string \<Rightarrow> string" where
  "drop_patterns ws s =
    (case find (\<lambda>w. w \<noteq> [] \<and> prefix w s) ws of
       None \<Rightarrow> s
     | Some w \<Rightarrow> drop_patterns ws (drop (length w) s))"
  by pat_completeness auto
termination
  by (relation "measure (\<lambda>(ws, s). length s)")
     (auto simp: find_Some_iff prefix_def)

declare drop_patterns.simps [simp del]

definition trim_start :: "string \<Rightarrow> string" where
  "trim_start = drop_patterns white_space"

definition trim_end :: "string \<Rightarrow> string" where
  "trim_end s = rev (drop_patterns (map rev white_space) (rev s))"

definition trim :: "string \<Rightarrow> string" where
  "trim s = trim_end (trim_start s)"

definition trim_end_matches :: "char \<Rightarrow> string \<Rightarrow> string" where
  "trim_end_matches c s = rev (dropWhile (\<lambda>x. x = c) (rev s))"

section \<open>Prefixes, suffixes and separators\<close>

definition strip_prefix :: "string \<Rightarrow> string \<Rightarrow> string option" where
  "strip_prefix p s = (if prefix p s then Some (drop (length p) s) else None)"

definition strip_suffix :: "string \<Rightarrow> string \<Rightarrow> string option" where
  "strip_suffix p s = (if suffix p s then Some (take (length s - length p) s) else None)"

fun split_on :: "char \<Rightarrow> string \<Rightarrow> string list" where
  "split_on c [] = [[]]"
| "split_on c (x # xs) =
    (if x = c then [] # split_on c xs
     else case split_on c xs of [] \<Rightarrow> [[x]] | y # ys \<Rightarrow> (x # y) # ys)"

fun split_once :: "char \<Rightarrow> string \<Rightarrow> (string \<times> string) option" where
  "split_once c [] = None"
| "split_once c (x # xs) =
    (if x = c then Some ([], xs)
     else case split_once c xs of None \<Rightarrow> None | Some (l, r) \<Rightarrow> Some (x # l, r))"

definition rsplit_once :: "char \<Rightarrow> string \<Rightarrow> (string \<times> string) option" where
  "rsplit_once c s = (case split_once c (rev s) of None \<Rightarrow> None | Some (l, r) \<Rightarrow> Some (rev r, rev l))"

primrec join_with :: "string \<Rightarrow> string list \<Rightarrow> string" where
  "join_with sep [] = []"
| "join_with sep (x # xs) = (if xs = [] then x else x @ sep @ join_with sep xs)"

text \<open>A value between single quotes, as the messages write it.\<close>

definition quoted :: "string \<Rightarrow> string" where
  "quoted s = CHR 0x27 # s @ [CHR 0x27]"

section \<open>ASCII case\<close>

definition is_ascii_upper :: "char \<Rightarrow> bool" where
  "is_ascii_upper c \<longleftrightarrow> CHR ''A'' \<le> c \<and> c \<le> CHR ''Z''"

definition ascii_lower :: "char \<Rightarrow> char" where
  "ascii_lower c = (if is_ascii_upper c then char_of (of_char c + 32 :: nat) else c)"

definition to_ascii_lowercase :: "string \<Rightarrow> string" where
  "to_ascii_lowercase = map ascii_lower"

definition is_ascii_digit :: "char \<Rightarrow> bool" where
  "is_ascii_digit c \<longleftrightarrow> CHR ''0'' \<le> c \<and> c \<le> CHR ''9''"

section \<open>Numbers\<close>

definition digit_char :: "nat \<Rightarrow> char" where
  "digit_char d = (if d < 10 then char_of (48 + d) else char_of (87 + d))"

function fmt_radix :: "nat \<Rightarrow> nat \<Rightarrow> string" where
  "fmt_radix r n = (if r < 2 \<or> n < r then [digit_char n] else fmt_radix r (n div r) @ [digit_char (n mod r)])"
  by pat_completeness auto
termination by (relation "measure snd") auto

declare fmt_radix.simps [simp del]

definition fmt_dec :: "nat \<Rightarrow> string" where
  "fmt_dec = fmt_radix 10"

definition fmt_hex_pad :: "nat \<Rightarrow> nat \<Rightarrow> string" where
  "fmt_hex_pad width n =
    (let s = fmt_radix 16 n in replicate (width - length s) (CHR ''0'') @ s)"

definition digit_value :: "char \<Rightarrow> nat option" where
  "digit_value c = (if is_ascii_digit c then Some (of_char c - 48) else None)"

primrec parse_digits :: "nat \<Rightarrow> string \<Rightarrow> nat option" where
  "parse_digits acc [] = Some acc"
| "parse_digits acc (c # cs) =
    (case digit_value c of None \<Rightarrow> None | Some d \<Rightarrow> parse_digits (acc * 10 + d) cs)"

text \<open>\<open>str::parse::<uN>\<close>: an optional plus sign, at least one digit, and a value below \<open>2\<^sup>N\<close>.\<close>

definition parse_uint :: "nat \<Rightarrow> string \<Rightarrow> nat option" where
  "parse_uint bits s =
    (let digits = (case s of c # cs \<Rightarrow> if c = CHR ''+'' \<and> cs \<noteq> [] then cs else s | [] \<Rightarrow> [])
     in if digits = [] then None
        else case parse_digits 0 digits of
          None \<Rightarrow> None
        | Some n \<Rightarrow> if n < 2 ^ bits then Some n else None)"

text \<open>\<open>str::parse::<iN>\<close>: an optional sign, at least one digit, and a value of the signed range.\<close>

definition parse_sint :: "nat \<Rightarrow> string \<Rightarrow> int option" where
  "parse_sint bits s =
    (case s of
       [] \<Rightarrow> None
     | c # cs \<Rightarrow>
         let digits = (if (c = CHR ''+'' \<or> c = CHR ''-'') \<and> cs \<noteq> [] then cs else s)
         in case parse_digits 0 digits of
              None \<Rightarrow> None
            | Some n \<Rightarrow>
                let v = (if c = CHR ''-'' then - int n else int n)
                in if - (2 ^ (bits - 1)) \<le> v \<and> v < 2 ^ (bits - 1) then Some v else None)"

definition hex_digit :: "char \<Rightarrow> nat" where
  "hex_digit c = (if is_ascii_digit c then of_char c - 48 else of_char c - 87)"

definition hex_value :: "string \<Rightarrow> nat" where
  "hex_value s = foldl (\<lambda>acc c. acc * 16 + hex_digit c) 0 s"

section \<open>Trimming: facts\<close>

lemma prefix_free_drop_patterns:
  assumes "w \<in> set ws" "w \<noteq> []"
  shows "\<not> prefix w (drop_patterns ws s)"
  using assms
proof (induction ws s rule: drop_patterns.induct)
  case (1 ws s)
  show ?case
  proof (cases "find (\<lambda>w. w \<noteq> [] \<and> prefix w s) ws")
    case None
    then have "drop_patterns ws s = s" by (simp add: drop_patterns.simps[of ws s])
    then show ?thesis using 1 None by (auto simp: find_None_iff)
  next
    case (Some u)
    then show ?thesis using 1 by (simp add: drop_patterns.simps[of ws s])
  qed
qed

lemma drop_patterns_id:
  assumes "\<And>w. w \<in> set ws \<Longrightarrow> w \<noteq> [] \<Longrightarrow> \<not> prefix w s"
  shows "drop_patterns ws s = s"
proof -
  have "find (\<lambda>w. w \<noteq> [] \<and> prefix w s) ws = None" using assms by (auto simp: find_None_iff)
  then show ?thesis by (simp add: drop_patterns.simps[of ws s])
qed

lemma drop_patterns_suffix: "suffix (drop_patterns ws s) s"
proof (induction ws s rule: drop_patterns.induct)
  case (1 ws s)
  then show ?case
    by (subst drop_patterns.simps)
       (auto split: option.split intro: suffix_order.trans suffix_drop)
qed

lemma trim_end_prefix: "prefix (trim_end s) s"
  using drop_patterns_suffix[of "map rev white_space" "rev s"]
  by (simp add: trim_end_def suffix_to_prefix)

lemma trim_idem [simp]: "trim (trim s) = trim s"
proof -
  have no_pre: "\<not> prefix w (trim_start s)" if "w \<in> set white_space" "w \<noteq> []" for w
    using that prefix_free_drop_patterns by (simp add: trim_start_def)
  have "trim_start (trim s) = trim s"
    unfolding trim_start_def
    by (rule drop_patterns_id)
       (use no_pre trim_end_prefix prefix_order.trans in \<open>fastforce simp: trim_def\<close>)
  moreover have "trim_end (trim_end t) = trim_end t" for t
    unfolding trim_end_def
    using drop_patterns_id[of "map rev white_space", OF prefix_free_drop_patterns] by simp
  ultimately show ?thesis by (simp add: trim_def)
qed

lemma trim_Nil [simp]: "trim [] = []"
  using trim_end_prefix[of "[]"] drop_patterns_suffix[of white_space "[]"]
  by (simp add: trim_def trim_start_def)

lemma trim_start_id:
  assumes "s = c # t" and "c \<notin> hd ` set white_space"
  shows "trim_start s = s"
  unfolding trim_start_def
  by (rule drop_patterns_id) (use assms in \<open>auto simp: prefix_Cons image_iff neq_Nil_conv\<close>)

lemma trim_end_id:
  assumes "s = t @ [c]" and "c \<notin> last ` set white_space"
  shows "trim_end s = s"
proof -
  have "drop_patterns (map rev white_space) (rev s) = rev s"
  proof (rule drop_patterns_id)
    fix w assume w: "w \<in> set (map rev white_space)" "w \<noteq> []"
    then obtain u where u: "u \<in> set white_space" "w = rev u" by auto
    show "\<not> prefix w (rev s)"
    proof
      assume "prefix w (rev s)"
      then have "hd w = c" using w assms by (cases w) auto
      then show False using u w assms by (auto simp: hd_rev)
    qed
  qed
  then show ?thesis by (simp add: trim_end_def)
qed

lemma trim_id:
  assumes "s \<noteq> []" and "hd s \<notin> hd ` set white_space" and "last s \<notin> last ` set white_space"
  shows "trim s = s"
  using assms trim_start_id[of s "hd s" "tl s"] trim_end_id[of s "butlast s" "last s"]
  by (simp add: trim_def)

lemma trim_end_matches_last: "trim_end_matches c s = [] \<or> last (trim_end_matches c s) \<noteq> c"
proof (cases "dropWhile (\<lambda>x. x = c) (rev s)")
  case (Cons x xs)
  then have "x \<noteq> c" by (metis (full_types) hd_dropWhile list.distinct(1) list.sel(1))
  then show ?thesis using Cons by (simp add: trim_end_matches_def)
qed (simp add: trim_end_matches_def)

lemma trim_end_matches_id: "s = [] \<or> last s \<noteq> c \<Longrightarrow> trim_end_matches c s = s"
  by (cases s rule: rev_cases) (auto simp: trim_end_matches_def)

section \<open>Separators: facts\<close>

lemma strip_prefix_Some: "strip_prefix p s = Some t \<longleftrightarrow> s = p @ t"
  by (auto simp: strip_prefix_def prefix_def)

lemma strip_suffix_Some: "strip_suffix p s = Some t \<longleftrightarrow> s = t @ p"
  by (auto simp: strip_suffix_def suffix_def)

lemma split_on_not_Nil [simp]: "split_on c s \<noteq> []"
  by (induction s) (auto split: list.splits)

lemma split_on_no_sep: "c \<notin> set s \<Longrightarrow> split_on c s = [s]"
  by (induction s) auto

lemma split_on_append_sep: "c \<notin> set l \<Longrightarrow> split_on c (l @ c # s) = l # split_on c s"
  by (induction l) auto

lemma split_on_join:
  assumes "ls \<noteq> []" and "\<And>l. l \<in> set ls \<Longrightarrow> c \<notin> set l"
  shows "split_on c (join_with [c] ls) = ls"
  using assms
proof (induction ls)
  case (Cons l ls)
  then show ?case by (cases "ls = []") (auto simp: split_on_no_sep split_on_append_sep)
qed simp

lemma join_split_on: "join_with [c] (split_on c s) = s"
proof (induction s)
  case (Cons x s)
  then show ?case by (cases "split_on c s") (auto split: if_splits)
qed simp

lemma split_on_labels: "l \<in> set (split_on c s) \<Longrightarrow> c \<notin> set l"
proof (induction s arbitrary: l)
  case (Cons x s)
  then show ?case by (cases "split_on c s") (auto split: if_splits)
qed simp

lemma split_once_Some: "split_once c s = Some (l, r) \<Longrightarrow> s = l @ c # r \<and> c \<notin> set l"
  by (induction s arbitrary: l r) (auto split: if_splits option.splits)

lemma split_once_None: "split_once c s = None \<longleftrightarrow> c \<notin> set s"
  by (induction s) (auto split: option.splits)

lemma split_once_append: "c \<notin> set l \<Longrightarrow> split_once c (l @ c # r) = Some (l, r)"
  by (induction l) auto

lemma rsplit_once_None: "rsplit_once c s = None \<longleftrightarrow> c \<notin> set s"
  by (auto simp: rsplit_once_def split_once_None split: option.splits)
     (metis option.distinct(1) set_rev split_once_None)

lemma rsplit_once_append: "c \<notin> set r \<Longrightarrow> rsplit_once c (l @ c # r) = Some (l, r)"
  using split_once_append[of c "rev r" "rev l"] by (simp add: rsplit_once_def)

lemma rsplit_once_Some: "rsplit_once c s = Some (l, r) \<longleftrightarrow> s = l @ c # r \<and> c \<notin> set r"
proof
  assume *: "rsplit_once c s = Some (l, r)"
  then have "split_once c (rev s) = Some (rev r, rev l)"
    by (auto simp: rsplit_once_def split: option.splits)
  from split_once_Some[OF this] show "s = l @ c # r \<and> c \<notin> set r"
    by (metis append.assoc append_Cons append_Nil rev_append rev_rev_ident rev_singleton_conv set_rev rev.simps(2))
next
  assume "s = l @ c # r \<and> c \<notin> set r"
  then show "rsplit_once c s = Some (l, r)" using rsplit_once_append by blast
qed

section \<open>Case: facts\<close>

lemma of_char_less_eq: "c \<le> d \<longleftrightarrow> (of_char c :: nat) \<le> of_char d"
  by (simp add: less_eq_char_def)

lemma ascii_lower_not_upper [simp]: "\<not> is_ascii_upper (ascii_lower c)"
  by (auto simp: ascii_lower_def is_ascii_upper_def of_char_less_eq)

lemma ascii_lower_idem [simp]: "ascii_lower (ascii_lower c) = ascii_lower c"
  by (simp add: ascii_lower_def[of "ascii_lower c"])

lemma to_ascii_lowercase_idem [simp]: "to_ascii_lowercase (to_ascii_lowercase s) = to_ascii_lowercase s"
  by (simp add: to_ascii_lowercase_def)

lemma to_ascii_lowercase_Nil_iff [simp]: "to_ascii_lowercase s = [] \<longleftrightarrow> s = []"
  by (simp add: to_ascii_lowercase_def)

lemma to_ascii_lowercase_id: "(\<And>c. c \<in> set s \<Longrightarrow> \<not> is_ascii_upper c) \<Longrightarrow> to_ascii_lowercase s = s"
  by (simp add: to_ascii_lowercase_def ascii_lower_def map_idI)

lemma to_ascii_lowercase_no_upper: "c \<in> set (to_ascii_lowercase s) \<Longrightarrow> \<not> is_ascii_upper c"
  by (auto simp: to_ascii_lowercase_def)

section \<open>Numbers: facts\<close>

lemma digit_value_digit_char [simp]: "d < 10 \<Longrightarrow> digit_value (digit_char d) = Some d"
  by (auto simp: digit_value_def digit_char_def is_ascii_digit_def of_char_less_eq)

lemma parse_digits_append:
  "parse_digits acc (s @ t) = (case parse_digits acc s of None \<Rightarrow> None | Some n \<Rightarrow> parse_digits n t)"
  by (induction s arbitrary: acc) (auto split: option.split)

lemma parse_digits_fmt_radix: "parse_digits 0 (fmt_radix 10 n) = Some n"
proof (induction n rule: less_induct)
  case (less n)
  show ?case
  proof (cases "n < 10")
    case True
    then show ?thesis by (simp add: fmt_radix.simps[of 10 n])
  next
    case False
    then show ?thesis using less[of "n div 10"]
      by (simp add: fmt_radix.simps[of 10 n] parse_digits_append)
  qed
qed

lemma fmt_radix_not_Nil [simp]: "fmt_radix r n \<noteq> []"
  by (subst fmt_radix.simps) simp

lemma set_fmt_dec: "c \<in> set (fmt_radix 10 n) \<Longrightarrow> is_ascii_digit c"
proof (induction n rule: less_induct)
  case (less n)
  have digit: "d < 10 \<Longrightarrow> is_ascii_digit (digit_char d)" for d
    by (auto simp: digit_char_def is_ascii_digit_def of_char_less_eq)
  show ?case using less.IH[of "n div 10"] less.prems digit[of n] digit[of "n mod 10"]
    by (subst (asm) (2) fmt_radix.simps) (auto split: if_splits)
qed

lemma parse_uint_fmt_dec: "n < 2 ^ bits \<Longrightarrow> parse_uint bits (fmt_dec n) = Some n"
proof -
  assume n: "n < 2 ^ bits"
  obtain c cs where s: "fmt_radix 10 n = c # cs" by (cases "fmt_radix 10 n") auto
  then have "is_ascii_digit c" using set_fmt_dec[of c n] by simp
  then have "c \<noteq> CHR ''+''" by (auto simp: is_ascii_digit_def of_char_less_eq)
  then show ?thesis
    using n s parse_digits_fmt_radix[of n] by (simp add: parse_uint_def fmt_dec_def)
qed

lemma fmt_dec_inject [simp]: "fmt_dec m = fmt_dec n \<longleftrightarrow> m = n"
  by (metis fmt_dec_def option.inject parse_digits_fmt_radix)

lemma hex_digit_digit_char: "d < 16 \<Longrightarrow> hex_digit (digit_char d) = d"
  by (auto simp: hex_digit_def digit_char_def is_ascii_digit_def of_char_less_eq)

lemma hex_value_fmt_radix: "hex_value (fmt_radix 16 n) = n"
proof (induction n rule: less_induct)
  case (less n)
  show ?case
  proof (cases "n < 16")
    case True
    then show ?thesis by (simp add: fmt_radix.simps[of 16 n] hex_value_def hex_digit_digit_char)
  next
    case False
    then show ?thesis using less[of "n div 16"]
      by (simp add: fmt_radix.simps[of 16 n] hex_value_def hex_digit_digit_char)
  qed
qed

lemma hex_value_pad: "hex_value (replicate k (CHR ''0'') @ s) = hex_value s"
proof -
  have "foldl (\<lambda>acc c. acc * 16 + hex_digit c) 0 (replicate k (CHR ''0'')) = 0"
    by (induction k) (auto simp: hex_digit_def is_ascii_digit_def)
  then show ?thesis by (simp add: hex_value_def)
qed

lemma fmt_hex_pad_inject [simp]: "fmt_hex_pad w m = fmt_hex_pad w n \<longleftrightarrow> m = n"
  by (metis fmt_hex_pad_def hex_value_fmt_radix hex_value_pad)

lemma length_fmt_radix_le: "n < 16 ^ k \<Longrightarrow> 0 < k \<Longrightarrow> length (fmt_radix 16 n) \<le> k"
proof (induction k arbitrary: n)
  case (Suc k)
  show ?case
  proof (cases "n < 16")
    case False
    then have "0 < k" using Suc.prems by (cases k) auto
    moreover have "n div 16 < 16 ^ k" using Suc.prems by (simp add: div_less_iff_less_mult mult.commute)
    ultimately show ?thesis using Suc.IH[of "n div 16"] by (simp add: fmt_radix.simps[of 16 n])
  qed (simp add: fmt_radix.simps[of 16 n])
qed simp

lemma length_fmt_hex_pad: "n < 16 ^ w \<Longrightarrow> 0 < w \<Longrightarrow> length (fmt_hex_pad w n) = w"
  using length_fmt_radix_le[of n w] by (simp add: fmt_hex_pad_def Let_def)

end
