(* ===== verification/Rust_Collections.thy ===== *)
theory Rust_Collections
  imports Ployz_Prelude "HOL-Library.AList"
begin

text \<open>
  The standard collections the source uses.

  \<^item> \<open>HashMap\<close>: an association list with distinct keys, \<open>AList.update\<close> and \<open>AList.delete\<close>
    for \<open>insert\<close> and \<open>remove\<close>. The iteration order of a \<open>HashMap\<close> is unspecified; here it is
    the order of the list, and no lemma of the development relies on which one it is.
  \<^item> \<open>BTreeMap\<close>: an association list sorted strictly by key, so that iteration is ascending.
  \<^item> \<open>BTreeSet\<close>: a strictly ascending list.

  The locale \<open>rust_map\<close> is the interface that the clients of both maps rely on; its lemmas cover
  \<open>collect\<close>, the \<open>entry\<close> API used for grouping and \<open>retain\<close>.
\<close>

section \<open>HashMap\<close>

type_synonym ('k, 'v) hash_map = "('k \<times> 'v) list"

abbreviation hm_insert :: "'k \<Rightarrow> 'v \<Rightarrow> ('k, 'v) hash_map \<Rightarrow> ('k, 'v) hash_map" where
  "hm_insert \<equiv> AList.update"

abbreviation hm_remove :: "'k \<Rightarrow> ('k, 'v) hash_map \<Rightarrow> ('k, 'v) hash_map" where
  "hm_remove \<equiv> AList.delete"

abbreviation hm_get :: "('k, 'v) hash_map \<Rightarrow> 'k \<Rightarrow> 'v option" where
  "hm_get \<equiv> map_of"

definition hm_contains :: "('k, 'v) hash_map \<Rightarrow> 'k \<Rightarrow> bool" where
  "hm_contains m k = (map_of m k \<noteq> None)"

definition hm_keys :: "('k, 'v) hash_map \<Rightarrow> 'k list" where
  "hm_keys = map fst"

definition hm_values :: "('k, 'v) hash_map \<Rightarrow> 'v list" where
  "hm_values = map snd"

definition hm_wf :: "('k, 'v) hash_map \<Rightarrow> bool" where
  "hm_wf m = distinct (map fst m)"

definition hm_retain :: "('k \<Rightarrow> 'v \<Rightarrow> bool) \<Rightarrow> ('k, 'v) hash_map \<Rightarrow> ('k, 'v) hash_map" where
  "hm_retain p m = filter (\<lambda>(k, v). p k v) m"

text \<open>A table: a map in which every record is stored under its own key.\<close>

definition hm_keyed :: "('v \<Rightarrow> 'k) \<Rightarrow> ('k, 'v) hash_map \<Rightarrow> bool" where
  "hm_keyed key m \<longleftrightarrow> hm_wf m \<and> (\<forall>k v. map_of m k = Some v \<longrightarrow> key v = k)"

section \<open>BTreeMap and BTreeSet\<close>

type_synonym ('k, 'v) btree_map = "('k \<times> 'v) list"

fun bt_insert :: "'k::linorder \<Rightarrow> 'v \<Rightarrow> ('k, 'v) btree_map \<Rightarrow> ('k, 'v) btree_map" where
  "bt_insert k v [] = [(k, v)]"
| "bt_insert k v ((a, b) # m) =
    (if k < a then (k, v) # (a, b) # m
     else if k = a then (a, v) # m
     else (a, b) # bt_insert k v m)"

fun bt_remove :: "'k::linorder \<Rightarrow> ('k, 'v) btree_map \<Rightarrow> ('k, 'v) btree_map" where
  "bt_remove k [] = []"
| "bt_remove k ((a, b) # m) = (if k = a then m else (a, b) # bt_remove k m)"

abbreviation bt_get :: "('k, 'v) btree_map \<Rightarrow> 'k \<Rightarrow> 'v option" where
  "bt_get \<equiv> map_of"

definition bt_wf :: "('k::linorder, 'v) btree_map \<Rightarrow> bool" where
  "bt_wf m = sorted_wrt (<) (map fst m)"

definition bt_contains :: "('k, 'v) btree_map \<Rightarrow> 'k \<Rightarrow> bool" where
  "bt_contains m k = (map_of m k \<noteq> None)"

definition bt_keys :: "('k, 'v) btree_map \<Rightarrow> 'k list" where
  "bt_keys = map fst"

definition bt_values :: "('k, 'v) btree_map \<Rightarrow> 'v list" where
  "bt_values = map snd"

text \<open>\<open>entry(k).or_default().push(v)\<close> on a map of vectors.\<close>

definition bt_push :: "'k::linorder \<Rightarrow> 'v \<Rightarrow> ('k, 'v list) btree_map \<Rightarrow> ('k, 'v list) btree_map" where
  "bt_push k v m = bt_insert k (unwrap_or (bt_get m k) [] @ [v]) m"

definition hm_push :: "'k \<Rightarrow> 'v \<Rightarrow> ('k, 'v list) hash_map \<Rightarrow> ('k, 'v list) hash_map" where
  "hm_push k v m = hm_insert k (unwrap_or (hm_get m k) [] @ [v]) m"

fun bs_insert :: "'k::linorder \<Rightarrow> 'k list \<Rightarrow> 'k list" where
  "bs_insert k [] = [k]"
| "bs_insert k (a # s) = (if k < a then k # a # s else if k = a then a # s else a # bs_insert k s)"

definition bs_of_list :: "'k::linorder list \<Rightarrow> 'k list" where
  "bs_of_list ks = fold bs_insert ks []"

definition bt_collect :: "('k::linorder \<times> 'v) list \<Rightarrow> ('k, 'v) btree_map" where
  "bt_collect kvs = fold (\<lambda>(k, v). bt_insert k v) kvs []"

definition hm_collect :: "('k \<times> 'v) list \<Rightarrow> ('k, 'v) hash_map" where
  "hm_collect kvs = fold (\<lambda>(k, v). hm_insert k v) kvs []"

section \<open>The interface of a finite map\<close>

locale rust_map =
  fixes empty :: "'m" and insert :: "'k \<Rightarrow> 'v \<Rightarrow> 'm \<Rightarrow> 'm" and remove :: "'k \<Rightarrow> 'm \<Rightarrow> 'm"
    and get :: "'m \<Rightarrow> 'k \<Rightarrow> 'v option" and entries :: "'m \<Rightarrow> ('k \<times> 'v) list" and wf :: "'m \<Rightarrow> bool"
  assumes wf_empty: "wf empty"
    and wf_insert: "wf m \<Longrightarrow> wf (insert k v m)"
    and wf_remove: "wf m \<Longrightarrow> wf (remove k m)"
    and get_empty: "get empty k = None"
    and get_insert: "wf m \<Longrightarrow> get (insert k v m) k' = (if k' = k then Some v else get m k')"
    and get_remove: "wf m \<Longrightarrow> get (remove k m) k' = (if k' = k then None else get m k')"
    and entries_distinct: "wf m \<Longrightarrow> distinct (map fst (entries m))"
    and entries_get: "wf m \<Longrightarrow> (k, v) \<in> set (entries m) \<longleftrightarrow> get m k = Some v"
begin

lemma wf_fold_insert: "wf m \<Longrightarrow> wf (fold (\<lambda>(k, v). insert k v) kvs m)"
  by (induction kvs arbitrary: m) (auto simp: wf_insert)

lemma get_fold_insert:
  "wf m \<Longrightarrow> get (fold (\<lambda>(k, v). insert k v) kvs m) k =
    (case map_of (rev kvs) k of Some v \<Rightarrow> Some v | None \<Rightarrow> get m k)"
  by (induction kvs arbitrary: m)
     (auto simp: wf_insert get_insert map_of_append map_add_def split: option.splits)

lemma get_collect: "get (fold (\<lambda>(k, v). insert k v) kvs empty) k = map_of (rev kvs) k"
  by (simp add: get_fold_insert wf_empty get_empty split: option.split)

lemma fold_insert_distinct:
  assumes "distinct (map fst kvs)"
  shows "get (fold (\<lambda>(k, v). insert k v) kvs empty) k = Some v \<longleftrightarrow> (k, v) \<in> set kvs"
proof -
  have "distinct (map fst (rev kvs))" using assms by (simp flip: rev_map)
  then show ?thesis by (simp add: get_collect)
qed

lemma entries_keys: "wf m \<Longrightarrow> k \<in> fst ` set (entries m) \<longleftrightarrow> get m k \<noteq> None"
proof -
  assume "wf m"
  have "k \<in> fst ` set (entries m) \<longleftrightarrow> (\<exists>v. (k, v) \<in> set (entries m))" by force
  then show ?thesis using \<open>wf m\<close> by (simp add: entries_get)
qed

lemma get_entries: "wf m \<Longrightarrow> map_of (entries m) k = get m k"
  using map_of_eq_None_iff[of "entries m" k] entries_keys[of m k]
    map_of_eq_Some_iff[OF entries_distinct, of m k] entries_get[of m k]
  by (cases "get m k") auto

lemma remove_insert: "wf m \<Longrightarrow> get (remove k (insert k v m)) k' = get (remove k m) k'"
  by (simp add: get_remove get_insert wf_insert)

end

section \<open>The two maps implement the interface\<close>

interpretation hm: rust_map "[]" hm_insert hm_remove hm_get "\<lambda>m. m" hm_wf
  by unfold_locales
     (simp_all add: hm_wf_def distinct_update distinct_delete update_conv' delete_conv')

lemma set_keys_bt_insert [simp]: "fst ` set (bt_insert k v m) = insert k (fst ` set m)"
  by (induction k v m rule: bt_insert.induct) auto

lemma set_keys_bt_remove: "fst ` set (bt_remove k m) \<subseteq> fst ` set m"
  by (induction k m rule: bt_remove.induct) auto

lemma bt_wf_Cons [simp]: "bt_wf ((a, b) # m) \<longleftrightarrow> (\<forall>x\<in>fst ` set m. a < x) \<and> bt_wf m"
  by (simp add: bt_wf_def)

lemma bt_wf_Nil [simp]: "bt_wf []"
  by (simp add: bt_wf_def)

lemma bt_wf_distinct: "bt_wf m \<Longrightarrow> distinct (map fst m)"
  by (simp add: bt_wf_def strict_sorted_iff)

lemma bt_wf_insert [simp]: "bt_wf m \<Longrightarrow> bt_wf (bt_insert k v m)"
  by (induction k v m rule: bt_insert.induct) auto

lemma bt_wf_remove [simp]: "bt_wf m \<Longrightarrow> bt_wf (bt_remove k m)"
  by (induction k m rule: bt_remove.induct) (use set_keys_bt_remove in fastforce)+

lemma map_of_bt_insert [simp]: "bt_get (bt_insert k v m) = (bt_get m)(k \<mapsto> v)"
  by (induction k v m rule: bt_insert.induct) (auto simp: fun_eq_iff)

lemma map_of_bt_remove: "bt_wf m \<Longrightarrow> bt_get (bt_remove k m) = (bt_get m)(k := None)"
  by (induction k m rule: bt_remove.induct)
     (auto simp: fun_eq_iff map_of_eq_None_iff)

interpretation bt: rust_map "[]" "bt_insert :: 'k::linorder \<Rightarrow> _" bt_remove bt_get "\<lambda>m. m" bt_wf
  by unfold_locales (simp_all add: map_of_bt_remove bt_wf_distinct)

section \<open>Collecting, grouping and retaining\<close>

lemma bt_wf_collect [simp]: "bt_wf (bt_collect kvs)"
  by (simp add: bt_collect_def bt.wf_fold_insert)

lemma bt_get_collect: "bt_get (bt_collect kvs) k = map_of (rev kvs) k"
  by (simp add: bt_collect_def bt.get_collect)

lemma hm_wf_collect [simp]: "hm_wf (hm_collect kvs)"
  by (simp add: hm_collect_def hm.wf_fold_insert hm.wf_empty)

lemma hm_get_collect: "hm_get (hm_collect kvs) k = map_of (rev kvs) k"
  by (simp add: hm_collect_def hm.get_collect)

lemma bt_wf_push [simp]: "bt_wf m \<Longrightarrow> bt_wf (bt_push k v m)"
  by (simp add: bt_push_def)

lemma bt_get_push [simp]:
  "bt_get (bt_push k v m) = (bt_get m)(k \<mapsto> unwrap_or (bt_get m k) [] @ [v])"
  by (simp add: bt_push_def)

lemma bt_get_fold_push:
  "unwrap_or (bt_get (fold (\<lambda>x. bt_push (key x) (val x)) xs m) k) [] =
   unwrap_or (bt_get m k) [] @ map val (filter (\<lambda>x. key x = k) xs)"
  by (induction xs arbitrary: m) auto

lemma bt_dom_fold_push:
  "bt_get (fold (\<lambda>x. bt_push (key x) (val x)) xs m) k = None \<longleftrightarrow>
   bt_get m k = None \<and> k \<notin> key ` set xs"
  by (induction xs arbitrary: m) auto

lemma bt_wf_fold_push: "bt_wf m \<Longrightarrow> bt_wf (fold (\<lambda>x. bt_push (key x) (val x)) xs m)"
  by (induction xs arbitrary: m) auto

lemma hm_wf_retain [simp]: "hm_wf m \<Longrightarrow> hm_wf (hm_retain p m)"
  by (simp add: hm_wf_def hm_retain_def distinct_map_filter)

lemma hm_get_retain:
  "hm_wf m \<Longrightarrow> hm_get (hm_retain p m) k =
    (case hm_get m k of Some v \<Rightarrow> if p k v then Some v else None | None \<Rightarrow> None)"
  by (induction m) (auto simp: hm_wf_def hm_retain_def map_of_eq_None_iff split: option.splits)

lemma hm_contains_insert [simp]:
  "hm_contains (hm_insert k v m) k' \<longleftrightarrow> k' = k \<or> hm_contains m k'"
  by (simp add: hm_contains_def update_conv')

lemma set_hm_insert_values: "set (hm_values (hm_insert k v m)) \<subseteq> insert v (set (hm_values m))"
  by (induction m) (auto simp: hm_values_def)

lemma hm_values_get: "hm_wf m \<Longrightarrow> v \<in> set (hm_values m) \<longleftrightarrow> (\<exists>k. hm_get m k = Some v)"
  by (auto simp: hm_values_def hm_wf_def) force+

lemma hm_keys_get: "k \<in> set (hm_keys m) \<longleftrightarrow> (\<exists>v. hm_get m k = Some v)"
  by (simp add: hm_keys_def) (metis (mono_tags) map_of_eq_None_iff not_Some_eq)

lemma hm_keyed_wf: "hm_keyed key m \<Longrightarrow> hm_wf m"
  by (simp add: hm_keyed_def)

lemma hm_keyed_get: "hm_keyed key m \<Longrightarrow> hm_get m k = Some v \<Longrightarrow> key v = k"
  by (simp add: hm_keyed_def)

lemma hm_keyed_Nil [simp]: "hm_keyed key []"
  by (simp add: hm_keyed_def hm.wf_empty)

lemma hm_keyed_insert [simp]: "hm_keyed key m \<Longrightarrow> key v = k \<Longrightarrow> hm_keyed key (hm_insert k v m)"
  by (auto simp: hm_keyed_def hm.wf_insert hm.get_insert)

lemma hm_keyed_remove [simp]: "hm_keyed key m \<Longrightarrow> hm_keyed key (hm_remove k m)"
  by (auto simp: hm_keyed_def hm.wf_remove hm.get_remove)

lemma hm_keyed_retain [simp]: "hm_keyed key m \<Longrightarrow> hm_keyed key (hm_retain p m)"
  by (auto simp: hm_keyed_def hm_get_retain split: option.splits if_splits)

lemma hm_keyed_fold_insert: "hm_keyed key m \<Longrightarrow> hm_keyed key (fold (\<lambda>v. hm_insert (key v) v) vs m)"
  by (induction vs arbitrary: m) auto

lemma hm_keyed_values: "hm_keyed key m \<Longrightarrow> v \<in> set (hm_values m) \<longleftrightarrow> hm_get m (key v) = Some v"
  by (metis hm_values_get hm_keyed_def)

lemma hm_keyed_map_values: "hm_keyed key m \<Longrightarrow> map (\<lambda>v. (key v, v)) (hm_values m) = m"
  unfolding hm_keyed_def hm_wf_def hm_values_def
  by (auto intro!: map_idI)

section \<open>Ordered sets\<close>

lemma set_bs_insert [simp]: "set (bs_insert k s) = insert k (set s)"
  by (induction k s rule: bs_insert.induct) auto

lemma sorted_bs_insert: "sorted_wrt (<) s \<Longrightarrow> sorted_wrt (<) (bs_insert k s)"
  by (induction k s rule: bs_insert.induct) auto

lemma set_fold_bs_insert: "set (fold bs_insert ks s) = set ks \<union> set s"
  by (induction ks arbitrary: s) auto

lemma set_bs_of_list [simp]: "set (bs_of_list ks) = set ks"
  by (simp add: bs_of_list_def set_fold_bs_insert)

lemma sorted_fold_bs_insert: "sorted_wrt (<) s \<Longrightarrow> sorted_wrt (<) (fold bs_insert ks s)"
  by (induction ks arbitrary: s) (auto simp: sorted_bs_insert)

lemma sorted_bs_of_list: "sorted_wrt (<) (bs_of_list ks)"
  by (simp add: bs_of_list_def sorted_fold_bs_insert)

lemma distinct_bs_of_list [simp]: "distinct (bs_of_list ks)"
  using sorted_bs_of_list strict_sorted_iff by blast

end
