(* ===== verification/Types_Model.thy ===== *)
theory Types_Model
  imports Rust_Strings Rust_Collections
begin

text \<open>
  The shared data model, \<open>crates/ployz-types/src/model.rs\<close>: identifiers, machine records, service
  revisions, releases and instances, deploy records and plans, and the join response.

  A struct is a record whose field names carry a prefix of the struct's name, an enum is a datatype
  with the enum's constructors. \<open>u64\<close> timestamps are \<open>nat\<close>: the code only compares them and
  subtracts them saturating at zero, which is subtraction on \<open>nat\<close>. An \<open>Ipv4Addr\<close> is a
  \<open>32 word\<close>, an \<open>Ipv6Addr\<close> its sixteen octets, a port a \<open>16 word\<close>. A value of
  \<open>ipnet::Ipv4Net\<close> is an address with a prefix length; the operations of that crate, of
  \<open>serde_json\<close> and of \<open>base64\<close> are arguments of the definitions that call them.
\<close>

section \<open>Identifiers\<close>

type_synonym timestamp = nat
type_synonym ipv4_addr = "32 word"
type_synonym ipv6_addr = "8 word list"
type_synonym u16 = "16 word"

datatype machine_id = MachineId string
datatype network_name = NetworkName string
datatype network_id = NetworkId string
datatype public_key = PublicKey "8 word list"
datatype overlay_ip = OverlayIp ipv6_addr
datatype namespace = Namespace string
datatype instance_id = InstanceId string
datatype deploy_id = DeployId string
datatype slot_id = SlotId string
datatype ipv4_net = Ipv4Net ipv4_addr nat

primrec machine_id_str :: "machine_id \<Rightarrow> string" where
  "machine_id_str (MachineId s) = s"

primrec namespace_str :: "namespace \<Rightarrow> string" where
  "namespace_str (Namespace s) = s"

primrec instance_id_str :: "instance_id \<Rightarrow> string" where
  "instance_id_str (InstanceId s) = s"

primrec slot_id_str :: "slot_id \<Rightarrow> string" where
  "slot_id_str (SlotId s) = s"

primrec deploy_id_str :: "deploy_id \<Rightarrow> string" where
  "deploy_id_str (DeployId s) = s"

primrec overlay_ip_octets :: "overlay_ip \<Rightarrow> ipv6_addr" where
  "overlay_ip_octets (OverlayIp a) = a"

text \<open>The derived \<open>Ord\<close> of the newtypes that are map keys: the order of the inner string.\<close>

instantiation machine_id :: linorder
begin

definition less_eq_machine_id :: "machine_id \<Rightarrow> machine_id \<Rightarrow> bool" where
  "less_eq_machine_id a b \<longleftrightarrow> machine_id_str a \<le> machine_id_str b"

definition less_machine_id :: "machine_id \<Rightarrow> machine_id \<Rightarrow> bool" where
  "less_machine_id a b \<longleftrightarrow> machine_id_str a < machine_id_str b"

instance
proof
  fix x y z :: machine_id
  show "x \<le> x" by (simp add: less_eq_machine_id_def)
  show "x < y \<longleftrightarrow> x \<le> y \<and> \<not> y \<le> x" by (auto simp: less_eq_machine_id_def less_machine_id_def)
  show "x \<le> y \<Longrightarrow> y \<le> z \<Longrightarrow> x \<le> z" by (simp add: less_eq_machine_id_def)
  show "x \<le> y \<Longrightarrow> y \<le> x \<Longrightarrow> x = y" by (cases x; cases y) (simp add: less_eq_machine_id_def)
  show "x \<le> y \<or> y \<le> x" by (auto simp: less_eq_machine_id_def)
qed

end

instantiation namespace :: linorder
begin

definition less_eq_namespace :: "namespace \<Rightarrow> namespace \<Rightarrow> bool" where
  "less_eq_namespace a b \<longleftrightarrow> namespace_str a \<le> namespace_str b"

definition less_namespace :: "namespace \<Rightarrow> namespace \<Rightarrow> bool" where
  "less_namespace a b \<longleftrightarrow> namespace_str a < namespace_str b"

instance
proof
  fix x y z :: namespace
  show "x \<le> x" by (simp add: less_eq_namespace_def)
  show "x < y \<longleftrightarrow> x \<le> y \<and> \<not> y \<le> x" by (auto simp: less_eq_namespace_def less_namespace_def)
  show "x \<le> y \<Longrightarrow> y \<le> z \<Longrightarrow> x \<le> z" by (simp add: less_eq_namespace_def)
  show "x \<le> y \<Longrightarrow> y \<le> x \<Longrightarrow> x = y" by (cases x; cases y) (simp add: less_eq_namespace_def)
  show "x \<le> y \<or> y \<le> x" by (auto simp: less_eq_namespace_def)
qed

end

definition ipv4_str :: "ipv4_addr \<Rightarrow> string" where
  "ipv4_str a = (let n = unat a in
    join_with ''.'' (map fmt_dec [n div 2 ^ 24, n div 2 ^ 16 mod 256, n div 2 ^ 8 mod 256, n mod 256]))"

section \<open>Machines\<close>

datatype machine_status = Status_Unknown | Status_Up | Status_Down

datatype participation = Participation_Disabled | Participation_Enabled | Participation_Draining

record machine_record =
  mr_id :: machine_id
  mr_public_key :: public_key
  mr_overlay_ip :: overlay_ip
  mr_subnet :: "ipv4_net option"
  mr_bridge_ip :: "overlay_ip option"
  mr_endpoints :: "string list"
  mr_status :: machine_status
  mr_participation :: participation
  mr_last_heartbeat :: timestamp
  mr_created_at :: timestamp
  mr_updated_at :: timestamp
  mr_labels :: "(string, string) btree_map"

fun machine_status_display :: "machine_status \<Rightarrow> string" where
  "machine_status_display Status_Unknown = ''unknown''"
| "machine_status_display Status_Up = ''up''"
| "machine_status_display Status_Down = ''down''"

definition machine_status_from_str :: "string \<Rightarrow> machine_status option" where
  "machine_status_from_str s =
    (if s = ''unknown'' \<or> s = '''' then Some Status_Unknown
     else if s = ''up'' then Some Status_Up
     else if s = ''down'' then Some Status_Down
     else None)"

fun participation_display :: "participation \<Rightarrow> string" where
  "participation_display Participation_Disabled = ''disabled''"
| "participation_display Participation_Enabled = ''enabled''"
| "participation_display Participation_Draining = ''draining''"

definition participation_from_str :: "string \<Rightarrow> participation option" where
  "participation_from_str s =
    (if s = ''disabled'' then Some Participation_Disabled
     else if s = ''enabled'' then Some Participation_Enabled
     else if s = ''draining'' then Some Participation_Draining
     else None)"

definition machine_record_seed ::
    "machine_id \<Rightarrow> public_key \<Rightarrow> overlay_ip \<Rightarrow> ipv4_net option \<Rightarrow> string list \<Rightarrow> machine_record" where
  "machine_record_seed i key ip subnet endpoints =
    \<lparr> mr_id = i, mr_public_key = key, mr_overlay_ip = ip, mr_subnet = subnet, mr_bridge_ip = None,
      mr_endpoints = endpoints, mr_status = Status_Unknown,
      mr_participation = Participation_Disabled, mr_last_heartbeat = 0, mr_created_at = 0,
      mr_updated_at = 0, mr_labels = [] \<rparr>"

text \<open>\<open>ip6_str\<close> is the \<open>Display\<close> of \<open>Ipv6Addr\<close>, \<open>net_str\<close> that of \<open>Ipv4Net\<close>.\<close>

definition allowed_cidrs ::
    "(ipv6_addr \<Rightarrow> string) \<Rightarrow> (ipv4_net \<Rightarrow> string) \<Rightarrow> machine_record \<Rightarrow> string list" where
  "allowed_cidrs ip6_str net_str m =
    [ip6_str (overlay_ip_octets (mr_overlay_ip m)) @ ''/128'']
    @ (case mr_subnet m of Some subnet \<Rightarrow> [net_str subnet] | None \<Rightarrow> [])
    @ (case mr_bridge_ip m of Some b \<Rightarrow> [ip6_str (overlay_ip_octets b) @ ''/128''] | None \<Rightarrow> [])"

record invite_record =
  ir_id :: string
  ir_expires_at :: timestamp

datatype machine_event = Machine_Added machine_record | Machine_Updated machine_record
  | Machine_Removed machine_record

definition management_ip_from_key :: "public_key \<Rightarrow> overlay_ip" where
  "management_ip_from_key key = (case key of PublicKey bytes \<Rightarrow> OverlayIp (0xfd # take 15 bytes))"

section \<open>Revisions, releases and instances\<close>

record service_revision_record =
  rv_namespace :: namespace
  rv_service :: string
  rv_revision_hash :: string
  rv_spec_json :: string
  rv_created_by :: machine_id
  rv_created_at :: timestamp

record service_traffic_allocation =
  ta_revision_hash :: string
  ta_percent :: "8 word"
  ta_label :: "string option"

datatype service_routing_policy = Routing_Direct string
  | Routing_Split "service_traffic_allocation list"

record service_release_slot =
  rs_slot_id :: slot_id
  rs_machine_id :: machine_id
  rs_active_instance_id :: instance_id
  rs_revision_hash :: string

record service_release =
  rl_primary_revision_hash :: string
  rl_referenced_revision_hashes :: "string list"
  rl_routing :: service_routing_policy
  rl_slots :: "service_release_slot list"
  rl_updated_by_deploy_id :: deploy_id
  rl_updated_at :: timestamp

record service_release_record =
  rr_namespace :: namespace
  rr_service :: string
  rr_release :: service_release

datatype instance_phase = Instance_Pending | Instance_Starting | Instance_Ready | Instance_Failed
  | Instance_Draining | Instance_Removed

datatype drain_state = Drain_None | Drain_Requested | Drain_Complete

record instance_status_record =
  is_instance_id :: instance_id
  is_namespace :: namespace
  is_service :: string
  is_slot_id :: slot_id
  is_machine_id :: machine_id
  is_revision_hash :: string
  is_deploy_id :: deploy_id
  is_docker_container_id :: string
  is_overlay_ip :: "ipv4_addr option"
  is_backend_ports :: "(string, u16) btree_map"
  is_phase :: instance_phase
  is_ready :: bool
  is_drain_state :: drain_state
  is_error :: "string option"
  is_started_at :: timestamp
  is_updated_at :: timestamp

record routing_state =
  rt_revisions :: "service_revision_record list"
  rt_releases :: "service_release_record list"
  rt_instances :: "instance_status_record list"

fun instance_phase_display :: "instance_phase \<Rightarrow> string" where
  "instance_phase_display Instance_Pending = ''pending''"
| "instance_phase_display Instance_Starting = ''starting''"
| "instance_phase_display Instance_Ready = ''ready''"
| "instance_phase_display Instance_Failed = ''failed''"
| "instance_phase_display Instance_Draining = ''draining''"
| "instance_phase_display Instance_Removed = ''removed''"

definition instance_phase_from_str :: "string \<Rightarrow> instance_phase option" where
  "instance_phase_from_str s =
    (if s = ''pending'' then Some Instance_Pending
     else if s = ''starting'' then Some Instance_Starting
     else if s = ''ready'' then Some Instance_Ready
     else if s = ''failed'' then Some Instance_Failed
     else if s = ''draining'' then Some Instance_Draining
     else if s = ''removed'' then Some Instance_Removed
     else None)"

fun drain_state_display :: "drain_state \<Rightarrow> string" where
  "drain_state_display Drain_None = ''none''"
| "drain_state_display Drain_Requested = ''requested''"
| "drain_state_display Drain_Complete = ''complete''"

definition drain_state_from_str :: "string \<Rightarrow> drain_state option" where
  "drain_state_from_str s =
    (if s = ''none'' then Some Drain_None
     else if s = ''requested'' then Some Drain_Requested
     else if s = ''complete'' then Some Drain_Complete
     else None)"

section \<open>Deploys\<close>

datatype deploy_state = Deploy_Planning | Deploy_Applying | Deploy_Committed
  | Deploy_CleanupPending | Deploy_Failed

record deploy_record =
  dr_deploy_id :: deploy_id
  dr_namespace :: namespace
  dr_coordinator_machine_id :: machine_id
  dr_manifest_hash :: string
  dr_state :: deploy_state
  dr_started_at :: timestamp
  dr_committed_at :: "timestamp option"
  dr_finished_at :: "timestamp option"
  dr_summary_json :: string

fun deploy_state_display :: "deploy_state \<Rightarrow> string" where
  "deploy_state_display Deploy_Planning = ''planning''"
| "deploy_state_display Deploy_Applying = ''applying''"
| "deploy_state_display Deploy_Committed = ''committed''"
| "deploy_state_display Deploy_CleanupPending = ''cleanup_pending''"
| "deploy_state_display Deploy_Failed = ''failed''"

definition deploy_state_from_str :: "string \<Rightarrow> deploy_state option" where
  "deploy_state_from_str s =
    (if s = ''planning'' then Some Deploy_Planning
     else if s = ''applying'' then Some Deploy_Applying
     else if s = ''committed'' then Some Deploy_Committed
     else if s = ''cleanup_pending'' then Some Deploy_CleanupPending
     else if s = ''failed'' then Some Deploy_Failed
     else None)"

datatype deploy_change_kind = Change_Create | Change_Replace | Change_Remove | Change_Unchanged

record slot_plan =
  sp_slot_id :: slot_id
  sp_machine_id :: machine_id
  sp_current_instance_id :: "instance_id option"
  sp_next_instance_id :: "instance_id option"
  sp_current_revision_hash :: "string option"
  sp_next_revision_hash :: "string option"
  sp_action :: deploy_change_kind

record service_plan =
  pl_service :: string
  pl_current_revision_hash :: "string option"
  pl_next_revision_hash :: "string option"
  pl_slots :: "slot_plan list"
  pl_action :: deploy_change_kind

record deploy_preview =
  dp_namespace :: namespace
  dp_manifest_hash :: string
  dp_participants :: "machine_id list"
  dp_services :: "service_plan list"
  dp_warnings :: "string list"

record deploy_event =
  de_step :: string
  de_message :: string

record deploy_apply_result =
  ar_deploy_id :: deploy_id
  ar_preview :: deploy_preview
  ar_state :: deploy_state
  ar_events :: "deploy_event list"

section \<open>The join response\<close>

record join_response =
  jr_machine_id :: machine_id
  jr_public_key :: public_key
  jr_overlay_ip :: overlay_ip
  jr_subnet :: "ipv4_net option"
  jr_endpoints :: "string list"

definition join_response_prefix :: string where
  "join_response_prefix = ''PLOYZ_JOIN_RESPONSE:''"

datatype join_error = Join_Serialize string | Join_Missing_Prefix | Join_Base64 string | Join_Json string

text \<open>
  \<open>to_json\<close> and \<open>from_json\<close> are \<open>serde_json::to_string\<close> and \<open>from_slice\<close>, \<open>b64_encode\<close> and
  \<open>b64_decode\<close> the engine \<open>URL_SAFE_NO_PAD\<close>.
\<close>

definition join_response_encode ::
    "(join_response \<Rightarrow> (string, string) result) \<Rightarrow> (string \<Rightarrow> string) \<Rightarrow>
     join_response \<Rightarrow> (join_error, string) result" where
  "join_response_encode to_json b64_encode r =
    bind_res (map_err Join_Serialize (to_json r))
      (\<lambda>json. Inr (join_response_prefix @ b64_encode json))"

definition join_response_decode ::
    "(string \<Rightarrow> (string, join_response) result) \<Rightarrow> (string \<Rightarrow> (string, string) result) \<Rightarrow>
     string \<Rightarrow> (join_error, join_response) result" where
  "join_response_decode from_json b64_decode s =
    bind_res (ok_or (strip_prefix join_response_prefix s) Join_Missing_Prefix)
      (\<lambda>payload. bind_res (map_err Join_Base64 (b64_decode payload))
        (\<lambda>bytes. map_err Join_Json (from_json bytes)))"

definition into_seed_machine_record :: "join_response \<Rightarrow> machine_record" where
  "into_seed_machine_record r =
    \<lparr> mr_id = jr_machine_id r, mr_public_key = jr_public_key r, mr_overlay_ip = jr_overlay_ip r,
      mr_subnet = jr_subnet r, mr_bridge_ip = None, mr_endpoints = jr_endpoints r,
      mr_status = Status_Unknown, mr_participation = Participation_Disabled,
      mr_last_heartbeat = 0, mr_created_at = 0, mr_updated_at = 0, mr_labels = [] \<rparr>"

section \<open>Facts\<close>

lemma newtype_str_inject [simp]:
  "machine_id_str a = machine_id_str b \<longleftrightarrow> a = b"
  "namespace_str n = namespace_str n' \<longleftrightarrow> n = n'"
  "instance_id_str i = instance_id_str i' \<longleftrightarrow> i = i'"
  "slot_id_str s = slot_id_str s' \<longleftrightarrow> s = s'"
  "deploy_id_str d = deploy_id_str d' \<longleftrightarrow> d = d'"
  by (cases a; cases b; cases n; cases n'; cases i; cases i'; cases s; cases s'; cases d; cases d'; simp)+

lemma into_seed_is_seed:
  "into_seed_machine_record r =
    machine_record_seed (jr_machine_id r) (jr_public_key r) (jr_overlay_ip r) (jr_subnet r) (jr_endpoints r)"
  by (simp add: into_seed_machine_record_def machine_record_seed_def)

end
