(* ===== verification/Ipam.thy ===== *)
theory Ipam
  imports Types_Model
begin

text \<open>
  Address management, \<open>crates/ployz-orchestrator/src/ipam.rs\<close>: subnets of the cluster network for
  machines (\<open>Ipam\<close>), the fixed addresses of a machine's subnet (\<open>machine_ip\<close>, \<open>container_ip\<close>)
  and container addresses inside it (\<open>SubnetIpam\<close>).

  Addresses are \<open>32 word\<close>, prefix lengths \<open>8 word\<close>: \<open>+\<close> wraps and a shift count is taken modulo
  the width, as the code does when it is built without overflow checks. The crate \<open>ipnet\<close> is the
  record \<open>ipnet_ops\<close>; what its documentation says of the four operations the code calls is the
  locale \<open>ipnet_spec\<close>. The search loop is a \<open>partial_function\<close>: that it returns is a theorem.
\<close>

section \<open>The operations of the crate ipnet\<close>

record ipnet_ops =
  net_new :: "ipv4_addr \<Rightarrow> nat \<Rightarrow> ipv4_net option"
  net_network :: "ipv4_net \<Rightarrow> ipv4_addr"
  net_broadcast :: "ipv4_net \<Rightarrow> ipv4_addr"

definition block_size :: "nat \<Rightarrow> nat" where
  "block_size p = 2 ^ (32 - p)"

locale ipnet_spec =
  fixes ops :: ipnet_ops
  assumes new_ok: "p \<le> 32 \<Longrightarrow> net_new ops a p = Some (Ipv4Net a p)"
    and new_err: "32 < p \<Longrightarrow> net_new ops a p = None"
    and network: "p \<le> 32 \<Longrightarrow>
      unat (net_network ops (Ipv4Net a p)) = unat a div block_size p * block_size p"
    and broadcast: "p \<le> 32 \<Longrightarrow>
      unat (net_broadcast ops (Ipv4Net a p)) = unat a div block_size p * block_size p + (block_size p - 1)"

definition ipnet_std :: ipnet_ops where
  "ipnet_std =
    \<lparr> net_new = (\<lambda>a p. if p \<le> 32 then Some (Ipv4Net a p) else None),
      net_network = (\<lambda>n. case n of Ipv4Net a p \<Rightarrow>
        word_of_nat (unat a div block_size p * block_size p)),
      net_broadcast = (\<lambda>n. case n of Ipv4Net a p \<Rightarrow>
        word_of_nat (unat a div block_size p * block_size p + (block_size p - 1))) \<rparr>"

section \<open>Subnets of the cluster\<close>

record ipam =
  ip_cluster :: ipv4_net
  ip_prefix_len :: "8 word"
  ip_allocated :: "ipv4_net set"

definition ipam_new :: "ipv4_net \<Rightarrow> 8 word \<Rightarrow> ipam" where
  "ipam_new cluster prefix_len =
    \<lparr> ip_cluster = cluster, ip_prefix_len = prefix_len, ip_allocated = {} \<rparr>"

definition ipam_with_allocated :: "ipv4_net \<Rightarrow> 8 word \<Rightarrow> ipv4_net list \<Rightarrow> ipam" where
  "ipam_with_allocated cluster prefix_len allocated =
    \<lparr> ip_cluster = cluster, ip_prefix_len = prefix_len, ip_allocated = set allocated \<rparr>"

definition alloc_step :: "8 word \<Rightarrow> ipv4_addr" where
  "alloc_step prefix_len = push_bit (unat (32 - prefix_len) mod 32) 1"

partial_function (option) alloc_loop ::
    "ipnet_ops \<Rightarrow> 8 word \<Rightarrow> ipv4_net set \<Rightarrow> ipv4_addr \<Rightarrow> ipv4_addr \<Rightarrow> (ipv4_net option) option" where
  "alloc_loop ops prefix_len allocated cluster_end addr =
    (if addr < cluster_end then
       (case net_new ops addr (unat prefix_len) of
          Some subnet \<Rightarrow>
            if subnet \<notin> allocated then Some (Some subnet)
            else alloc_loop ops prefix_len allocated cluster_end (addr + alloc_step prefix_len)
        | None \<Rightarrow> alloc_loop ops prefix_len allocated cluster_end (addr + alloc_step prefix_len))
     else Some None)"

definition ipam_allocate :: "ipnet_ops \<Rightarrow> ipam \<Rightarrow> (ipv4_net option \<times> ipam) option" where
  "ipam_allocate ops s =
    (case alloc_loop ops (ip_prefix_len s) (ip_allocated s)
        (net_broadcast ops (ip_cluster s)) (net_network ops (ip_cluster s)) of
       None \<Rightarrow> None
     | Some None \<Rightarrow> Some (None, s)
     | Some (Some subnet) \<Rightarrow>
         Some (Some subnet, s\<lparr>ip_allocated := insert subnet (ip_allocated s)\<rparr>))"

section \<open>Addresses inside a subnet\<close>

definition machine_ip :: "ipnet_ops \<Rightarrow> ipv4_net \<Rightarrow> ipv4_addr" where
  "machine_ip ops subnet = net_network ops subnet + 1"

definition container_ip :: "ipnet_ops \<Rightarrow> ipv4_net \<Rightarrow> ipv4_addr" where
  "container_ip ops subnet = net_network ops subnet + 2"

record subnet_ipam =
  si_subnet :: ipv4_net
  si_allocated :: "ipv4_addr set"

definition subnet_ipam_new :: "ipv4_net \<Rightarrow> subnet_ipam" where
  "subnet_ipam_new subnet = \<lparr> si_subnet = subnet, si_allocated = {} \<rparr>"

definition subnet_ipam_with_allocated :: "ipv4_net \<Rightarrow> ipv4_addr list \<Rightarrow> subnet_ipam" where
  "subnet_ipam_with_allocated subnet existing =
    \<lparr> si_subnet = subnet, si_allocated = set existing \<rparr>"

definition subnet_allocate :: "ipnet_ops \<Rightarrow> subnet_ipam \<Rightarrow> ipv4_addr option \<times> subnet_ipam" where
  "subnet_allocate ops s =
    (let base = net_network ops (si_subnet s) in
     case find (\<lambda>offset. base + word_of_nat offset \<notin> si_allocated s) [3..<255] of
       Some offset \<Rightarrow>
         (Some (base + word_of_nat offset),
          s\<lparr>si_allocated := insert (base + word_of_nat offset) (si_allocated s)\<rparr>)
     | None \<Rightarrow> (None, s))"

definition subnet_release :: "ipv4_addr \<Rightarrow> subnet_ipam \<Rightarrow> subnet_ipam" where
  "subnet_release ip s = s\<lparr>si_allocated := si_allocated s - {ip}\<rparr>"

section \<open>The reference allocation\<close>

text \<open>
  The subnets the loop visits, in its order: the blocks of the cluster from its first address. With
  prefix length 32 the block of the last address is not visited, since the loop condition is strict.
\<close>

definition candidate_count :: "nat \<Rightarrow> nat \<Rightarrow> nat" where
  "candidate_count c p = (if p = 32 then 2 ^ (p - c) - 1 else 2 ^ (p - c))"

definition candidates :: "ipv4_addr \<Rightarrow> nat \<Rightarrow> nat \<Rightarrow> ipv4_net list" where
  "candidates start c p =
    map (\<lambda>k. Ipv4Net (word_of_nat (unat start + k * block_size p)) p) [0..<candidate_count c p]"

definition net_addresses :: "ipnet_ops \<Rightarrow> ipv4_net \<Rightarrow> ipv4_addr set" where
  "net_addresses ops n = {a. net_network ops n \<le> a \<and> a \<le> net_broadcast ops n}"

definition aligned_net :: "nat \<Rightarrow> ipv4_net \<Rightarrow> bool" where
  "aligned_net p n = (case n of Ipv4Net a q \<Rightarrow> q = p \<and> block_size p dvd unat a)"

section \<open>Facts about the interface\<close>

lemma block_size_pos [simp]: "0 < block_size p"
  by (simp add: block_size_def)

lemma block_size_le: "block_size p \<le> 2 ^ 32"
  unfolding block_size_def by (rule power_increasing) auto

lemma block_fits: "unat (a :: ipv4_addr) div block_size p * block_size p + (block_size p - 1) < 2 ^ 32"
proof -
  have dvd: "block_size p dvd 2 ^ 32" unfolding block_size_def by (rule le_imp_power_dvd) simp
  then obtain m where m: "(2::nat) ^ 32 = block_size p * m" by (rule dvdE)
  have "unat a < block_size p * m" using unsigned_less[of a] m by simp
  then have "unat a div block_size p < m" by (simp add: div_less_iff_less_mult mult.commute)
  then have "(unat a div block_size p + 1) * block_size p \<le> m * block_size p" by (intro mult_le_mono) auto
  then have "unat a div block_size p * block_size p + block_size p \<le> 2 ^ 32" using m by (simp add: algebra_simps)
  then show ?thesis using block_size_pos[of p] by linarith
qed

lemma unat_of_nat_32: "n < 2 ^ 32 \<Longrightarrow> unat (word_of_nat n :: ipv4_addr) = n"
  by (simp add: unat_of_nat take_bit_nat_eq_self)

interpretation ipnet: ipnet_spec ipnet_std
proof
  fix p a
  show "unat (net_network ipnet_std (Ipv4Net a p)) = unat a div block_size p * block_size p"
    unfolding ipnet_std_def ipnet_ops.simps ipv4_net.case
    by (rule unat_of_nat_32) (use block_fits[of a p] in linarith)
  show "unat (net_broadcast ipnet_std (Ipv4Net a p)) =
      unat a div block_size p * block_size p + (block_size p - 1)"
    unfolding ipnet_std_def ipnet_ops.simps ipv4_net.case
    by (rule unat_of_nat_32) (rule block_fits)
qed (simp_all add: ipnet_std_def)

context ipnet_spec
begin

lemma network_le_broadcast: "p \<le> 32 \<Longrightarrow> net_network ops (Ipv4Net a p) \<le> net_broadcast ops (Ipv4Net a p)"
  by (simp add: word_le_nat_alt network broadcast)

lemma aligned_range:
  assumes "p \<le> 32" and "aligned_net p n"
  obtains b where "n = Ipv4Net b p" "block_size p dvd unat b"
    "unat (net_network ops n) = unat b" "unat (net_broadcast ops n) = unat b + (block_size p - 1)"
proof -
  obtain b where b: "n = Ipv4Net b p" "block_size p dvd unat b"
    using assms(2) by (auto simp: aligned_net_def split: ipv4_net.splits)
  then have "unat b div block_size p * block_size p = unat b" by simp
  then show ?thesis using that b assms(1) network[of p b] broadcast[of p b] by simp
qed

lemma aligned_disjoint:
  assumes p: "p \<le> 32" and n: "aligned_net p n" and m: "aligned_net p m" and ne: "n \<noteq> m"
  shows "net_addresses ops n \<inter> net_addresses ops m = {}"
proof (rule ccontr)
  obtain b where b: "n = Ipv4Net b p" "block_size p dvd unat b"
    "unat (net_network ops n) = unat b" "unat (net_broadcast ops n) = unat b + (block_size p - 1)"
    using aligned_range[OF p n] .
  obtain d where d: "m = Ipv4Net d p" "block_size p dvd unat d"
    "unat (net_network ops m) = unat d" "unat (net_broadcast ops m) = unat d + (block_size p - 1)"
    using aligned_range[OF p m] .
  assume "\<not> ?thesis"
  then obtain a where "a \<in> net_addresses ops n" "a \<in> net_addresses ops m" by blast
  then have "unat b \<le> unat a" "unat a \<le> unat b + (block_size p - 1)"
      "unat d \<le> unat a" "unat a \<le> unat d + (block_size p - 1)"
    using b d unfolding net_addresses_def word_le_nat_alt by auto
  then have "unat b \<le> unat a" "unat a < unat b + block_size p"
      "unat d \<le> unat a" "unat a < unat d + block_size p"
    using block_size_pos[of p] by linarith+
  moreover obtain k l where "unat b = block_size p * k" "unat d = block_size p * l"
    using b(2) d(2) by (auto elim!: dvdE)
  ultimately have "unat a div block_size p = k" "unat a div block_size p = l"
    by (auto intro!: div_nat_eqI simp: algebra_simps)
  then have "unat b = unat d" using \<open>unat b = _\<close> \<open>unat d = _\<close> by simp
  then show False using ne b(1) d(1) by (simp add: word_unat_eq_iff)
qed

end

section \<open>The loop computes the reference allocation\<close>

lemma unat_8_32_minus: "unat (p :: 8 word) \<le> 32 \<Longrightarrow> unat (32 - p) = 32 - unat p"
  by (subst unat_sub) (auto simp: word_le_nat_alt)

lemma unat_alloc_step:
  assumes "0 < unat p" "unat p \<le> 32"
  shows "unat (alloc_step p) = block_size (unat p)"
proof -
  have "unat (push_bit n 1 :: ipv4_addr) = 2 ^ n" if "n < 32" for n
  proof -
    have "(2::nat) ^ n < 2 ^ 32" using that by (intro power_strict_increasing) auto
    from unat_of_nat_32[OF this] show ?thesis by (simp add: push_bit_eq_mult)
  qed
  then show ?thesis using assms by (simp add: alloc_step_def unat_8_32_minus block_size_def)
qed

lemma block_count:
  assumes "c \<le> p" "p \<le> 32"
  shows "2 ^ (p - c) * block_size p = block_size c"
  using assms by (simp add: block_size_def flip: power_add)

lemma loop_guard:
  assumes "c \<le> p" "p \<le> 32"
  shows "k * block_size p < block_size c - 1 \<longleftrightarrow> k < candidate_count c p"
proof (cases "p = 32")
  case True
  then show ?thesis using block_count[OF assms] by (simp add: candidate_count_def block_size_def)
next
  case False
  then have two: "2 \<le> block_size p" using assms(2)
    by (simp add: block_size_def self_le_power)
  have "k * block_size p < 2 ^ (p - c) * block_size p - 1 \<longleftrightarrow> k < 2 ^ (p - c)"
  proof
    assume "k * block_size p < 2 ^ (p - c) * block_size p - 1"
    then have "k * block_size p < 2 ^ (p - c) * block_size p" by linarith
    then show "k < 2 ^ (p - c)" by simp
  next
    assume "k < 2 ^ (p - c)"
    then have "(k + 1) * block_size p \<le> 2 ^ (p - c) * block_size p" by (intro mult_le_mono1) simp
    then show "k * block_size p < 2 ^ (p - c) * block_size p - 1" using two by (simp add: algebra_simps)
  qed
  then show ?thesis using False block_count[OF assms] by (simp add: candidate_count_def)
qed


lemma candidate_count_block:
  assumes "c \<le> p" "p \<le> 32" "k \<le> candidate_count c p"
  shows "k * block_size p \<le> block_size c"
proof -
  have "k \<le> 2 ^ (p - c)" using assms(3) by (auto simp: candidate_count_def split: if_splits)
  then have "k * block_size p \<le> 2 ^ (p - c) * block_size p" by (rule mult_le_mono1)
  then show ?thesis using block_count[OF assms(1,2)] by simp
qed

context ipnet_spec
begin

lemma alloc_loop_find:
  assumes p: "c \<le> unat p" "0 < unat p" "unat p \<le> 32"
    and fits: "S + block_size c < 2 ^ 32" and last: "unat cluster_end = S + (block_size c - 1)"
    and k: "k \<le> candidate_count c (unat p)"
  shows "alloc_loop ops p A cluster_end (word_of_nat (S + k * block_size (unat p))) =
    Some (find (\<lambda>n. n \<notin> A)
      (map (\<lambda>j. Ipv4Net (word_of_nat (S + j * block_size (unat p))) (unat p)) [k..<candidate_count c (unat p)]))"
  using k
proof (induction "candidate_count c (unat p) - k" arbitrary: k)
  case 0
  then have "\<not> k * block_size (unat p) < block_size c - 1" using loop_guard[OF p(1,3)] by auto
  moreover have "unat (word_of_nat (S + k * block_size (unat p)) :: ipv4_addr) = S + k * block_size (unat p)"
    using fits candidate_count_block[OF p(1,3) 0(2)] by (intro unat_of_nat_32) linarith
  ultimately have "\<not> (word_of_nat (S + k * block_size (unat p)) :: ipv4_addr) < cluster_end"
    using last by (simp add: word_less_nat_alt)
  then show ?case using 0 by (simp add: alloc_loop.simps)
next
  case (Suc d)
  let ?addr = "word_of_nat (S + k * block_size (unat p)) :: ipv4_addr"
  have lt: "k < candidate_count c (unat p)" using Suc(2) by simp
  then have "k * block_size (unat p) < block_size c - 1" using loop_guard[OF p(1,3)] by blast
  moreover have "unat ?addr = S + k * block_size (unat p)"
    using fits candidate_count_block[OF p(1,3) Suc(3)] by (intro unat_of_nat_32) linarith
  ultimately have guard: "?addr < cluster_end" using last by (simp add: word_less_nat_alt)
  have "alloc_step p = word_of_nat (block_size (unat p))"
    by (simp flip: unat_alloc_step[OF p(2,3)])
  then have step: "?addr + alloc_step p = word_of_nat (S + Suc k * block_size (unat p))"
    by (simp add: algebra_simps)
  have "alloc_loop ops p A cluster_end (?addr + alloc_step p) = Some (find (\<lambda>n. n \<notin> A)
      (map (\<lambda>j. Ipv4Net (word_of_nat (S + j * block_size (unat p))) (unat p)) [Suc k..<candidate_count c (unat p)]))"
    unfolding step by (rule Suc(1)) (use Suc(2) lt in auto)
  moreover have "[k..<candidate_count c (unat p)] = k # [Suc k..<candidate_count c (unat p)]"
    using lt by (rule upt_conv_Cons)
  ultimately show ?case
    using guard new_ok[OF p(3)] by (subst alloc_loop.simps) simp
qed

lemma ipam_allocate_find:
  assumes cl: "ip_cluster s = Ipv4Net a c" and p: "c \<le> unat (ip_prefix_len s)" "unat (ip_prefix_len s) \<le> 32"
    and nowrap: "unat (net_broadcast ops (ip_cluster s)) < 2 ^ 32 - 1"
  shows "ipam_allocate ops s =
    Some (case find (\<lambda>n. n \<notin> ip_allocated s)
        (candidates (net_network ops (ip_cluster s)) c (unat (ip_prefix_len s))) of
      None \<Rightarrow> (None, s)
    | Some n \<Rightarrow> (Some n, s\<lparr>ip_allocated := insert n (ip_allocated s)\<rparr>))"
proof -
  let ?p = "ip_prefix_len s" and ?S = "unat (net_network ops (ip_cluster s))"
  have c32: "c \<le> 32" using p by simp
  have last: "unat (net_broadcast ops (ip_cluster s)) = ?S + (block_size c - 1)"
    using cl network[OF c32] broadcast[OF c32] by simp
  have fits: "?S + block_size c < 2 ^ 32" using nowrap last block_size_pos[of c] by linarith
  have "0 < c" using fits by (cases "c = 0") (auto simp: block_size_def)
  then have p0: "0 < unat ?p" using p by simp
  have "alloc_loop ops ?p (ip_allocated s) (net_broadcast ops (ip_cluster s)) (word_of_nat (?S + 0 * block_size (unat ?p)))
    = Some (find (\<lambda>n. n \<notin> ip_allocated s) (candidates (net_network ops (ip_cluster s)) c (unat ?p)))"
    unfolding candidates_def by (rule alloc_loop_find[OF p(1) p0 p(2) fits last]) simp
  then show ?thesis by (simp add: ipam_allocate_def split: option.split)
qed

end


lemma find_mem: "find P xs = Some x \<Longrightarrow> x \<in> set xs \<and> P x"
  by (auto simp: find_Some_iff)

lemma find_none: "find P xs = None \<Longrightarrow> x \<in> set xs \<Longrightarrow> \<not> P x"
  by (auto simp: find_None_iff)

context ipnet_spec
begin

lemma candidate_props:
  assumes cp: "c \<le> p" "p \<le> 32" and fits: "unat (net_broadcast ops (Ipv4Net a c)) < 2 ^ 32 - 1"
    and mem: "n \<in> set (candidates (net_network ops (Ipv4Net a c)) c p)"
  shows "aligned_net p n \<and> net_addresses ops n \<subseteq> net_addresses ops (Ipv4Net a c)"
proof -
  let ?S = "unat (net_network ops (Ipv4Net a c))"
  obtain k where k: "k < candidate_count c p" "n = Ipv4Net (word_of_nat (?S + k * block_size p)) p"
    using mem by (auto simp: candidates_def)
  have c32: "c \<le> 32" using cp by simp
  have last: "unat (net_broadcast ops (Ipv4Net a c)) = ?S + (block_size c - 1)"
    using network[OF c32] broadcast[OF c32] by simp
  have "Suc k * block_size p \<le> block_size c" using candidate_count_block[OF cp, of "Suc k"] k(1) by simp
  then have top: "?S + k * block_size p + (block_size p - 1) \<le> ?S + (block_size c - 1)"
    using block_size_pos[of p] unfolding mult_Suc by linarith
  have addr: "unat (word_of_nat (?S + k * block_size p) :: ipv4_addr) = ?S + k * block_size p"
    by (rule unat_of_nat_32) (use top last fits in linarith)
  have "block_size p dvd block_size c" using block_count[OF cp] by (metis dvd_triv_right)
  moreover have "block_size c dvd ?S" using network[OF c32] by simp
  ultimately have "block_size p dvd ?S" using dvd_trans by blast
  then have al: "aligned_net p n" using addr k(2) by (simp add: aligned_net_def)
  obtain b where b: "n = Ipv4Net b p" "unat (net_network ops n) = unat b"
      "unat (net_broadcast ops n) = unat b + (block_size p - 1)"
    using aligned_range[OF cp(2) al] by blast
  have "unat b = ?S + k * block_size p" using b(1) k(2) addr by simp
  then show ?thesis
    using al b(2,3) last top unfolding net_addresses_def word_le_nat_alt by auto
qed

lemma candidates_complete:
  assumes cp: "c \<le> p" "p < 32" and al: "aligned_net p n"
    and sub: "net_addresses ops n \<subseteq> net_addresses ops (Ipv4Net a c)"
  shows "n \<in> set (candidates (net_network ops (Ipv4Net a c)) c p)"
proof -
  let ?S = "unat (net_network ops (Ipv4Net a c))"
  have c32: "c \<le> 32" and p32: "p \<le> 32" using cp by auto
  have last: "unat (net_broadcast ops (Ipv4Net a c)) = ?S + (block_size c - 1)"
    using network[OF c32] broadcast[OF c32] by simp
  obtain b where b: "n = Ipv4Net b p" "block_size p dvd unat b" "unat (net_network ops n) = unat b"
      "unat (net_broadcast ops n) = unat b + (block_size p - 1)"
    using aligned_range[OF p32 al] by blast
  have "net_network ops n \<in> net_addresses ops (Ipv4Net a c)"
    using sub b by (intro subsetD[OF sub]) (auto simp: net_addresses_def word_le_nat_alt)
  then have lo: "?S \<le> unat b" "unat b \<le> ?S + (block_size c - 1)"
    using b(3) last by (auto simp: net_addresses_def word_le_nat_alt)
  have "block_size p dvd block_size c" using block_count[OF cp(1) p32] by (metis dvd_triv_right)
  moreover have "block_size c dvd ?S" using network[OF c32] by simp
  ultimately have "block_size p dvd unat b - ?S" using b(2) dvd_trans dvd_diff_nat by blast
  then obtain k where k: "unat b - ?S = k * block_size p" by (metis dvdE mult.commute)
  have "k * block_size p < 2 ^ (p - c) * block_size p"
    using k lo block_size_pos[of c] block_count[OF cp(1) p32] by linarith
  then have "k < candidate_count c p" using cp by (simp add: candidate_count_def)
  moreover have "b = word_of_nat (?S + k * block_size p)"
  proof -
    have "?S + k * block_size p = unat b" using k lo by linarith
    then show ?thesis by simp
  qed
  ultimately show ?thesis using b(1) by (auto simp: candidates_def)
qed

end

section \<open>Allocation is correct\<close>

text \<open>
  C17. Allocation of a machine subnet always returns and is correct: for a cluster network that does
  not end at the last IPv4 address and a prefix length between the cluster's and 32, the loop
  terminates; a returned subnet was free, lies inside the cluster, overlaps no allocated subnet of
  that length, and is recorded as allocated; and if nothing is returned, the state is unchanged and
  every subnet of that length in the cluster was taken (for lengths below 32).
\<close>

theorem ipam_allocate_correct:
  assumes spec: "ipnet_spec ops"
    and cl: "ip_cluster s = Ipv4Net a c" and p: "c \<le> unat (ip_prefix_len s)" "unat (ip_prefix_len s) \<le> 32"
    and nowrap: "unat (net_broadcast ops (ip_cluster s)) < 2 ^ 32 - 1"
  shows "\<exists>r s'. ipam_allocate ops s = Some (r, s') \<and>
    (case r of
       Some n \<Rightarrow> n \<notin> ip_allocated s \<and> s' = s\<lparr>ip_allocated := insert n (ip_allocated s)\<rparr> \<and>
         net_addresses ops n \<subseteq> net_addresses ops (ip_cluster s) \<and>
         (\<forall>m\<in>ip_allocated s. aligned_net (unat (ip_prefix_len s)) m \<longrightarrow>
            net_addresses ops n \<inter> net_addresses ops m = {})
     | None \<Rightarrow> s' = s \<and>
         (unat (ip_prefix_len s) < 32 \<longrightarrow>
           (\<forall>n. aligned_net (unat (ip_prefix_len s)) n \<longrightarrow>
              net_addresses ops n \<subseteq> net_addresses ops (ip_cluster s) \<longrightarrow> n \<in> ip_allocated s)))"
proof -
  let ?cands = "candidates (net_network ops (ip_cluster s)) c (unat (ip_prefix_len s))"
  note eq = ipnet_spec.ipam_allocate_find[OF spec cl p nowrap]
  show ?thesis
  proof (cases "find (\<lambda>n. n \<notin> ip_allocated s) ?cands")
    case None
    have "n \<in> ip_allocated s"
      if "unat (ip_prefix_len s) < 32" "aligned_net (unat (ip_prefix_len s)) n"
        "net_addresses ops n \<subseteq> net_addresses ops (ip_cluster s)" for n
      using find_none[OF None, of n] ipnet_spec.candidates_complete[OF spec p(1) that(1,2), of a] that(3) cl
      by auto
    then show ?thesis using eq None by auto
  next
    case (Some n)
    then have mem: "n \<in> set ?cands" "n \<notin> ip_allocated s" using find_mem[OF Some] by auto
    have n: "aligned_net (unat (ip_prefix_len s)) n"
        "net_addresses ops n \<subseteq> net_addresses ops (ip_cluster s)"
      using ipnet_spec.candidate_props[OF spec p, of a n] mem(1) nowrap cl by auto
    have "net_addresses ops n \<inter> net_addresses ops m = {}"
      if "m \<in> ip_allocated s" "aligned_net (unat (ip_prefix_len s)) m" for m
      by (rule ipnet_spec.aligned_disjoint[OF spec p(2) n(1) that(2)]) (use that mem in auto)
    then show ?thesis using eq Some mem n by auto
  qed
qed

theorem ipam_allocate_correct_witness:
  "\<exists>r s'. ipam_allocate ipnet_std (ipam_new (Ipv4Net 0x0AD20000 16) 24) = Some (r, s')"
  using ipam_allocate_correct[of ipnet_std "ipam_new (Ipv4Net 0x0AD20000 16) 24" "0x0AD20000" 16,
      OF ipnet.ipnet_spec_axioms]
  by (auto simp: ipam_new_def ipnet.broadcast block_size_def)


section \<open>Container addresses\<close>

lemma word_offset_inject:
  "i < 2 ^ 32 \<Longrightarrow> j < 2 ^ 32 \<Longrightarrow> (base :: ipv4_addr) + word_of_nat i = base + word_of_nat j \<longleftrightarrow> i = j"
  by (metis add_left_cancel unat_of_nat_32)

text \<open>
  C39. A container address is fresh, recorded, and inside a machine subnet of length at most 24, where
  it is none of the network address, the machine's address, the overlay container's address and the
  broadcast address; allocation fails only when all 252 addresses are taken; and releasing the
  address makes the allocator return to the state before.
\<close>

theorem subnet_allocate_correct:
  assumes spec: "ipnet_spec ops" and sub: "si_subnet s = Ipv4Net a p" "p \<le> 24"
  shows "case subnet_allocate ops s of
      (Some ip, s') \<Rightarrow>
        ip \<notin> si_allocated s \<and> s' = s\<lparr>si_allocated := insert ip (si_allocated s)\<rparr> \<and>
        subnet_release ip s' = s \<and>
        ip \<in> net_addresses ops (si_subnet s) \<and>
        ip \<notin> {net_network ops (si_subnet s), machine_ip ops (si_subnet s), container_ip ops (si_subnet s),
              net_broadcast ops (si_subnet s)}
    | (None, s') \<Rightarrow> s' = s \<and>
        (\<forall>k\<in>{3..<255}. net_network ops (si_subnet s) + word_of_nat k \<in> si_allocated s)"
proof -
  let ?base = "net_network ops (si_subnet s)"
  let ?free = "\<lambda>offset. ?base + word_of_nat offset \<notin> si_allocated s"
  obtain offsets where offsets: "offsets = [3..<255::nat]" by simp
  have mem: "k \<in> set offsets \<longleftrightarrow> 3 \<le> k \<and> k < 255" for k unfolding offsets set_upt by simp
  have eq: "subnet_allocate ops s = (case find ?free offsets of
      Some k \<Rightarrow> (Some (?base + word_of_nat k),
        s\<lparr>si_allocated := insert (?base + word_of_nat k) (si_allocated s)\<rparr>)
    | None \<Rightarrow> (None, s))"
    by (simp only: subnet_allocate_def offsets Let_def)
  show ?thesis
  proof (cases "find ?free offsets")
    case None
    then show ?thesis using find_none[OF None] by (auto simp: eq mem)
  next
    case (Some k)
    from find_mem[OF Some] have k: "3 \<le> k" "k < 255" "?free k" by (auto simp: mem)
    have size: "256 \<le> block_size p"
      using sub(2) power_increasing[of 8 "32 - p" "2::nat"] by (simp add: block_size_def)
    obtain q where q: "unat ?base = q * block_size p" "unat (net_broadcast ops (si_subnet s)) = unat ?base + (block_size p - 1)"
      using sub ipnet_spec.network[OF spec, of p a] ipnet_spec.broadcast[OF spec, of p a] by auto
    have lim: "unat ?base + (block_size p - 1) < 2 ^ 32" 
      using q(2) unsigned_less[of "net_broadcast ops (si_subnet s)", where ?'a = nat] by simp
    have ip: "unat (?base + word_of_nat j) = unat ?base + j" if "j < 256" for j
      using that lim size unat_of_nat_32[of "unat ?base + j"] by (simp add: of_nat_add)
    show ?thesis
      using Some k sub ip[of k] ip[of 0] ip[of 1] ip[of 2] q size
      by (auto simp: eq subnet_release_def machine_ip_def container_ip_def
          net_addresses_def word_le_nat_alt Let_def)
  qed
qed

theorem subnet_allocate_correct_witness:
  "fst (subnet_allocate ipnet_std (subnet_ipam_with_allocated (Ipv4Net 0x0AD20100 24) [0x0AD20103])) = Some 0x0AD20104
   \<and> (0x0AD20104 :: ipv4_addr) \<in> net_addresses ipnet_std (Ipv4Net 0x0AD20100 24)"
proof -
  let ?s = "subnet_ipam_with_allocated (Ipv4Net 0x0AD20100 24) [0x0AD20103]"
  have run: "fst (subnet_allocate ipnet_std ?s) = Some 0x0AD20104"
    by (simp add: subnet_allocate_def subnet_ipam_with_allocated_def ipnet_std_def block_size_def)
  then obtain s' where "subnet_allocate ipnet_std ?s = (Some 0x0AD20104, s')"
    by (metis prod.collapse)
  then show ?thesis
    using run subnet_allocate_correct[OF ipnet.ipnet_spec_axioms, of ?s "0x0AD20100" 24]
    by (simp add: subnet_ipam_with_allocated_def)
qed

text \<open>
  The offsets of container addresses do not depend on the length of the subnet: in a subnet longer
  than 24, such as 10.210.1.0/28, addresses beyond the subnet's broadcast address are handed out
  once the first thirteen are taken.
\<close>

theorem subnet_allocate_leaves_small_subnet:
  "fst (subnet_allocate ipnet_std (subnet_ipam_with_allocated (Ipv4Net 0x0AD20100 28)
      (map (\<lambda>k. 0x0AD20100 + word_of_nat k) [3..<16]))) = Some 0x0AD20110 \<and>
   0x0AD20110 \<notin> net_addresses ipnet_std (Ipv4Net 0x0AD20100 28)"
  by (simp add: subnet_allocate_def subnet_ipam_with_allocated_def ipnet_std_def block_size_def
      net_addresses_def upt_rec)

end
