(* ===== verification/Peer.thy ===== *)
theory Peer
  imports Types_Model
begin

text \<open>
  One WireGuard peer, \<open>crates/ployz-orchestrator/src/mesh/peer.rs\<close>: its endpoint list with the active
  one, the classification of its health and the rotation through its endpoints.

  An \<open>Instant\<close> is the number of nanoseconds since the clock started, a \<open>Duration\<close> a number of
  nanoseconds; \<open>duration_since\<close> saturates at zero, which is subtraction on \<open>nat\<close>.
\<close>

type_synonym instant = nat
type_synonym duration = nat

definition from_secs :: "nat \<Rightarrow> duration" where
  "from_secs n = n * 1000000000"

definition endpoint_connection_timeout :: duration where
  "endpoint_connection_timeout = from_secs 15"

definition peer_down_interval :: duration where
  "peer_down_interval = from_secs 275"

datatype peer_status = Peer_Up | Peer_Down | Peer_Unknown

record wireguard_peer =
  wg_endpoints :: "string list"
  wg_active_endpoint :: nat
  wg_last_endpoint_change :: instant
  wg_last_handshake :: "instant option"
  wg_status :: peer_status

definition wireguard_peer_new :: "string list \<Rightarrow> instant \<Rightarrow> wireguard_peer" where
  "wireguard_peer_new endpoints now =
    \<lparr> wg_endpoints = endpoints, wg_active_endpoint = 0, wg_last_endpoint_change = now,
      wg_last_handshake = None, wg_status = Peer_Unknown \<rparr>"

definition active_endpoint :: "wireguard_peer \<Rightarrow> string option" where
  "active_endpoint p =
    (if wg_active_endpoint p < length (wg_endpoints p)
     then Some (wg_endpoints p ! wg_active_endpoint p) else None)"

definition classify_status :: "wireguard_peer \<Rightarrow> instant \<Rightarrow> peer_status" where
  "classify_status p now =
    (let since_change = now - wg_last_endpoint_change p in
     if since_change < endpoint_connection_timeout then
       (case wg_last_handshake p of
          Some hs \<Rightarrow> if hs \<ge> wg_last_endpoint_change p then Peer_Up else Peer_Unknown
        | None \<Rightarrow> Peer_Unknown)
     else if since_change < peer_down_interval then
       (case wg_last_handshake p of
          Some hs \<Rightarrow> if hs \<ge> wg_last_endpoint_change p then Peer_Up else Peer_Down
        | None \<Rightarrow> Peer_Down)
     else
       (case wg_last_handshake p of
          Some hs \<Rightarrow> if now - hs < peer_down_interval then Peer_Up else Peer_Down
        | None \<Rightarrow> Peer_Down))"

definition calculate_status :: "instant \<Rightarrow> wireguard_peer \<Rightarrow> wireguard_peer" where
  "calculate_status now p = p\<lparr>wg_status := classify_status p now\<rparr>"

definition should_change_endpoint :: "wireguard_peer \<Rightarrow> bool" where
  "should_change_endpoint p \<longleftrightarrow> wg_status p = Peer_Down \<and> length (wg_endpoints p) > 1"

definition rotate_endpoint :: "instant \<Rightarrow> wireguard_peer \<Rightarrow> wireguard_peer" where
  "rotate_endpoint now p =
    (if wg_endpoints p = [] then p
     else p\<lparr>wg_active_endpoint := (wg_active_endpoint p + 1) mod length (wg_endpoints p),
            wg_last_endpoint_change := now, wg_status := Peer_Unknown\<rparr>)"

definition update_endpoints :: "string list \<Rightarrow> wireguard_peer \<Rightarrow> wireguard_peer" where
  "update_endpoints new p =
    (if new = [] then p\<lparr>wg_endpoints := new, wg_active_endpoint := 0\<rparr>
     else
       (case active_endpoint p of
          Some current \<Rightarrow>
            (case position (\<lambda>e. e = current) new of
               Some pos \<Rightarrow> p\<lparr>wg_endpoints := new, wg_active_endpoint := pos\<rparr>
             | None \<Rightarrow> p\<lparr>wg_endpoints := new, wg_active_endpoint := 0\<rparr>)
        | None \<Rightarrow> p\<lparr>wg_endpoints := new, wg_active_endpoint := 0\<rparr>))"

definition wg_wf :: "wireguard_peer \<Rightarrow> bool" where
  "wg_wf p \<longleftrightarrow> wg_active_endpoint p = 0 \<or> wg_active_endpoint p < length (wg_endpoints p)"

named_theorems peer_simps \<open>projections of the peer operations\<close>

section \<open>The invariant\<close>

lemma wg_wf_new [simp]: "wg_wf (wireguard_peer_new es now)"
  by (simp add: wg_wf_def wireguard_peer_new_def)

lemma wg_wf_calculate_status [simp]: "wg_wf (calculate_status now p) \<longleftrightarrow> wg_wf p"
  by (simp add: wg_wf_def calculate_status_def)

lemma wg_wf_rotate [simp]: "wg_wf p \<Longrightarrow> wg_wf (rotate_endpoint now p)"
  by (auto simp: wg_wf_def rotate_endpoint_def)

lemma wg_wf_update_endpoints [simp]: "wg_wf (update_endpoints new p)"
  using position_Some
  by (auto simp: wg_wf_def update_endpoints_def split: option.split)

lemma wg_endpoints_ops [simp, peer_simps]:
  "wg_endpoints (wireguard_peer_new es now) = es"
  "wg_endpoints (calculate_status now p) = wg_endpoints p"
  "wg_endpoints (rotate_endpoint now p) = wg_endpoints p"
  "wg_endpoints (update_endpoints new p) = new"
  by (simp_all add: wireguard_peer_new_def calculate_status_def rotate_endpoint_def
      update_endpoints_def split: option.split)

lemma wf_active_endpoint:
  assumes "wg_wf p" "wg_endpoints p \<noteq> []"
  shows "active_endpoint p = Some (wg_endpoints p ! wg_active_endpoint p)"
    "wg_active_endpoint p < length (wg_endpoints p)"
  using assms by (auto simp: wg_wf_def active_endpoint_def)

section \<open>Properties\<close>

text \<open>
  The health of a peer is sound in both directions: a peer is only called up on the evidence of a
  handshake younger than 275 seconds; it is never called down within 15 seconds of an endpoint
  change; and after that it is called down whenever it has no handshake of the last 275 seconds.
\<close>

theorem classify_status_sound:
  "(classify_status p now = Peer_Up \<longrightarrow>
      (\<exists>hs. wg_last_handshake p = Some hs \<and> now < hs + from_secs 275)) \<and>
   (now < wg_last_endpoint_change p + from_secs 15 \<longrightarrow> classify_status p now \<noteq> Peer_Down) \<and>
   (wg_last_endpoint_change p + from_secs 15 \<le> now \<longrightarrow>
      (\<forall>hs. wg_last_handshake p = Some hs \<longrightarrow> hs + from_secs 275 \<le> now) \<longrightarrow>
      classify_status p now = Peer_Down)"
  by (cases "wg_last_handshake p")
     (auto simp: classify_status_def Let_def endpoint_connection_timeout_def peer_down_interval_def from_secs_def)

theorem classify_status_sound_witness:
  "classify_status \<lparr>wg_endpoints = [''a''], wg_active_endpoint = 0, wg_last_endpoint_change = 0,
     wg_last_handshake = None, wg_status = Peer_Unknown\<rparr> (from_secs 20) = Peer_Down"
  using classify_status_sound[of "\<lparr>wg_endpoints = [''a''], wg_active_endpoint = 0,
     wg_last_endpoint_change = 0, wg_last_handshake = None, wg_status = Peer_Unknown\<rparr>" "from_secs 20"]
  by (simp add: from_secs_def)

lemma rotate_funpow:
  assumes "wg_endpoints p \<noteq> []" "wg_wf p"
  shows "wg_endpoints ((rotate_endpoint now ^^ k) p) = wg_endpoints p \<and>
    wg_active_endpoint ((rotate_endpoint now ^^ k) p) = (wg_active_endpoint p + k) mod length (wg_endpoints p)"
proof (induction k)
  case 0
  then show ?case using wf_active_endpoint(2)[OF assms(2,1)] by simp
next
  case (Suc k)
  then show ?case using assms by (simp add: rotate_endpoint_def mod_Suc_eq)
qed

text \<open>
  C38. Rotation is fair: as many rotations as there are endpoints make every endpoint of the peer the
  active one once, and end at the endpoint where they started.
\<close>

theorem rotate_endpoint_visits_all:
  assumes "wg_endpoints p \<noteq> []" and "wg_wf p"
  shows "(\<lambda>k. active_endpoint ((rotate_endpoint now ^^ k) p)) ` {..<length (wg_endpoints p)}
      = Some ` set (wg_endpoints p) \<and>
    active_endpoint ((rotate_endpoint now ^^ length (wg_endpoints p)) p) = active_endpoint p"
proof -
  let ?n = "length (wg_endpoints p)" and ?a = "wg_active_endpoint p"
  have n: "0 < ?n" using assms by simp
  have act: "active_endpoint ((rotate_endpoint now ^^ k) p) = Some (wg_endpoints p ! ((?a + k) mod ?n))" for k
    using rotate_funpow[OF assms] n by (simp add: active_endpoint_def)
  have a: "?a < ?n" using wf_active_endpoint(2)[OF assms(2,1)] .
  have "(\<lambda>k. (?a + k) mod ?n) ` {..<?n} = {..<?n}"
  proof
    show "(\<lambda>k. (?a + k) mod ?n) ` {..<?n} \<subseteq> {..<?n}" using n by auto
    show "{..<?n} \<subseteq> (\<lambda>k. (?a + k) mod ?n) ` {..<?n}"
    proof
      fix i assume "i \<in> {..<?n}"
      then have "i = (?a + (i + ?n - ?a) mod ?n) mod ?n" using a by (simp add: mod_simps)
      then show "i \<in> (\<lambda>k. (?a + k) mod ?n) ` {..<?n}" using n by (intro image_eqI) auto
    qed
  qed
  then have "(\<lambda>k. Some (wg_endpoints p ! ((?a + k) mod ?n))) ` {..<?n} = (\<lambda>i. Some (wg_endpoints p ! i)) ` {..<?n}"
    by (metis (no_types, lifting) image_cong image_image)
  also have "\<dots> = Some ` set (wg_endpoints p)" by (auto simp: set_conv_nth)
  finally have "(\<lambda>k. active_endpoint ((rotate_endpoint now ^^ k) p)) ` {..<?n} = Some ` set (wg_endpoints p)"
    by (simp add: act)
  moreover have "active_endpoint ((rotate_endpoint now ^^ ?n) p) = active_endpoint p"
    using act[of ?n] act[of 0] by simp
  ultimately show ?thesis by blast
qed

theorem rotate_endpoint_visits_all_witness:
  "active_endpoint ((rotate_endpoint 9 ^^ 2) (wireguard_peer_new [''a'', ''b''] 0)) = Some ''a''"
  using rotate_endpoint_visits_all[of "wireguard_peer_new [''a'', ''b''] 0" 9]
  by (simp add: active_endpoint_def wireguard_peer_new_def wg_wf_def numeral_2_eq_2)

text \<open>
  An update of the endpoint list keeps the active endpoint when the new list still has it, falls
  back to the first new endpoint otherwise, and never leaves the active index outside the list.
\<close>

theorem update_endpoints_active:
  "wg_wf (update_endpoints new p) \<and>
   active_endpoint (update_endpoints new p) =
     (if new = [] then None
      else if \<exists>e. active_endpoint p = Some e \<and> e \<in> set new then active_endpoint p
      else Some (hd new))"
proof -
  have at: "active_endpoint (p\<lparr>wg_endpoints := es, wg_active_endpoint := i\<rparr>) =
      (if i < length es then Some (es ! i) else None)" for es i
    by (simp add: active_endpoint_def)
  show ?thesis
  proof (cases "active_endpoint p")
    case None
    then show ?thesis by (simp add: update_endpoints_def at hd_conv_nth wg_wf_def)
  next
    case (Some e)
    then show ?thesis
      using position_Some[of "\<lambda>x. x = e" new] position_None[of "\<lambda>x. x = e" new]
      by (cases "position (\<lambda>x. x = e) new") (auto simp: update_endpoints_def at hd_conv_nth wg_wf_def)
  qed
qed

end
