(* ===== verification/Peer_State.thy ===== *)
theory Peer_State
  imports Peer
begin

text \<open>
  The peers of the mesh as the peer-sync task sees them, \<open>mesh/peer_state.rs\<close> of
  \<open>crates/ployz-orchestrator/src\<close>: endpoint candidates and their ranking, one peer's state with its
  updates from machine records, device observations and probe results, the map of stored and
  transient peers, and the plan of WireGuard peers computed from it. Log output is left out.
\<close>

section \<open>Endpoint candidates\<close>

datatype tcp_probe_status = Probe_Reachable | Probe_Unreachable

record tcp_probe_result =
  tp_status :: tcp_probe_status
  tp_rtt :: "duration option"

datatype selection_reason = AdvertisedOrder | PreservedLiveEndpoint | TcpProbeRanking | WireguardFallback

record endpoint_candidate =
  ec_endpoint :: string
  ec_advertised_index :: nat
  ec_last_tcp_probe_rtt :: "duration option"
  ec_tcp_probe_status :: tcp_probe_status
  ec_last_wg_success :: "instant option"
  ec_last_wg_failure :: "instant option"

definition endpoint_candidate_new :: "string \<Rightarrow> nat \<Rightarrow> endpoint_candidate" where
  "endpoint_candidate_new endpoint index =
    \<lparr> ec_endpoint = endpoint, ec_advertised_index = index, ec_last_tcp_probe_rtt = None,
      ec_tcp_probe_status = Probe_Unreachable, ec_last_wg_success = None, ec_last_wg_failure = None \<rparr>"

definition merge_preserving_history ::
    "endpoint_candidate \<Rightarrow> endpoint_candidate \<Rightarrow> endpoint_candidate" where
  "merge_preserving_history other c =
    c\<lparr> ec_last_tcp_probe_rtt := ec_last_tcp_probe_rtt other,
       ec_tcp_probe_status := ec_tcp_probe_status other,
       ec_last_wg_success := ec_last_wg_success other,
       ec_last_wg_failure := ec_last_wg_failure other \<rparr>"

definition build_candidates :: "string list \<Rightarrow> endpoint_candidate list \<Rightarrow> endpoint_candidate list" where
  "build_candidates endpoints existing =
    map (\<lambda>(index, endpoint).
        let candidate = endpoint_candidate_new endpoint index in
        case find (\<lambda>previous. ec_endpoint previous = endpoint) existing of
          Some previous \<Rightarrow> merge_preserving_history previous candidate
        | None \<Rightarrow> candidate)
      (enumerate 0 endpoints)"

fun compare_option_duration_asc :: "duration option \<Rightarrow> duration option \<Rightarrow> ordering" where
  "compare_option_duration_asc (Some a) (Some b) = cmp a b"
| "compare_option_duration_asc (Some _) None = Less"
| "compare_option_duration_asc None (Some _) = Greater"
| "compare_option_duration_asc None None = Equal"

fun compare_option_instant_desc :: "instant option \<Rightarrow> instant option \<Rightarrow> ordering" where
  "compare_option_instant_desc (Some a) (Some b) = cmp b a"
| "compare_option_instant_desc (Some _) None = Less"
| "compare_option_instant_desc None (Some _) = Greater"
| "compare_option_instant_desc None None = Equal"

fun compare_probe_status :: "tcp_probe_status \<Rightarrow> tcp_probe_status \<Rightarrow> ordering" where
  "compare_probe_status Probe_Reachable Probe_Unreachable = Less"
| "compare_probe_status Probe_Unreachable Probe_Reachable = Greater"
| "compare_probe_status Probe_Reachable Probe_Reachable = Equal"
| "compare_probe_status Probe_Unreachable Probe_Unreachable = Equal"

definition compare_candidates :: "endpoint_candidate \<Rightarrow> endpoint_candidate \<Rightarrow> ordering" where
  "compare_candidates a b =
    then_with (compare_probe_status (ec_tcp_probe_status a) (ec_tcp_probe_status b))
      (then_with (compare_option_duration_asc (ec_last_tcp_probe_rtt a) (ec_last_tcp_probe_rtt b))
        (then_with (compare_option_instant_desc (ec_last_wg_success a) (ec_last_wg_success b))
          (cmp (ec_advertised_index a) (ec_advertised_index b))))"

section \<open>One peer\<close>

record device_peer =
  dv_public_key :: public_key
  dv_endpoint :: "string option"
  dv_last_handshake :: "instant option"

record peer_state =
  pe_id :: machine_id
  pe_public_key :: public_key
  pe_overlay_ip :: overlay_ip
  pe_subnet :: "ipv4_net option"
  pe_bridge_ip :: "overlay_ip option"
  pe_runtime :: wireguard_peer
  pe_candidates :: "endpoint_candidate list"
  pe_selection_reason :: selection_reason
  pe_needs_ranking :: bool

definition peer_from_record :: "machine_record \<Rightarrow> instant \<Rightarrow> peer_state" where
  "peer_from_record r now =
    \<lparr> pe_id = mr_id r, pe_public_key = mr_public_key r, pe_overlay_ip = mr_overlay_ip r,
      pe_subnet = mr_subnet r, pe_bridge_ip = mr_bridge_ip r,
      pe_runtime = wireguard_peer_new (mr_endpoints r) now,
      pe_candidates = build_candidates (mr_endpoints r) [],
      pe_selection_reason = AdvertisedOrder,
      pe_needs_ranking = (mr_endpoints r \<noteq> []) \<rparr>"

definition peer_update_from_record :: "machine_record \<Rightarrow> peer_state \<Rightarrow> peer_state" where
  "peer_update_from_record r ps =
    (let previous_active = active_endpoint (pe_runtime ps);
         runtime = update_endpoints (mr_endpoints r) (pe_runtime ps);
         ps' = ps\<lparr> pe_public_key := mr_public_key r, pe_overlay_ip := mr_overlay_ip r,
                   pe_subnet := mr_subnet r, pe_bridge_ip := mr_bridge_ip r,
                   pe_candidates := build_candidates (mr_endpoints r) (pe_candidates ps),
                   pe_runtime := runtime \<rparr>
     in if wg_endpoints runtime = [] then ps'\<lparr>pe_needs_ranking := False\<rparr>
        else
          let active_removed =
                (case previous_active of Some e \<Rightarrow> e \<notin> set (wg_endpoints runtime) | None \<Rightarrow> False)
          in ps'\<lparr>pe_needs_ranking := \<not> (wg_status runtime = Peer_Up \<and> \<not> active_removed)\<rparr>)"

definition planned_endpoints :: "peer_state \<Rightarrow> string list" where
  "planned_endpoints ps =
    (let endpoints = wg_endpoints (pe_runtime ps) in
     if endpoints = [] then endpoints
     else rotate (wg_active_endpoint (pe_runtime ps) mod length endpoints) endpoints)"

definition seed_from_device :: "device_peer \<Rightarrow> instant \<Rightarrow> peer_state \<Rightarrow> peer_state" where
  "seed_from_device d now ps =
    (case dv_endpoint d of None \<Rightarrow> ps | Some endpoint \<Rightarrow>
     (case dv_last_handshake d of None \<Rightarrow> ps | Some last_handshake \<Rightarrow>
      if last_handshake > now then ps
      else if now - last_handshake \<ge> peer_down_interval then ps
      else
       (case position (\<lambda>candidate. candidate = endpoint) (wg_endpoints (pe_runtime ps)) of
          None \<Rightarrow> ps
        | Some active \<Rightarrow>
            ps\<lparr> pe_runtime := calculate_status now
                  ((pe_runtime ps)\<lparr> wg_active_endpoint := active,
                                    wg_last_endpoint_change := last_handshake,
                                    wg_last_handshake := Some last_handshake \<rparr>),
                pe_candidates := update_first (\<lambda>c. ec_endpoint c = endpoint)
                  (\<lambda>c. c\<lparr>ec_last_wg_success := Some last_handshake\<rparr>) (pe_candidates ps),
                pe_selection_reason := PreservedLiveEndpoint,
                pe_needs_ranking := False \<rparr>)))"

definition observe_device :: "device_peer option \<Rightarrow> instant \<Rightarrow> peer_state \<Rightarrow> peer_state" where
  "observe_device device now ps =
    (case device of
       Some d \<Rightarrow>
         let ps1 = seed_from_device d now ps;
             matches_known_endpoint =
               (case dv_endpoint d of
                  Some endpoint \<Rightarrow> endpoint \<in> set (wg_endpoints (pe_runtime ps1))
                | None \<Rightarrow> False);
             ps2 = ps1\<lparr> pe_runtime := (pe_runtime ps1)\<lparr> wg_last_handshake :=
                          (if matches_known_endpoint then dv_last_handshake d else None) \<rparr> \<rparr>
         in (case (dv_endpoint d, dv_last_handshake d) of
               (Some endpoint, Some last_handshake) \<Rightarrow>
                 ps2\<lparr> pe_candidates := update_first (\<lambda>c. ec_endpoint c = endpoint)
                   (\<lambda>c. c\<lparr>ec_last_wg_success := Some last_handshake\<rparr>) (pe_candidates ps2) \<rparr>
             | _ \<Rightarrow> ps2)
     | None \<Rightarrow> ps\<lparr> pe_runtime := (pe_runtime ps)\<lparr> wg_last_handshake := None \<rparr> \<rparr>)"

definition refresh_from_device ::
    "device_peer option \<Rightarrow> instant \<Rightarrow> peer_state \<Rightarrow> bool \<times> peer_state" where
  "refresh_from_device device now ps =
    (let ps1 = observe_device device now ps;
         ps2 = ps1\<lparr> pe_runtime := calculate_status now (pe_runtime ps1) \<rparr>
     in if wg_status (pe_runtime ps2) = Peer_Up then (False, ps2\<lparr>pe_needs_ranking := False\<rparr>)
        else if wg_status (pe_runtime ps2) = Peer_Down \<and> length (wg_endpoints (pe_runtime ps2)) > 1 then
          (let previous_active = active_endpoint (pe_runtime ps2);
               ps3 = (case previous_active of
                        Some a \<Rightarrow> ps2\<lparr> pe_candidates := update_first (\<lambda>c. ec_endpoint c = a)
                          (\<lambda>c. c\<lparr>ec_last_wg_failure := Some now\<rparr>) (pe_candidates ps2) \<rparr>
                      | None \<Rightarrow> ps2);
               ps4 = ps3\<lparr> pe_runtime := rotate_endpoint now (pe_runtime ps3),
                          pe_selection_reason := WireguardFallback, pe_needs_ranking := False \<rparr>
           in (previous_active \<noteq> active_endpoint (pe_runtime ps4), ps4))
        else (False, ps2\<lparr>pe_needs_ranking := False\<rparr>))"

definition record_probe ::
    "(string, tcp_probe_result) hash_map \<Rightarrow> endpoint_candidate \<Rightarrow> endpoint_candidate" where
  "record_probe results c =
    (case hm_get results (ec_endpoint c) of
       Some r \<Rightarrow> c\<lparr> ec_tcp_probe_status := tp_status r, ec_last_tcp_probe_rtt := tp_rtt r \<rparr>
     | None \<Rightarrow> c)"

definition apply_probe_results ::
    "(string, tcp_probe_result) hash_map \<Rightarrow> instant \<Rightarrow> peer_state \<Rightarrow> bool \<times> peer_state" where
  "apply_probe_results results now ps =
    (let candidates = map (record_probe results) (pe_candidates ps) in
     if \<exists>c\<in>set candidates. ec_tcp_probe_status c = Probe_Reachable then
       (let previous_active = active_endpoint (pe_runtime ps);
            ranked = sort_by compare_candidates candidates;
            runtime = (pe_runtime ps)\<lparr> wg_endpoints := map ec_endpoint ranked, wg_active_endpoint := 0,
              wg_last_endpoint_change := now, wg_last_handshake := None, wg_status := Peer_Unknown \<rparr>
        in (previous_active \<noteq> active_endpoint runtime,
            ps\<lparr> pe_candidates := ranked, pe_runtime := runtime,
                pe_selection_reason := TcpProbeRanking, pe_needs_ranking := False \<rparr>))
     else (False, ps\<lparr> pe_candidates := candidates, pe_needs_ranking := False \<rparr>))"

section \<open>The map of peers\<close>

record peer_state_map =
  pm_stored :: "(machine_id, peer_state) hash_map"
  pm_transient :: "(machine_id, peer_state) hash_map"

definition peer_state_map_new :: peer_state_map where
  "peer_state_map_new = \<lparr> pm_stored = [], pm_transient = [] \<rparr>"

definition upsert_peer ::
    "machine_record \<Rightarrow> instant \<Rightarrow> (machine_id, peer_state) hash_map \<Rightarrow> (machine_id, peer_state) hash_map" where
  "upsert_peer r now m =
    hm_insert (mr_id r)
      (case hm_get m (mr_id r) of
         Some ps \<Rightarrow> peer_update_from_record r ps
       | None \<Rightarrow> peer_from_record r now) m"

definition init_from_snapshot :: "machine_record list \<Rightarrow> instant \<Rightarrow> peer_state_map \<Rightarrow> peer_state_map" where
  "init_from_snapshot records now s =
    s\<lparr> pm_stored := fold (\<lambda>r m. if hm_contains m (mr_id r) then m
                             else hm_insert (mr_id r) (peer_from_record r now) m)
                     records (pm_stored s) \<rparr>"

definition upsert_stored :: "machine_record \<Rightarrow> instant \<Rightarrow> peer_state_map \<Rightarrow> peer_state_map" where
  "upsert_stored r now s =
    s\<lparr> pm_stored := upsert_peer r now (pm_stored s),
       pm_transient := hm_remove (mr_id r) (pm_transient s) \<rparr>"

definition upsert_transient :: "machine_record \<Rightarrow> instant \<Rightarrow> peer_state_map \<Rightarrow> peer_state_map" where
  "upsert_transient r now s =
    (if hm_contains (pm_stored s) (mr_id r) then s
     else s\<lparr> pm_transient := upsert_peer r now (pm_transient s) \<rparr>)"

definition remove_stored :: "machine_id \<Rightarrow> peer_state_map \<Rightarrow> peer_state_map" where
  "remove_stored i s = s\<lparr> pm_stored := hm_remove i (pm_stored s) \<rparr>"

definition remove_transient :: "machine_id \<Rightarrow> peer_state_map \<Rightarrow> peer_state_map" where
  "remove_transient i s = s\<lparr> pm_transient := hm_remove i (pm_transient s) \<rparr>"

fun apply_event :: "machine_event \<Rightarrow> instant \<Rightarrow> peer_state_map \<Rightarrow> peer_state_map" where
  "apply_event (Machine_Added r) now s = upsert_stored r now s"
| "apply_event (Machine_Updated r) now s = upsert_stored r now s"
| "apply_event (Machine_Removed r) now s = remove_stored (mr_id r) s"

definition peers_by_key :: "device_peer list \<Rightarrow> (public_key, device_peer) hash_map" where
  "peers_by_key ds = hm_collect (map (\<lambda>d. (dv_public_key d, d)) ds)"

definition map_peers ::
    "(peer_state \<Rightarrow> peer_state) \<Rightarrow> (machine_id, peer_state) hash_map \<Rightarrow> (machine_id, peer_state) hash_map" where
  "map_peers f m = map (\<lambda>(k, ps). (k, f ps)) m"

definition seed_from_device_peers :: "device_peer list \<Rightarrow> instant \<Rightarrow> peer_state_map \<Rightarrow> peer_state_map" where
  "seed_from_device_peers ds now s =
    (let seed = (\<lambda>ps. case hm_get (peers_by_key ds) (pe_public_key ps) of
                   Some d \<Rightarrow> seed_from_device d now ps
                 | None \<Rightarrow> ps)
     in s\<lparr> pm_stored := map_peers seed (pm_stored s),
           pm_transient := map_peers seed (pm_transient s) \<rparr>)"

definition refresh_from_device_peers ::
    "device_peer list \<Rightarrow> instant \<Rightarrow> peer_state_map \<Rightarrow> bool \<times> peer_state_map" where
  "refresh_from_device_peers ds now s =
    (let refresh = (\<lambda>ps. refresh_from_device (hm_get (peers_by_key ds) (pe_public_key ps)) now ps)
     in ((\<exists>ps\<in>set (hm_values (pm_stored s)). fst (refresh ps)) \<or>
         (\<exists>ps\<in>set (hm_values (pm_transient s)). fst (refresh ps)),
         s\<lparr> pm_stored := map_peers (\<lambda>ps. snd (refresh ps)) (pm_stored s),
            pm_transient := map_peers (\<lambda>ps. snd (refresh ps)) (pm_transient s) \<rparr>))"

definition wants_ranking :: "peer_state \<Rightarrow> bool" where
  "wants_ranking ps \<longleftrightarrow> pe_needs_ranking ps \<and> length (wg_endpoints (pe_runtime ps)) > 1"

definition pending_rankings :: "peer_state_map \<Rightarrow> (machine_id \<times> string list) list" where
  "pending_rankings s =
    map (\<lambda>ps. (pe_id ps, wg_endpoints (pe_runtime ps)))
      (filter wants_ranking (hm_values (pm_stored s)))
    @ map (\<lambda>ps. (pe_id ps, wg_endpoints (pe_runtime ps)))
      (filter (\<lambda>ps. wants_ranking ps \<and> \<not> hm_contains (pm_stored s) (pe_id ps))
        (hm_values (pm_transient s)))"

definition map_apply_probe_results ::
    "machine_id \<Rightarrow> (string, tcp_probe_result) hash_map \<Rightarrow> instant \<Rightarrow> peer_state_map \<Rightarrow> bool \<times> peer_state_map" where
  "map_apply_probe_results i results now s =
    (case hm_get (pm_stored s) i of
       Some ps \<Rightarrow> (let (changed, ps') = apply_probe_results results now ps
                  in (changed, s\<lparr> pm_stored := hm_insert i ps' (pm_stored s) \<rparr>))
     | None \<Rightarrow>
       (case hm_get (pm_transient s) i of
          Some ps \<Rightarrow> (let (changed, ps') = apply_probe_results results now ps
                     in (changed, s\<lparr> pm_transient := hm_insert i ps' (pm_transient s) \<rparr>))
        | None \<Rightarrow> (False, s)))"

section \<open>The plan\<close>

definition peer_state_to_planned_record :: "peer_state \<Rightarrow> machine_record" where
  "peer_state_to_planned_record ps =
    \<lparr> mr_id = pe_id ps, mr_public_key = pe_public_key ps, mr_overlay_ip = pe_overlay_ip ps,
      mr_subnet = pe_subnet ps, mr_bridge_ip = pe_bridge_ip ps, mr_endpoints = planned_endpoints ps,
      mr_status = Status_Unknown, mr_participation = Participation_Disabled,
      mr_last_heartbeat = 0, mr_created_at = 0, mr_updated_at = 0, mr_labels = [] \<rparr>"

definition plan_mesh_peers :: "peer_state_map \<Rightarrow> machine_id \<Rightarrow> machine_record list" where
  "plan_mesh_peers s local =
    map peer_state_to_planned_record
      (filter (\<lambda>ps. wg_endpoints (pe_runtime ps) \<noteq> [])
        (filter (\<lambda>ps. pe_id ps \<noteq> local) (hm_values (pm_stored s))))
    @ map peer_state_to_planned_record
      (filter (\<lambda>ps. wg_endpoints (pe_runtime ps) \<noteq> [])
        (filter (\<lambda>ps. \<not> hm_contains (pm_stored s) (pe_id ps))
          (filter (\<lambda>ps. pe_id ps \<noteq> local) (hm_values (pm_transient s)))))"

section \<open>The comparator\<close>

lemma comparator_option_duration: "comparator compare_option_duration_asc"
proof
  fix x y z :: "duration option"
  show "compare_option_duration_asc y x = reverse_ord (compare_option_duration_asc x y)"
    by (cases x; cases y) (auto simp: cmp_def)
  show "compare_option_duration_asc x y \<noteq> Greater \<Longrightarrow> compare_option_duration_asc y z \<noteq> Greater \<Longrightarrow>
      compare_option_duration_asc x z \<noteq> Greater"
    by (cases x; cases y; cases z) auto
qed

lemma comparator_option_instant: "comparator compare_option_instant_desc"
proof
  fix x y z :: "instant option"
  show "compare_option_instant_desc y x = reverse_ord (compare_option_instant_desc x y)"
    by (cases x; cases y) (auto simp: cmp_def)
  show "compare_option_instant_desc x y \<noteq> Greater \<Longrightarrow> compare_option_instant_desc y z \<noteq> Greater \<Longrightarrow>
      compare_option_instant_desc x z \<noteq> Greater"
    by (cases x; cases y; cases z) auto
qed

lemma comparator_probe_status: "comparator compare_probe_status"
proof
  fix x y z :: tcp_probe_status
  show "compare_probe_status y x = reverse_ord (compare_probe_status x y)" by (cases x; cases y) auto
  show "compare_probe_status x y \<noteq> Greater \<Longrightarrow> compare_probe_status y z \<noteq> Greater \<Longrightarrow>
      compare_probe_status x z \<noteq> Greater" by (cases x; cases y; cases z) auto
qed

interpretation candidates: comparator compare_candidates
proof -
  have "comparator (\<lambda>a b. compare_candidates a b)"
    unfolding compare_candidates_def
    by (rule comparator_then[OF comparator_on[OF comparator_probe_status]
          comparator_then[OF comparator_on[OF comparator_option_duration]
            comparator_then[OF comparator_on[OF comparator_option_instant] comparator_key]]])
  then show "comparator compare_candidates" by simp
qed

section \<open>The invariant of one peer\<close>

definition peer_wf :: "peer_state \<Rightarrow> bool" where
  "peer_wf ps \<longleftrightarrow> map ec_endpoint (pe_candidates ps) = wg_endpoints (pe_runtime ps) \<and> wg_wf (pe_runtime ps)"

text \<open>What a peer is configured with on the device, up to the order of its endpoints.\<close>

type_synonym peer_view =
  "machine_id \<times> public_key \<times> overlay_ip \<times> ipv4_net option \<times> overlay_ip option \<times> string multiset"

definition peer_view :: "peer_state \<Rightarrow> peer_view" where
  "peer_view ps = (pe_id ps, pe_public_key ps, pe_overlay_ip ps, pe_subnet ps, pe_bridge_ip ps,
    mset (wg_endpoints (pe_runtime ps)))"

definition record_view :: "machine_record \<Rightarrow> peer_view" where
  "record_view r = (mr_id r, mr_public_key r, mr_overlay_ip r, mr_subnet r, mr_bridge_ip r, mset (mr_endpoints r))"

lemma ec_endpoint_merge [simp]: "ec_endpoint (merge_preserving_history o' c) = ec_endpoint c"
  by (simp add: merge_preserving_history_def)

lemma ec_endpoint_new [simp]: "ec_endpoint (endpoint_candidate_new e i) = e"
  by (simp add: endpoint_candidate_new_def)

lemma map_ec_endpoint_build [simp]: "map ec_endpoint (build_candidates es existing) = es"
  by (rule nth_equalityI)
     (auto simp: build_candidates_def nth_enumerate_eq Let_def split: option.split)

lemma ec_endpoint_record_probe [simp]: "ec_endpoint (record_probe results c) = ec_endpoint c"
  by (simp add: record_probe_def split: option.split)

lemma peer_wf_from_record [simp]: "peer_wf (peer_from_record r now)"
  by (simp add: peer_wf_def peer_from_record_def)

lemma pe_id_from_record [simp]: "pe_id (peer_from_record r now) = mr_id r"
  by (simp add: peer_from_record_def)

lemma update_from_record_fields [simp]:
  "pe_id (peer_update_from_record r ps) = pe_id ps"
  "pe_candidates (peer_update_from_record r ps) = build_candidates (mr_endpoints r) (pe_candidates ps)"
  "pe_runtime (peer_update_from_record r ps) = update_endpoints (mr_endpoints r) (pe_runtime ps)"
  by (simp_all add: peer_update_from_record_def Let_def)

lemma peer_wf_update_from_record [simp]: "peer_wf (peer_update_from_record r ps)"
  by (simp add: peer_wf_def)

lemma seed_endpoints [simp]: "wg_endpoints (pe_runtime (seed_from_device d now ps)) = wg_endpoints (pe_runtime ps)"
  by (simp add: seed_from_device_def split: option.split)

lemma seed_candidates [simp]:
  "map ec_endpoint (pe_candidates (seed_from_device d now ps)) = map ec_endpoint (pe_candidates ps)"
  by (simp add: seed_from_device_def split: option.split)

lemma seed_wg_wf [simp]: "wg_wf (pe_runtime ps) \<Longrightarrow> wg_wf (pe_runtime (seed_from_device d now ps))"
  using position_Some
  by (auto simp: seed_from_device_def calculate_status_def wg_wf_def split: option.splits)

lemma seed_fields [simp]:
  "pe_id (seed_from_device d now ps) = pe_id ps"
  "pe_public_key (seed_from_device d now ps) = pe_public_key ps"
  "pe_overlay_ip (seed_from_device d now ps) = pe_overlay_ip ps"
  "pe_subnet (seed_from_device d now ps) = pe_subnet ps"
  "pe_bridge_ip (seed_from_device d now ps) = pe_bridge_ip ps"
  by (simp_all add: seed_from_device_def split: option.split)

lemma observe_fields [simp]:
  "pe_id (observe_device dev now ps) = pe_id ps"
  "pe_public_key (observe_device dev now ps) = pe_public_key ps"
  "pe_overlay_ip (observe_device dev now ps) = pe_overlay_ip ps"
  "pe_subnet (observe_device dev now ps) = pe_subnet ps"
  "pe_bridge_ip (observe_device dev now ps) = pe_bridge_ip ps"
  "wg_endpoints (pe_runtime (observe_device dev now ps)) = wg_endpoints (pe_runtime ps)"
  "map ec_endpoint (pe_candidates (observe_device dev now ps)) = map ec_endpoint (pe_candidates ps)"
  by (simp_all add: observe_device_def Let_def split: option.split)

lemma observe_wg_wf [simp]: "wg_wf (pe_runtime ps) \<Longrightarrow> wg_wf (pe_runtime (observe_device dev now ps))"
  using seed_wg_wf[of ps _ now]
  by (cases dev) (auto simp: observe_device_def Let_def wg_wf_def split: option.split)

lemma refresh_cases:
  obtains (keep) ps2 where "ps2 = (observe_device dev now ps)\<lparr>pe_runtime := calculate_status now (pe_runtime (observe_device dev now ps))\<rparr>"
      "refresh_from_device dev now ps = (False, ps2\<lparr>pe_needs_ranking := False\<rparr>)"
  | (rotate) ps2 cands where "ps2 = (observe_device dev now ps)\<lparr>pe_runtime := calculate_status now (pe_runtime (observe_device dev now ps))\<rparr>"
      "map ec_endpoint cands = map ec_endpoint (pe_candidates ps2)"
      "snd (refresh_from_device dev now ps) = ps2\<lparr>pe_candidates := cands,
        pe_runtime := rotate_endpoint now (pe_runtime ps2), pe_selection_reason := WireguardFallback,
        pe_needs_ranking := False\<rparr>"
proof -
  define ps2 where "ps2 = (observe_device dev now ps)\<lparr>pe_runtime := calculate_status now (pe_runtime (observe_device dev now ps))\<rparr>"
  define failed where "failed = (\<lambda>a. update_first (\<lambda>c. ec_endpoint c = a)
    (\<lambda>c. c\<lparr>ec_last_wg_failure := Some now\<rparr>) (pe_candidates ps2))"
  have failed: "map ec_endpoint (failed a) = map ec_endpoint (pe_candidates ps2)" for a
    by (simp add: failed_def)
  show ?thesis
  proof (cases "wg_status (pe_runtime ps2) = Peer_Down \<and> length (wg_endpoints (pe_runtime ps2)) > 1")
    case False
    then have "refresh_from_device dev now ps = (False, ps2\<lparr>pe_needs_ranking := False\<rparr>)"
      by (auto simp: refresh_from_device_def Let_def ps2_def)
    then show ?thesis using keep ps2_def by blast
  next
    case True
    show ?thesis
    proof (cases "active_endpoint (pe_runtime ps2)")
      case None
      then have "snd (refresh_from_device dev now ps) = ps2\<lparr>pe_candidates := pe_candidates ps2,
          pe_runtime := rotate_endpoint now (pe_runtime ps2), pe_selection_reason := WireguardFallback,
          pe_needs_ranking := False\<rparr>"
        using True by (simp add: refresh_from_device_def Let_def ps2_def)
      then show ?thesis using rotate ps2_def by blast
    next
      case (Some a)
      then have "snd (refresh_from_device dev now ps) = ps2\<lparr>pe_candidates := failed a,
          pe_runtime := rotate_endpoint now (pe_runtime ps2), pe_selection_reason := WireguardFallback,
          pe_needs_ranking := False\<rparr>"
        using True by (simp add: refresh_from_device_def Let_def ps2_def failed_def)
      then show ?thesis using rotate[OF ps2_def failed] by blast
    qed
  qed
qed

lemma refresh_preserves:
  "peer_view (snd (refresh_from_device dev now ps)) = peer_view ps"
  "pe_id (snd (refresh_from_device dev now ps)) = pe_id ps"
  "\<not> pe_needs_ranking (snd (refresh_from_device dev now ps))"
  "wg_endpoints (pe_runtime (snd (refresh_from_device dev now ps))) = wg_endpoints (pe_runtime ps)"
  by (cases rule: refresh_cases[where dev = dev and now = now and ps = ps]; simp add: peer_view_def)+

lemma refresh_peer_wf: "peer_wf ps \<Longrightarrow> peer_wf (snd (refresh_from_device dev now ps))"
  by (cases rule: refresh_cases[where dev = dev and now = now and ps = ps]) (simp_all add: peer_wf_def)

lemma seed_preserves: "peer_view (seed_from_device d now ps) = peer_view ps"
  by (simp add: peer_view_def)

lemma probe_preserves:
  assumes "peer_wf ps"
  shows "peer_wf (snd (apply_probe_results results now ps))"
    "peer_view (snd (apply_probe_results results now ps)) = peer_view ps"
    "pe_id (snd (apply_probe_results results now ps)) = pe_id ps"
proof -
  have m: "map (ec_endpoint \<circ> record_probe results) cs = map ec_endpoint cs" for cs by simp
  have "mset (map ec_endpoint (sort_by compare_candidates cs)) = mset (map ec_endpoint cs)" for cs
    using candidates.mset_sort_by[of cs] by (metis mset_map)
  then have perm: "mset (map ec_endpoint (sort_by compare_candidates (map (record_probe results) (pe_candidates ps))))
      = mset (wg_endpoints (pe_runtime ps))"
    using assms by (simp add: peer_wf_def m flip: mset_map)
  show "peer_wf (snd (apply_probe_results results now ps))"
    using assms by (simp add: apply_probe_results_def Let_def peer_wf_def wg_wf_def m)
  show "peer_view (snd (apply_probe_results results now ps)) = peer_view ps"
    using perm by (simp add: apply_probe_results_def Let_def peer_view_def)
  show "pe_id (snd (apply_probe_results results now ps)) = pe_id ps"
    by (simp add: apply_probe_results_def Let_def)
qed

section \<open>The invariant of the map\<close>

definition peers_ok :: "(machine_id, peer_state) hash_map \<Rightarrow> bool" where
  "peers_ok m \<longleftrightarrow> hm_wf m \<and> (\<forall>i ps. hm_get m i = Some ps \<longrightarrow> pe_id ps = i \<and> peer_wf ps)"

definition peer_map_wf :: "peer_state_map \<Rightarrow> bool" where
  "peer_map_wf s \<longleftrightarrow> peers_ok (pm_stored s) \<and> peers_ok (pm_transient s) \<and>
    (\<forall>i. hm_get (pm_stored s) i = None \<or> hm_get (pm_transient s) i = None)"

definition peer_of :: "peer_state_map \<Rightarrow> machine_id \<Rightarrow> peer_state option" where
  "peer_of s i = opt_or_else (hm_get (pm_stored s) i) (hm_get (pm_transient s) i)"

lemma peers_ok_Nil [simp]: "peers_ok []"
  by (simp add: peers_ok_def hm.wf_empty)

lemma peers_ok_insert:
  "peers_ok m \<Longrightarrow> pe_id ps = i \<Longrightarrow> peer_wf ps \<Longrightarrow> peers_ok (hm_insert i ps m)"
  by (auto simp: peers_ok_def hm.wf_insert hm.get_insert)

lemma peers_ok_remove: "peers_ok m \<Longrightarrow> peers_ok (hm_remove i m)"
  by (auto simp: peers_ok_def hm.wf_remove hm.get_remove)

lemma peers_ok_upsert: "peers_ok m \<Longrightarrow> peers_ok (upsert_peer r now m)"
  unfolding upsert_peer_def
  by (rule peers_ok_insert) (auto simp: peers_ok_def split: option.split)

lemma map_of_map_peers: "hm_get (map_peers f m) i = map_option f (hm_get m i)"
  by (induction m) (auto simp: map_peers_def)

lemma keys_map_peers [simp]: "map fst (map_peers f m) = map fst m"
  by (induction m) (auto simp: map_peers_def)

lemma hm_wf_map_peers [simp]: "hm_wf (map_peers f m) = hm_wf m"
  by (simp add: hm_wf_def)

lemma values_map_peers [simp]: "hm_values (map_peers f m) = map f (hm_values m)"
  by (induction m) (auto simp: map_peers_def hm_values_def)

lemma peers_ok_map_peers:
  assumes "peers_ok m" and "\<And>ps. peer_wf ps \<Longrightarrow> pe_id (f ps) = pe_id ps \<and> peer_wf (f ps)"
  shows "peers_ok (map_peers f m)"
  using assms by (auto simp: peers_ok_def map_of_map_peers)

lemma peers_ok_values: "peers_ok m \<Longrightarrow> ps \<in> set (hm_values m) \<longleftrightarrow> hm_get m (pe_id ps) = Some ps"
  by (metis hm_values_get peers_ok_def)

lemma peers_ok_ids: "peers_ok m \<Longrightarrow> map pe_id (hm_values m) = map fst m"
  unfolding peers_ok_def hm_wf_def hm_values_def
  by (auto intro!: map_cong)

lemma peers_ok_fold_init:
  "peers_ok m \<Longrightarrow> peers_ok (fold (\<lambda>r m. if hm_contains m (mr_id r) then m
     else hm_insert (mr_id r) (peer_from_record r now) m) rs m)"
  by (induction rs arbitrary: m) (auto simp: peers_ok_insert)

lemma peer_map_wf_new [simp]: "peer_map_wf peer_state_map_new"
  by (simp add: peer_map_wf_def peer_state_map_new_def)

lemma peer_map_wf_init:
  "peer_map_wf s \<Longrightarrow> pm_transient s = [] \<Longrightarrow> peer_map_wf (init_from_snapshot rs now s)"
  by (simp add: peer_map_wf_def init_from_snapshot_def peers_ok_fold_init)

lemma get_upsert_peer:
  "hm_wf m \<Longrightarrow> hm_get (upsert_peer r now m) i = None \<longleftrightarrow> i \<noteq> mr_id r \<and> hm_get m i = None"
  by (simp add: upsert_peer_def hm.get_insert)

lemma peer_map_wf_upsert_stored: "peer_map_wf s \<Longrightarrow> peer_map_wf (upsert_stored r now s)"
  by (auto simp: peer_map_wf_def upsert_stored_def peers_ok_upsert peers_ok_remove get_upsert_peer
      hm.get_remove peers_ok_def[of "pm_stored s"] peers_ok_def[of "pm_transient s"])

lemma peer_map_wf_upsert_transient: "peer_map_wf s \<Longrightarrow> peer_map_wf (upsert_transient r now s)"
  by (auto simp: peer_map_wf_def upsert_transient_def peers_ok_upsert get_upsert_peer hm_contains_def
      peers_ok_def[of "pm_transient s"]) (metis option.distinct(1))

lemma peer_map_wf_remove:
  "peer_map_wf s \<Longrightarrow> peer_map_wf (remove_stored i s)"
  "peer_map_wf s \<Longrightarrow> peer_map_wf (remove_transient i s)"
  by (auto simp: peer_map_wf_def remove_stored_def remove_transient_def peers_ok_remove hm.get_remove
      peers_ok_def[of "pm_stored s"] peers_ok_def[of "pm_transient s"])

lemma peer_map_wf_event: "peer_map_wf s \<Longrightarrow> peer_map_wf (apply_event ev now s)"
  by (cases ev) (simp_all add: peer_map_wf_upsert_stored peer_map_wf_remove)

lemma seed_map_ok:
  "peers_ok m \<Longrightarrow> peers_ok (map_peers (\<lambda>ps. case g ps of Some d \<Rightarrow> seed_from_device d now ps | None \<Rightarrow> ps) m)"
  by (rule peers_ok_map_peers) (auto simp: peer_wf_def split: option.split)

lemma peer_map_wf_seed: "peer_map_wf s \<Longrightarrow> peer_map_wf (seed_from_device_peers ds now s)"
  by (simp add: peer_map_wf_def seed_from_device_peers_def Let_def map_of_map_peers seed_map_ok)

lemma peer_map_wf_refresh: "peer_map_wf s \<Longrightarrow> peer_map_wf (snd (refresh_from_device_peers ds now s))"
  by (simp add: peer_map_wf_def refresh_from_device_peers_def Let_def map_of_map_peers
      peers_ok_map_peers refresh_preserves refresh_peer_wf)

lemma map_probe_cases:
  obtains (stored) ps where "hm_get (pm_stored s) i = Some ps"
      "map_apply_probe_results i results now s = (fst (apply_probe_results results now ps),
        s\<lparr>pm_stored := hm_insert i (snd (apply_probe_results results now ps)) (pm_stored s)\<rparr>)"
  | (transient) ps where "hm_get (pm_stored s) i = None" "hm_get (pm_transient s) i = Some ps"
      "map_apply_probe_results i results now s = (fst (apply_probe_results results now ps),
        s\<lparr>pm_transient := hm_insert i (snd (apply_probe_results results now ps)) (pm_transient s)\<rparr>)"
  | (none) "map_apply_probe_results i results now s = (False, s)"
  unfolding map_apply_probe_results_def by (cases "hm_get (pm_stored s) i"; cases "hm_get (pm_transient s) i")
    (auto simp: case_prod_beta)

lemma peer_map_wf_probe:
  assumes "peer_map_wf s"
  shows "peer_map_wf (snd (map_apply_probe_results i results now s))"
  using assms
  by (cases rule: map_probe_cases[where s = s and i = i and results = results and now = now])
     (auto simp: peer_map_wf_def peers_ok_insert probe_preserves peers_ok_def hm.get_insert hm.wf_insert,
      metis option.distinct(1))

section \<open>Properties of the plan\<close>

lemma mset_rotate_left: "mset (rotate n xs) = mset xs"
  by (metis add.commute append_take_drop_id mset_append rotate_drop_take)

lemma planned_rotation: "mset (planned_endpoints ps) = mset (wg_endpoints (pe_runtime ps))"
  by (simp add: planned_endpoints_def Let_def mset_rotate_left)

lemma record_view_planned [simp]: "record_view (peer_state_to_planned_record ps) = peer_view ps"
  by (simp add: record_view_def peer_view_def peer_state_to_planned_record_def planned_rotation)

lemma mr_id_planned [simp]: "mr_id (peer_state_to_planned_record ps) = pe_id ps"
  by (simp add: peer_state_to_planned_record_def)

lemma planned_first:
  assumes "peer_wf ps" "wg_endpoints (pe_runtime ps) \<noteq> []"
  shows "active_endpoint (pe_runtime ps) = Some (hd (planned_endpoints ps))"
  using assms wf_active_endpoint[of "pe_runtime ps"]
  by (simp add: planned_endpoints_def peer_wf_def Let_def hd_rotate_conv_nth)

text \<open>
  C28. The plan handed to WireGuard is right: it has one entry per machine, none for the local machine,
  an entry exactly for the other known machines with an endpoint (a stored record takes precedence
  over a transient one), and each entry carries the machine's key, addresses and all its endpoints,
  the active endpoint first.
\<close>

theorem plan_mesh_peers_correct:
  assumes wf: "peer_map_wf s"
  shows "distinct (map mr_id (plan_mesh_peers s local)) \<and>
    mr_id ` set (plan_mesh_peers s local) =
      {i. i \<noteq> local \<and> (\<exists>ps. peer_of s i = Some ps \<and> wg_endpoints (pe_runtime ps) \<noteq> [])} \<and>
    (\<forall>r\<in>set (plan_mesh_peers s local). \<exists>ps. peer_of s (mr_id r) = Some ps \<and>
      record_view r = peer_view ps \<and> active_endpoint (pe_runtime ps) = Some (hd (mr_endpoints r)))"
proof -
  have ok: "peers_ok (pm_stored s)" "peers_ok (pm_transient s)" using wf by (auto simp: peer_map_wf_def)
  define A where "A = filter (\<lambda>ps. wg_endpoints (pe_runtime ps) \<noteq> [])
    (filter (\<lambda>ps. pe_id ps \<noteq> local) (hm_values (pm_stored s)))"
  define B where "B = filter (\<lambda>ps. wg_endpoints (pe_runtime ps) \<noteq> [])
    (filter (\<lambda>ps. \<not> hm_contains (pm_stored s) (pe_id ps))
      (filter (\<lambda>ps. pe_id ps \<noteq> local) (hm_values (pm_transient s))))"
  have plan: "plan_mesh_peers s local = map peer_state_to_planned_record (A @ B)"
    by (simp add: plan_mesh_peers_def A_def B_def)
  have mem: "ps \<in> set (A @ B) \<longleftrightarrow> peer_of s (pe_id ps) = Some ps \<and> pe_id ps \<noteq> local \<and> wg_endpoints (pe_runtime ps) \<noteq> []" for ps
    by (auto simp: A_def B_def peers_ok_values ok peer_of_def hm_contains_def)
  have ids: "peer_of s i = Some ps \<Longrightarrow> pe_id ps = i \<and> peer_wf ps" for i ps
    using ok by (auto simp: peer_of_def peers_ok_def)
  have vals: "distinct (map pe_id (hm_values (pm_stored s)))" "distinct (map pe_id (hm_values (pm_transient s)))"
    using ok by (auto simp: peers_ok_ids peers_ok_def hm_wf_def)
  have "distinct (map pe_id (A @ B))"
    using vals
    by (auto simp: A_def B_def distinct_map_filter peers_ok_values ok hm_contains_def simp del: filter_filter)
  then obtain C where C: "plan_mesh_peers s local = map peer_state_to_planned_record C" "distinct (map pe_id C)"
    "\<And>ps. ps \<in> set C \<longleftrightarrow> peer_of s (pe_id ps) = Some ps \<and> pe_id ps \<noteq> local \<and> wg_endpoints (pe_runtime ps) \<noteq> []"
    using plan mem by metis
  have "distinct (map mr_id (plan_mesh_peers s local))" using C(2) by (simp add: C(1) comp_def)
  moreover have "mr_id ` set (plan_mesh_peers s local) =
      {i. i \<noteq> local \<and> (\<exists>ps. peer_of s i = Some ps \<and> wg_endpoints (pe_runtime ps) \<noteq> [])}"
    using ids by (auto simp: C(1,3) image_image) (metis C(3) image_eqI)
  moreover have "\<exists>ps. peer_of s (mr_id r) = Some ps \<and> record_view r = peer_view ps \<and>
      active_endpoint (pe_runtime ps) = Some (hd (mr_endpoints r))"
    if r: "r \<in> set (plan_mesh_peers s local)" for r
  proof -
    obtain ps where ps: "r = peer_state_to_planned_record ps" "ps \<in> set C" using r by (auto simp: C(1))
    moreover have "mr_endpoints r = planned_endpoints ps" using ps by (simp add: peer_state_to_planned_record_def)
    ultimately show ?thesis using ids C(3) planned_first[of ps] by auto
  qed
  ultimately show ?thesis by blast
qed

theorem plan_mesh_peers_correct_witness:
  "mr_id ` set (plan_mesh_peers (upsert_stored (machine_record_seed (MachineId ''b'') (PublicKey []) (OverlayIp []) None [''e''])
      0 peer_state_map_new) (MachineId ''a'')) = {MachineId ''b''}"
proof -
  let ?s = "upsert_stored (machine_record_seed (MachineId ''b'') (PublicKey []) (OverlayIp []) None [''e'']) 0 peer_state_map_new"
  have "peer_of ?s i = (if i = MachineId ''b'' then
      Some (peer_from_record (machine_record_seed (MachineId ''b'') (PublicKey []) (OverlayIp []) None [''e'']) 0) else None)" for i
    by (simp add: peer_of_def upsert_stored_def upsert_peer_def peer_state_map_new_def machine_record_seed_def)
  then have "{i. i \<noteq> MachineId ''a'' \<and> (\<exists>ps. peer_of ?s i = Some ps \<and> wg_endpoints (pe_runtime ps) \<noteq> [])} = {MachineId ''b''}"
    by (auto simp: peer_from_record_def machine_record_seed_def)
  then show ?thesis
    using plan_mesh_peers_correct[of ?s "MachineId ''a''", OF peer_map_wf_upsert_stored[OF peer_map_wf_new]]
    by metis
qed

section \<open>Properties of the ranking\<close>

text \<open>
  C37. Ranking by probes picks a best endpoint and loses none: once some endpoint answered, the peer
  keeps exactly its endpoints, reachable ones come before unreachable ones, and the active endpoint
  is a reachable one whose round trip no other reachable endpoint beats.
\<close>

theorem probe_ranking_correct:
  assumes wf: "peer_wf ps" and e: "e \<in> set (wg_endpoints (pe_runtime ps))"
    and r: "hm_get results e = Some r" "tp_status r = Probe_Reachable"
    and ps': "ps' = snd (apply_probe_results results now ps)"
  shows "mset (wg_endpoints (pe_runtime ps')) = mset (wg_endpoints (pe_runtime ps)) \<and>
    map ec_endpoint (pe_candidates ps') = wg_endpoints (pe_runtime ps') \<and>
    sorted_wrt (\<lambda>a b. ec_tcp_probe_status b = Probe_Reachable \<longrightarrow> ec_tcp_probe_status a = Probe_Reachable)
      (pe_candidates ps') \<and>
    (\<exists>c\<in>set (pe_candidates ps'). active_endpoint (pe_runtime ps') = Some (ec_endpoint c) \<and>
      ec_tcp_probe_status c = Probe_Reachable \<and>
      (\<forall>c'\<in>set (pe_candidates ps'). ec_tcp_probe_status c' = Probe_Reachable \<longrightarrow>
        compare_option_duration_asc (ec_last_tcp_probe_rtt c) (ec_last_tcp_probe_rtt c') \<noteq> Greater))"
proof -
  define cs where "cs = map (record_probe results) (pe_candidates ps)"
  define ranked where "ranked = sort_by compare_candidates cs"
  have "e \<in> set (map ec_endpoint (pe_candidates ps))" using wf e by (simp add: peer_wf_def)
  then obtain x where x: "x \<in> set (pe_candidates ps)" "ec_endpoint x = e" by auto
  define c0 where "c0 = record_probe results x"
  have "c0 \<in> set cs" using x by (simp add: cs_def c0_def)
  have c0: "ec_tcp_probe_status c0 = Probe_Reachable" using x r by (simp add: c0_def record_probe_def)
  have c0_mem: "c0 \<in> set ranked" using \<open>c0 \<in> set cs\<close> by (simp add: ranked_def candidates.set_sort_by)
  then obtain c rest where ranked: "ranked = c # rest" by (cases ranked) auto
  have eq: "apply_probe_results results now ps = (active_endpoint (pe_runtime ps) \<noteq> Some (ec_endpoint c),
      ps\<lparr>pe_candidates := ranked, pe_runtime := (pe_runtime ps)\<lparr>wg_endpoints := map ec_endpoint ranked,
        wg_active_endpoint := 0, wg_last_endpoint_change := now, wg_last_handshake := None,
        wg_status := Peer_Unknown\<rparr>, pe_selection_reason := TcpProbeRanking, pe_needs_ranking := False\<rparr>)"
  proof -
    have "\<exists>c\<in>set cs. ec_tcp_probe_status c = Probe_Reachable" using \<open>c0 \<in> set cs\<close> c0 by blast
    then show ?thesis
      unfolding apply_probe_results_def Let_def cs_def[symmetric] ranked_def[symmetric]
      by (simp add: ranked active_endpoint_def)
  qed
  have sorted: "sorted_wrt (\<lambda>a b. compare_candidates a b \<noteq> Greater) ranked"
    unfolding ranked_def by (rule candidates.sorted_sort_by)
  have order: "ec_tcp_probe_status b = Probe_Reachable \<longrightarrow> ec_tcp_probe_status a = Probe_Reachable"
    if "compare_candidates a b \<noteq> Greater" for a b
    using that by (cases "ec_tcp_probe_status a"; cases "ec_tcp_probe_status b") (auto simp: compare_candidates_def)
  have le: "compare_candidates c c' \<noteq> Greater" if "c' \<in> set ranked" for c'
    using sorted that ranked by (cases "c' = c") auto
  have "ec_tcp_probe_status c = Probe_Reachable" using order[OF le[OF c0_mem]] c0 by simp
  moreover have "compare_option_duration_asc (ec_last_tcp_probe_rtt c) (ec_last_tcp_probe_rtt c') \<noteq> Greater"
    if "c' \<in> set ranked" "ec_tcp_probe_status c' = Probe_Reachable" for c'
    using le[OF that(1)] that(2) calculation by (auto simp: compare_candidates_def then_with_Greater_iff)
  moreover have "sorted_wrt (\<lambda>a b. ec_tcp_probe_status b = Probe_Reachable \<longrightarrow> ec_tcp_probe_status a = Probe_Reachable) ranked"
    using sorted by (rule sorted_wrt_mono_rel[rotated]) (use order in blast)
  moreover have "mset (wg_endpoints (pe_runtime ps')) = mset (wg_endpoints (pe_runtime ps))"
    using probe_preserves(2)[OF wf] ps' by (simp add: peer_view_def)
  ultimately show ?thesis using eq ps' ranked by (simp add: active_endpoint_def)
qed

definition probe_example :: peer_state where
  "probe_example = peer_from_record
    (machine_record_seed (MachineId ''b'') (PublicKey []) (OverlayIp []) None [''x'', ''y'']) 0"

theorem probe_ranking_correct_witness:
  "mset (wg_endpoints (pe_runtime (snd (apply_probe_results
      [(''y'', \<lparr>tp_status = Probe_Reachable, tp_rtt = Some 3\<rparr>)] 5 probe_example)))) = {#''x'', ''y''#}"
proof -
  have ex: "wg_endpoints (pe_runtime probe_example) = [''x'', ''y'']" "peer_wf probe_example"
    by (simp_all add: probe_example_def peer_from_record_def machine_record_seed_def peer_wf_def)
  show ?thesis
    using probe_ranking_correct[of probe_example "''y''"
        "[(''y'', \<lparr>tp_status = Probe_Reachable, tp_rtt = Some 3\<rparr>)]"
        "\<lparr>tp_status = Probe_Reachable, tp_rtt = Some 3\<rparr>", OF ex(2) _ _ _ refl, of 5]
    by (simp add: ex(1))
qed

text \<open>
  A refresh from the device leaves no peer waiting for a ranking, so the ranking that follows it
  in the periodic tick never probes an endpoint: peers are ranked only after an event or a command.
\<close>

theorem refresh_leaves_no_ranking:
  "pending_rankings (snd (refresh_from_device_peers ds now s)) = []"
  by (auto simp: pending_rankings_def refresh_from_device_peers_def Let_def wants_ranking_def
      refresh_preserves filter_empty_conv)

end
