(* ===== verification/Peer_Sync.thy ===== *)
theory Peer_Sync
  imports Peer_State
begin

text \<open>
  The peer-sync task, \<open>mesh/tasks/peer_sync.rs\<close> of \<open>crates/ployz-orchestrator/src\<close>, as a transition
  system. Its state is the map of peers together with the list last handed to
  \<open>MeshNetwork::set_peers\<close>, whose outcome the task only logs. Each arm of the task's \<open>select!\<close> is a
  rule of \<open>peer_sync_step\<close>. What the task reads from outside is universally quantified in the rules:
  the clock, the peers read from the device (none when reading fails) and the outcome of probing a
  list of endpoints.
\<close>

type_synonym prober = "string list \<Rightarrow> (string, tcp_probe_result) hash_map"

datatype peer_sync_command = UpsertTransient machine_record | RemoveTransient machine_id | TickNow

record sync_state =
  sy_peers :: peer_state_map
  sy_applied :: "machine_record list"

definition sync_peers :: "machine_id \<Rightarrow> sync_state \<Rightarrow> sync_state" where
  "sync_peers local s = s\<lparr>sy_applied := plan_mesh_peers (sy_peers s) local\<rparr>"

definition read_device_peers :: "('e, device_peer list) result \<Rightarrow> device_peer list" where
  "read_device_peers r = (case r of Inr peers \<Rightarrow> peers | Inl _ \<Rightarrow> [])"

definition rank_one :: "prober \<Rightarrow> instant \<Rightarrow> machine_id \<times> string list \<Rightarrow> bool \<times> peer_state_map \<Rightarrow> bool \<times> peer_state_map" where
  "rank_one probe now p acc =
    (case p of (i, endpoints) \<Rightarrow> case acc of (changed, s) \<Rightarrow>
      case map_apply_probe_results i (probe endpoints) now s of
        (c, s') \<Rightarrow> (changed \<or> c, s'))"

definition rank_pending_peers :: "prober \<Rightarrow> instant \<Rightarrow> peer_state_map \<Rightarrow> bool \<times> peer_state_map" where
  "rank_pending_peers probe now s = fold (rank_one probe now) (pending_rankings s) (False, s)"

definition peer_sync_tick ::
    "machine_id \<Rightarrow> instant \<Rightarrow> ('e, device_peer list) result \<Rightarrow> prober \<Rightarrow> instant \<Rightarrow> sync_state \<Rightarrow> sync_state" where
  "peer_sync_tick local now device probe now' s =
    (let (refreshed, m) = refresh_from_device_peers (read_device_peers device) now (sy_peers s);
         (ranked, m') = rank_pending_peers probe now' m;
         s' = s\<lparr>sy_peers := m'\<rparr>
     in if refreshed \<or> ranked then sync_peers local s' else s')"

definition rank_and_sync :: "machine_id \<Rightarrow> prober \<Rightarrow> instant \<Rightarrow> peer_state_map \<Rightarrow> sync_state \<Rightarrow> sync_state" where
  "rank_and_sync local probe now m s =
    sync_peers local (s\<lparr>sy_peers := snd (rank_pending_peers probe now m)\<rparr>)"

definition peer_sync_start ::
    "machine_record list \<Rightarrow> machine_record list \<Rightarrow> machine_id \<Rightarrow> instant \<Rightarrow> ('e, device_peer list) result \<Rightarrow>
     prober \<Rightarrow> instant \<Rightarrow> machine_record list \<Rightarrow> sync_state" where
  "peer_sync_start snapshot bootstrap_peers local now device probe now' applied =
    (let m0 = init_from_snapshot snapshot now peer_state_map_new;
         m1 = fold (\<lambda>r m. if mr_id r \<noteq> local then upsert_transient r now m else m) bootstrap_peers m0;
         m2 = seed_from_device_peers (read_device_peers device) now m1
     in rank_and_sync local probe now' m2 \<lparr>sy_peers = m2, sy_applied = applied\<rparr>)"

definition peer_sync_event :: "machine_id \<Rightarrow> machine_event \<Rightarrow> instant \<Rightarrow> prober \<Rightarrow> instant \<Rightarrow> sync_state \<Rightarrow> sync_state" where
  "peer_sync_event local ev now probe now' s =
    rank_and_sync local probe now' (apply_event ev now (sy_peers s)) s"

definition peer_sync_command_step ::
    "machine_id \<Rightarrow> peer_sync_command \<Rightarrow> instant \<Rightarrow> ('e, device_peer list) result \<Rightarrow> prober \<Rightarrow> instant \<Rightarrow>
     sync_state \<Rightarrow> sync_state" where
  "peer_sync_command_step local command now device probe now' s =
    (case command of
       UpsertTransient r \<Rightarrow> rank_and_sync local probe now' (upsert_transient r now (sy_peers s)) s
     | RemoveTransient i \<Rightarrow> rank_and_sync local probe now' (remove_transient i (sy_peers s)) s
     | TickNow \<Rightarrow> peer_sync_tick local now device probe now' s)"

inductive peer_sync_step :: "machine_id \<Rightarrow> sync_state \<Rightarrow> sync_state \<Rightarrow> bool" for local where
  tick: "peer_sync_step local s (peer_sync_tick local now (device :: (string, device_peer list) result) probe now' s)"
| event: "peer_sync_step local s (peer_sync_event local ev now probe now' s)"
| command: "peer_sync_step local s
    (peer_sync_command_step local c now (device :: (string, device_peer list) result) probe now' s)"

inductive peer_sync_reachable :: "machine_id \<Rightarrow> sync_state \<Rightarrow> bool" for local where
  start: "peer_sync_reachable local (peer_sync_start snapshot bootstrap_peers local now
    (device :: (string, device_peer list) result) probe now' applied)"
| step: "peer_sync_reachable local s \<Longrightarrow> peer_sync_step local s s' \<Longrightarrow> peer_sync_reachable local s'"

definition sync_inv :: "machine_id \<Rightarrow> sync_state \<Rightarrow> bool" where
  "sync_inv local s \<longleftrightarrow> peer_map_wf (sy_peers s) \<and>
    map record_view (sy_applied s) = map record_view (plan_mesh_peers (sy_peers s) local)"

definition exactly_applied :: "machine_id \<Rightarrow> sync_state \<Rightarrow> bool" where
  "exactly_applied local s \<longleftrightarrow> sy_applied s = plan_mesh_peers (sy_peers s) local"

section \<open>The plan depends only on the peers' views\<close>

definition map_view :: "(machine_id, peer_state) hash_map \<Rightarrow> (machine_id \<times> peer_view) list" where
  "map_view m = map (\<lambda>(k, ps). (k, peer_view ps)) m"

lemma view_eq_fields:
  "peer_view a = peer_view b \<Longrightarrow> pe_id a = pe_id b \<and>
    (wg_endpoints (pe_runtime a) = [] \<longleftrightarrow> wg_endpoints (pe_runtime b) = [])"
  by (auto simp: peer_view_def simp flip: mset_zero_iff)

lemma map_view_values:
  "map_view m = map_view m' \<Longrightarrow> list_all2 (\<lambda>a b. peer_view a = peer_view b) (hm_values m) (hm_values m')"
  by (auto simp: map_view_def hm_values_def list_all2_conv_all_nth map_equality_iff split_beta)

lemma map_view_contains: "map_view m = map_view m' \<Longrightarrow> hm_contains m k = hm_contains m' k"
proof -
  assume eq: "map_view m = map_view m'"
  have "map fst m = map fst m'" using arg_cong[OF eq, of "map fst"] by (simp add: map_view_def comp_def split_beta)
  then show ?thesis by (metis hm_contains_def map_of_eq_None_iff set_map)
qed

lemma filter_views:
  assumes "list_all2 (\<lambda>a b. peer_view a = peer_view b) xs ys"
    and "\<And>a b. peer_view a = peer_view b \<Longrightarrow> P a \<longleftrightarrow> Q b"
  shows "list_all2 (\<lambda>a b. peer_view a = peer_view b) (filter P xs) (filter Q ys)"
  using assms(1)
proof (induction rule: list_all2_induct)
  case (Cons x xs y ys)
  then show ?case using assms(2)[of x y] by auto
qed simp

lemma plan_views:
  assumes "map_view (pm_stored s) = map_view (pm_stored s')"
    and "map_view (pm_transient s) = map_view (pm_transient s')"
  shows "map record_view (plan_mesh_peers s local) = map record_view (plan_mesh_peers s' local)"
proof -
  have views: "map peer_view xs = map peer_view ys"
    if "list_all2 (\<lambda>a b. peer_view a = peer_view b) xs ys" for xs ys
    using that by (induction rule: list_all2_induct) auto
  have st: "list_all2 (\<lambda>a b. peer_view a = peer_view b) (hm_values (pm_stored s)) (hm_values (pm_stored s'))"
    and tr: "list_all2 (\<lambda>a b. peer_view a = peer_view b) (hm_values (pm_transient s)) (hm_values (pm_transient s'))"
    using assms map_view_values by blast+
  show ?thesis
    unfolding plan_mesh_peers_def map_append map_map comp_def record_view_planned
    by (intro arg_cong2[where f = append] views filter_views st tr)
       (auto dest: view_eq_fields simp: map_view_contains[OF assms(1)])
qed

lemma map_view_map_peers:
  "(\<And>ps. peer_view (f ps) = peer_view ps) \<Longrightarrow> map_view (map_peers f m) = map_view m"
  by (simp add: map_view_def map_peers_def split_beta)

lemma map_view_insert:
  "hm_get m i = Some ps \<Longrightarrow> peer_view ps' = peer_view ps \<Longrightarrow> map_view (hm_insert i ps' m) = map_view m"
  by (induction m) (auto simp: map_view_def split: if_splits)

section \<open>Ranking keeps the invariant and the views\<close>

lemma rank_one_preserves:
  assumes "peer_map_wf s" and "rank_one probe now p (changed, s) = (changed', s')"
  shows "peer_map_wf s' \<and> map_view (pm_stored s') = map_view (pm_stored s) \<and>
    map_view (pm_transient s') = map_view (pm_transient s)"
proof -
  obtain i es where p: "p = (i, es)" by (cases p)
  have s': "s' = snd (map_apply_probe_results i (probe es) now s)"
    using assms(2) by (auto simp: rank_one_def p split: prod.splits)
  have wf: "hm_get (pm_stored s) i = Some ps \<or> hm_get (pm_transient s) i = Some ps \<Longrightarrow> peer_wf ps" for ps
    using assms(1) by (auto simp: peer_map_wf_def peers_ok_def)
  show ?thesis
    using peer_map_wf_probe[OF assms(1), of i "probe es" now] assms(1) wf unfolding s'
    by (cases rule: map_probe_cases[where s = s and i = i and results = "probe es" and now = now])
       (simp_all add: map_view_insert probe_preserves(2))
qed

lemma rank_pending_preserves:
  assumes "peer_map_wf s"
  shows "peer_map_wf (snd (rank_pending_peers probe now s)) \<and>
    map_view (pm_stored (snd (rank_pending_peers probe now s))) = map_view (pm_stored s) \<and>
    map_view (pm_transient (snd (rank_pending_peers probe now s))) = map_view (pm_transient s)"
proof -
  have "peer_map_wf (snd (fold (rank_one probe now) ps (c, s))) \<and>
    map_view (pm_stored (snd (fold (rank_one probe now) ps (c, s)))) = map_view (pm_stored s) \<and>
    map_view (pm_transient (snd (fold (rank_one probe now) ps (c, s)))) = map_view (pm_transient s)"
    if "peer_map_wf s" for ps c s
    using that
  proof (induction ps arbitrary: c s)
    case (Cons p ps)
    obtain c' s' where r: "rank_one probe now p (c, s) = (c', s')" by fastforce
    show ?case using Cons.IH[of s' c'] rank_one_preserves[OF Cons.prems r] r by simp
  qed simp
  then show ?thesis using assms by (simp add: rank_pending_peers_def)
qed

lemma sync_inv_rank_and_sync: "peer_map_wf m \<Longrightarrow> sync_inv local (rank_and_sync local probe now m s)"
  using rank_pending_preserves[of m probe now]
  by (simp add: sync_inv_def rank_and_sync_def sync_peers_def)

lemma sync_inv_tick:
  assumes "sync_inv local s"
  shows "sync_inv local (peer_sync_tick local now device probe now' s)"
proof -
  define m where "m = snd (refresh_from_device_peers (read_device_peers device) now (sy_peers s))"
  define m' where "m' = snd (rank_pending_peers probe now' m)"
  have wf: "peer_map_wf (sy_peers s)" using assms by (simp add: sync_inv_def)
  then have "peer_map_wf m" by (simp add: m_def peer_map_wf_refresh)
  note rk = rank_pending_preserves[OF this, of probe now', folded m'_def]
  have "map_view (pm_stored m) = map_view (pm_stored (sy_peers s))"
    "map_view (pm_transient m) = map_view (pm_transient (sy_peers s))"
    by (simp_all add: m_def refresh_from_device_peers_def Let_def map_view_map_peers refresh_preserves)
  then have plan: "map record_view (plan_mesh_peers m' local) = map record_view (plan_mesh_peers (sy_peers s) local)"
    by (intro plan_views) (use rk in auto)
  have "peer_sync_tick local now device probe now' s = s\<lparr>sy_peers := m'\<rparr> \<or>
      peer_sync_tick local now device probe now' s = sync_peers local (s\<lparr>sy_peers := m'\<rparr>)"
    by (simp add: peer_sync_tick_def Let_def split_beta m_def m'_def)
  then show ?thesis
    using assms rk plan by (auto simp: sync_inv_def sync_peers_def)
qed

lemma exact_event: "exactly_applied local (peer_sync_event local ev now probe now' s)"
  by (simp add: exactly_applied_def peer_sync_event_def rank_and_sync_def sync_peers_def)

lemma exact_tick:
  "fst (refresh_from_device_peers (read_device_peers device) now (sy_peers s)) \<Longrightarrow>
    exactly_applied local (peer_sync_tick local now device probe now' s)"
  by (simp add: exactly_applied_def peer_sync_tick_def sync_peers_def Let_def split_beta)

lemma sync_inv_start:
  "sync_inv local (peer_sync_start snapshot bootstrap_peers local now device probe now' applied)"
proof -
  have "peer_map_wf (fold (\<lambda>r m. if mr_id r \<noteq> local then upsert_transient r now m else m) bs m)"
    if "peer_map_wf m" for bs m
    using that by (induction bs arbitrary: m) (auto simp: peer_map_wf_upsert_transient)
  then show ?thesis
    unfolding peer_sync_start_def Let_def
    by (intro sync_inv_rank_and_sync peer_map_wf_seed)
       (simp add: peer_map_wf_init peer_state_map_new_def[THEN arg_cong, of pm_transient])
qed

lemma sync_inv_step: "peer_sync_step local s s' \<Longrightarrow> sync_inv local s \<Longrightarrow> sync_inv local s'"
proof (induction rule: peer_sync_step.induct)
  case (event s ev now probe now')
  then show ?case
    by (simp add: peer_sync_event_def sync_inv_def[of local s] sync_inv_rank_and_sync peer_map_wf_event)
next
  case (command s c now device probe now')
  then show ?case
    by (cases c)
       (simp_all add: peer_sync_command_step_def sync_inv_tick sync_inv_rank_and_sync
         peer_map_wf_upsert_transient peer_map_wf_remove sync_inv_def[of local s])
qed (simp add: sync_inv_tick)



end
