(* ===== verification/Mesh_Phase.thy ===== *)
theory Mesh_Phase
  imports Types_Model
begin

text \<open>
  The life cycle of a mesh, \<open>crates/ployz-orchestrator/src/mesh/phase.rs\<close>, and the liveness of a
  machine record, \<open>crates/ployz-orchestrator/src/machine_liveness.rs\<close>.

  \<open>transition\<close> is the source's table: the accepted pairs in the source's order, every other pair an
  error that carries the phase and the event. \<open>phase_step\<close> is the transition system it induces.
\<close>

section \<open>Phases\<close>

datatype phase = Stopped | Starting | Provisioning | Bootstrapping | Running | Stopping

datatype phase_event = UpRequested | NetworkReady | ComponentsStarted | ComponentFailed
  | SyncComplete | DetachRequested | DestroyRequested | TeardownComplete

datatype transition_error = Invalid phase phase_event | BootstrapTimeout string

fun phase_display :: "phase \<Rightarrow> string" where
  "phase_display Stopped = ''stopped''"
| "phase_display Starting = ''starting''"
| "phase_display Provisioning = ''provisioning''"
| "phase_display Bootstrapping = ''bootstrapping''"
| "phase_display Running = ''running''"
| "phase_display Stopping = ''stopping''"

fun transition :: "phase \<Rightarrow> phase_event \<Rightarrow> (transition_error, phase) result" where
  "transition Stopped UpRequested = Inr Starting"
| "transition Starting NetworkReady = Inr Provisioning"
| "transition Provisioning ComponentsStarted = Inr Bootstrapping"
| "transition Starting ComponentFailed = Inr Stopped"
| "transition Provisioning ComponentFailed = Inr Stopped"
| "transition Bootstrapping ComponentFailed = Inr Stopped"
| "transition Bootstrapping SyncComplete = Inr Running"
| "transition Running DetachRequested = Inr Stopped"
| "transition Stopped DestroyRequested = Inr Stopping"
| "transition Starting DestroyRequested = Inr Stopping"
| "transition Running DestroyRequested = Inr Stopping"
| "transition Provisioning DestroyRequested = Inr Stopping"
| "transition Bootstrapping DestroyRequested = Inr Stopping"
| "transition Stopping TeardownComplete = Inr Stopped"
| "transition current event = Inl (Invalid current event)"

definition run_events :: "phase_event list \<Rightarrow> phase \<Rightarrow> (transition_error, phase) result" where
  "run_events = fold_res (\<lambda>e p. transition p e)"

inductive phase_step :: "phase \<Rightarrow> phase \<Rightarrow> bool" where
  "transition p e = Inr q \<Longrightarrow> phase_step p q"

inductive_cases phase_stepE: "phase_step p q"

section \<open>Liveness\<close>

definition stale_heartbeat_secs :: nat where
  "stale_heartbeat_secs = 30"

datatype machine_liveness = Live_Fresh | Live_Stale | Live_Down

definition liveness :: "machine_record \<Rightarrow> timestamp \<Rightarrow> machine_liveness" where
  "liveness m now =
    (if mr_status m = Status_Down then Live_Down
     else if mr_last_heartbeat m = 0 \<or> now - mr_last_heartbeat m > stale_heartbeat_secs
     then Live_Stale
     else Live_Fresh)"

definition machine_is_fresh :: "machine_record \<Rightarrow> timestamp \<Rightarrow> bool" where
  "machine_is_fresh m now \<longleftrightarrow> liveness m now = Live_Fresh"

section \<open>Facts about the table\<close>

lemma transition_to_Running: "transition p e = Inr Running \<longleftrightarrow> p = Bootstrapping \<and> e = SyncComplete"
  by (cases p; cases e) auto

lemma transition_to_Bootstrapping:
  "transition p e = Inr Bootstrapping \<longleftrightarrow> p = Provisioning \<and> e = ComponentsStarted"
  by (cases p; cases e) auto

lemma transition_to_Provisioning:
  "transition p e = Inr Provisioning \<longleftrightarrow> p = Starting \<and> e = NetworkReady"
  by (cases p; cases e) auto

lemma transition_to_Starting: "transition p e = Inr Starting \<longleftrightarrow> p = Stopped \<and> e = UpRequested"
  by (cases p; cases e) auto

lemmas transition_targets = transition_to_Running transition_to_Bootstrapping
  transition_to_Provisioning transition_to_Starting

lemma run_events_snoc:
  "run_events (es @ [e]) p = Inr r \<longleftrightarrow> (\<exists>q. run_events es p = Inr q \<and> transition q e = Inr r)"
  by (simp add: run_events_def fold_res_append)

lemma run_events_last:
  assumes "run_events es Stopped = Inr q" and "q \<noteq> Stopped"
  obtains es' e p where "es = es' @ [e]" "run_events es' Stopped = Inr p" "transition p e = Inr q"
proof (cases es rule: rev_cases)
  case Nil
  then show ?thesis using assms by (simp add: run_events_def)
next
  case (snoc es' e)
  then show ?thesis using assms that by (auto simp: run_events_snoc)
qed

text \<open>
  The mesh is only ever running after a complete start: whatever the history of accepted events
  since the stopped state, if it ends in \<open>Running\<close> its last four events are the request, the ready
  network, the started components and the completed sync, in this order.
\<close>

theorem running_needs_full_start:
  assumes "run_events es Stopped = Inr Running"
  shows "\<exists>pre. es = pre @ [UpRequested, NetworkReady, ComponentsStarted, SyncComplete]"
proof -
  from assms obtain es1 where 1: "es = es1 @ [SyncComplete]" "run_events es1 Stopped = Inr Bootstrapping"
    by (rule run_events_last) (auto simp: transition_targets)
  from 1(2) obtain es2 where 2: "es1 = es2 @ [ComponentsStarted]" "run_events es2 Stopped = Inr Provisioning"
    by (rule run_events_last) (auto simp: transition_targets)
  from 2(2) obtain es3 where 3: "es2 = es3 @ [NetworkReady]" "run_events es3 Stopped = Inr Starting"
    by (rule run_events_last) (auto simp: transition_targets)
  from 3(2) obtain es4 where 4: "es3 = es4 @ [UpRequested]"
    by (rule run_events_last) (auto simp: transition_targets)
  show ?thesis using 1 2 3 4 by simp
qed

theorem running_needs_full_start_witness:
  "run_events [UpRequested, ComponentFailed, UpRequested, NetworkReady, ComponentsStarted, SyncComplete] Stopped
     = Inr Running \<and>
   (\<exists>pre. [UpRequested, ComponentFailed, UpRequested, NetworkReady, ComponentsStarted, SyncComplete]
     = pre @ [UpRequested, NetworkReady, ComponentsStarted, SyncComplete])"
proof -
  have run: "run_events [UpRequested, ComponentFailed, UpRequested, NetworkReady, ComponentsStarted, SyncComplete]
      Stopped = Inr Running"
    by (simp add: run_events_def)
  show ?thesis using running_needs_full_start[OF run] run by blast
qed

lemma phase_step_to_Stopped: "phase_step\<^sup>*\<^sup>* p Stopped"
proof -
  have stop: "phase_step\<^sup>*\<^sup>* Stopping Stopped" 
    by (rule r_into_rtranclp) (rule phase_step.intros[of _ TeardownComplete], simp)
  have "p = Stopping \<or> phase_step p Stopping"
    by (cases p) (auto intro: phase_step.intros[of _ DestroyRequested])
  then show ?thesis using stop by (auto intro: converse_rtranclp_into_rtranclp)
qed

lemma phase_step_from_Stopped: "phase_step\<^sup>*\<^sup>* Stopped p"
proof -
  have steps: "phase_step Stopped Starting" "phase_step Starting Provisioning"
    "phase_step Provisioning Bootstrapping" "phase_step Bootstrapping Running" "phase_step Stopped Stopping"
    by (auto intro: phase_step.intros[of _ UpRequested] phase_step.intros[of _ NetworkReady]
        phase_step.intros[of _ ComponentsStarted] phase_step.intros[of _ SyncComplete]
        phase_step.intros[of _ DestroyRequested])
  then show ?thesis by (cases p) (meson rtranclp.rtrancl_refl rtranclp.rtrancl_into_rtrancl)+
qed

text \<open>
  The transition table has no dead end: from every phase every phase can be reached by accepted
  events, so a mesh can always be stopped and started again.
\<close>

theorem phases_strongly_connected: "phase_step\<^sup>*\<^sup>* p q"
  using phase_step_to_Stopped phase_step_from_Stopped by (rule rtranclp_trans)

section \<open>Facts about liveness\<close>

lemma machine_is_fresh_iff:
  "machine_is_fresh m now \<longleftrightarrow>
     mr_status m \<noteq> Status_Down \<and> 0 < mr_last_heartbeat m \<and> now \<le> mr_last_heartbeat m + 30"
  by (auto simp: machine_is_fresh_def liveness_def stale_heartbeat_secs_def)

lemma fresh_antimono: "machine_is_fresh m now \<Longrightarrow> earlier \<le> now \<Longrightarrow> machine_is_fresh m earlier"
  by (auto simp: machine_is_fresh_def liveness_def stale_heartbeat_secs_def split: if_splits)

end
