(* ===== verification/Service_Spec.thy ===== *)
theory Service_Spec
  imports Types_Model
begin

unbundle bit_operations_syntax

text \<open>
  The deploy manifest and the service specification, \<open>crates/ployz-types/src/spec.rs\<close>: the data the
  user writes, its validation, the durations of readiness probes and the hash that names a revision.

  Every \<open>Err\<close> of the source is a constructor of \<open>spec_error\<close> with the names the message mentions.
  \<open>serde_json::to_string\<close> is an argument. A \<open>Duration\<close> is a number of milliseconds, the only unit
  this file builds one from.
\<close>

section \<open>Data\<close>

definition ns_system :: namespace where "ns_system = Namespace ''system''"

definition ns_default :: namespace where "ns_default = Namespace ''default''"

definition is_system :: "namespace \<Rightarrow> bool" where
  "is_system ns \<longleftrightarrow> namespace_str ns = ''system''"

datatype placement = Global | Replicated u16

datatype network_mode = Net_Overlay | Net_Service string | Net_Host | Net_None

record managed_volume_spec =
  mv_name :: string
  mv_driver :: "string option"
  mv_options :: "(string, string) btree_map"

datatype volume_source = Volume_Bind string | Volume_Managed managed_volume_spec | Volume_Tmpfs

record volume_mount =
  vm_source :: volume_source
  vm_target :: string
  vm_readonly :: bool

datatype port_protocol = Proto_Tcp | Proto_Udp

datatype pull_policy = Pull_IfNotPresent | Pull_Always | Pull_Never

datatype rollout_strategy = Rollout_Recreate | Rollout_BlueGreen

datatype restart_policy = Restart_UnlessStopped | Restart_Always | Restart_OnFailure | Restart_No

record resources =
  rc_cpu_millicores :: "32 word option"
  rc_memory_bytes :: "64 word option"

record container_spec =
  cs_image :: string
  cs_command :: "string list option"
  cs_entrypoint :: "string list option"
  cs_env :: "(string, string) btree_map"
  cs_volumes :: "volume_mount list"
  cs_cap_add :: "string list"
  cs_cap_drop :: "string list"
  cs_privileged :: bool
  cs_user :: "string option"
  cs_pull_policy :: pull_policy
  cs_resources :: resources
  cs_sysctls :: "(string, string) btree_map"

record service_port =
  svp_name :: string
  svp_container_port :: u16
  svp_protocol :: port_protocol

record published_port =
  pp_service_port :: string
  pp_host_port :: u16
  pp_host_ip :: "string option"

record http_route =
  hr_service_port :: string
  hr_hostnames :: "string list"
  hr_path_prefix :: string

record tcp_route =
  tr_service_port :: string
  tr_listen_port :: u16

datatype route_spec = Route_Http http_route | Route_Tcp tcp_route

datatype readiness_check = Check_Http string string | Check_Tcp string | Check_Exec "string list"

record readiness_probe =
  rp_check :: readiness_check
  rp_interval :: "string option"
  rp_timeout :: "string option"
  rp_retries :: "32 word option"
  rp_start_period :: "string option"

record service_spec =
  ss_name :: string
  ss_placement :: placement
  ss_template :: container_spec
  ss_network :: network_mode
  ss_service_ports :: "service_port list"
  ss_publish :: "published_port list"
  ss_routes :: "route_spec list"
  ss_readiness :: "readiness_probe option"
  ss_rollout :: rollout_strategy
  ss_labels :: "(string, string) btree_map"
  ss_stop_grace_period :: "string option"
  ss_restart :: restart_policy

record deploy_manifest =
  dm_namespace :: namespace
  dm_services :: "service_spec list"

section \<open>Errors\<close>

datatype duration_error = Duration_Empty | Duration_Not_Integer string | Duration_Too_Large string
  | Duration_Unsupported_Suffix string

datatype spec_error =
    Manifest_Empty_Namespace
  | Manifest_No_Services
  | Manifest_Duplicate_Service string
  | Service_Empty_Name
  | Service_No_Replica string
  | Service_Port_Empty_Name string
  | Service_Duplicate_Port string string
  | Service_Publishes_Unknown_Port string string
  | Service_Http_Route_Unknown_Port string string
  | Service_Tcp_Route_Unknown_Port string string
  | Service_Readiness_Unknown_Port string string
  | Service_Exec_Without_Argument string
  | Readiness_Interval string duration_error
  | Readiness_Zero_Interval string
  | Readiness_Timeout string duration_error
  | Readiness_Zero_Timeout string
  | Readiness_Start_Period string duration_error
  | Readiness_Zero_Retries string
  | BlueGreen_Without_Readiness string
  | BlueGreen_With_Published_Ports string
  | BlueGreen_With_Host_Network string
  | BlueGreen_With_Bind_Mount string

section \<open>Durations\<close>

definition duration_units :: "(string \<times> nat) list" where
  "duration_units = [(''ms'', 1), (''s'', 1000), (''m'', 60000), (''h'', 3600000)]"

fun parse_units :: "string \<Rightarrow> string \<Rightarrow> (string \<times> nat) list \<Rightarrow> (duration_error, nat) result" where
  "parse_units value trimmed [] = Inl (Duration_Unsupported_Suffix value)"
| "parse_units value trimmed ((sfx, multiplier_ms) # units) =
    (case strip_suffix sfx trimmed of
       None \<Rightarrow> parse_units value trimmed units
     | Some raw_value \<Rightarrow>
         bind_res (ok_or (parse_uint 64 (trim raw_value)) (Duration_Not_Integer value))
           (\<lambda>amount. if amount * multiplier_ms < 2 ^ 64 then Inr (amount * multiplier_ms)
                     else Inl (Duration_Too_Large value)))"

definition parse_duration :: "string \<Rightarrow> (duration_error, nat) result" where
  "parse_duration value =
    (let trimmed = trim value in
     if trimmed = [] then Inl Duration_Empty else parse_units value trimmed duration_units)"

definition duration_or :: "string option \<Rightarrow> nat \<Rightarrow> (duration_error, nat) result" where
  "duration_or value fallback = (case value of Some s \<Rightarrow> parse_duration s | None \<Rightarrow> Inr fallback)"

definition interval_duration :: "readiness_probe \<Rightarrow> (duration_error, nat) result" where
  "interval_duration p = duration_or (rp_interval p) 30000"

definition timeout_duration :: "readiness_probe \<Rightarrow> (duration_error, nat) result" where
  "timeout_duration p = duration_or (rp_timeout p) 30000"

definition start_period_duration :: "readiness_probe \<Rightarrow> (duration_error, nat) result" where
  "start_period_duration p = duration_or (rp_start_period p) 0"

definition retries :: "readiness_probe \<Rightarrow> 32 word" where
  "retries p = unwrap_or (rp_retries p) 3"

definition cpu_nano :: "resources \<Rightarrow> int option" where
  "cpu_nano r = map_option (\<lambda>m. uint m * 1000000) (rc_cpu_millicores r)"

section \<open>Validation\<close>

definition readiness_validate :: "string \<Rightarrow> readiness_probe \<Rightarrow> (spec_error, unit) result" where
  "readiness_validate service p =
    bind_res (map_err (Readiness_Interval service) (interval_duration p)) (\<lambda>interval.
    bind_res (guard_res (interval \<noteq> 0) (Readiness_Zero_Interval service)) (\<lambda>_.
    bind_res (map_err (Readiness_Timeout service) (timeout_duration p)) (\<lambda>timeout.
    bind_res (guard_res (timeout \<noteq> 0) (Readiness_Zero_Timeout service)) (\<lambda>_.
    bind_res (map_err (Readiness_Start_Period service) (start_period_duration p)) (\<lambda>_.
    guard_res (retries p \<noteq> 0) (Readiness_Zero_Retries service))))))"

definition validate_placement :: "service_spec \<Rightarrow> (spec_error, unit) result" where
  "validate_placement s =
    (case ss_placement s of
       Global \<Rightarrow> Inr ()
     | Replicated n \<Rightarrow> guard_res (n \<noteq> 0) (Service_No_Replica (ss_name s)))"

definition collect_port :: "string \<Rightarrow> service_port \<Rightarrow> string list \<Rightarrow> (spec_error, string list) result" where
  "collect_port service port seen =
    (if trim (svp_name port) = [] then Inl (Service_Port_Empty_Name service)
     else if svp_name port \<in> set seen then Inl (Service_Duplicate_Port service (svp_name port))
     else Inr (bs_insert (svp_name port) seen))"

definition validate_publish :: "string \<Rightarrow> string list \<Rightarrow> published_port \<Rightarrow> (spec_error, unit) result" where
  "validate_publish service seen_ports p =
    guard_res (pp_service_port p \<in> set seen_ports)
      (Service_Publishes_Unknown_Port service (pp_service_port p))"

definition validate_route :: "string \<Rightarrow> string list \<Rightarrow> route_spec \<Rightarrow> (spec_error, unit) result" where
  "validate_route service seen_ports r =
    (case r of
       Route_Http h \<Rightarrow> guard_res (hr_service_port h \<in> set seen_ports)
         (Service_Http_Route_Unknown_Port service (hr_service_port h))
     | Route_Tcp t \<Rightarrow> guard_res (tr_service_port t \<in> set seen_ports)
         (Service_Tcp_Route_Unknown_Port service (tr_service_port t)))"

definition validate_check :: "string \<Rightarrow> string list \<Rightarrow> readiness_check \<Rightarrow> (spec_error, unit) result" where
  "validate_check service seen_ports c =
    (case c of
       Check_Http port _ \<Rightarrow> guard_res (port \<in> set seen_ports) (Service_Readiness_Unknown_Port service port)
     | Check_Tcp port \<Rightarrow> guard_res (port \<in> set seen_ports) (Service_Readiness_Unknown_Port service port)
     | Check_Exec command \<Rightarrow> guard_res (command \<noteq> []) (Service_Exec_Without_Argument service))"

definition is_bind_mount :: "volume_mount \<Rightarrow> bool" where
  "is_bind_mount m = (case vm_source m of Volume_Bind _ \<Rightarrow> True | _ \<Rightarrow> False)"

definition validate_rollout :: "service_spec \<Rightarrow> (spec_error, unit) result" where
  "validate_rollout s =
    (case ss_rollout s of
       Rollout_Recreate \<Rightarrow> Inr ()
     | Rollout_BlueGreen \<Rightarrow>
         bind_res (guard_res (ss_readiness s \<noteq> None) (BlueGreen_Without_Readiness (ss_name s))) (\<lambda>_.
         bind_res (guard_res (ss_publish s = []) (BlueGreen_With_Published_Ports (ss_name s))) (\<lambda>_.
         bind_res (guard_res (ss_network s \<noteq> Net_Host) (BlueGreen_With_Host_Network (ss_name s))) (\<lambda>_.
         guard_res (\<not> list_ex is_bind_mount (cs_volumes (ss_template s)))
           (BlueGreen_With_Bind_Mount (ss_name s))))))"

definition service_validate :: "service_spec \<Rightarrow> (spec_error, unit) result" where
  "service_validate s =
    bind_res (guard_res (trim (ss_name s) \<noteq> []) Service_Empty_Name) (\<lambda>_.
    bind_res (validate_placement s) (\<lambda>_.
    bind_res (fold_res (collect_port (ss_name s)) (ss_service_ports s) []) (\<lambda>seen_ports.
    bind_res (check_all (validate_publish (ss_name s) seen_ports) (ss_publish s)) (\<lambda>_.
    bind_res (check_all (validate_route (ss_name s) seen_ports) (ss_routes s)) (\<lambda>_.
    bind_res (case ss_readiness s of
                None \<Rightarrow> Inr ()
              | Some p \<Rightarrow> bind_res (validate_check (ss_name s) seen_ports (rp_check p))
                           (\<lambda>_. readiness_validate (ss_name s) p)) (\<lambda>_.
    validate_rollout s))))))"

definition validate_next_service :: "service_spec \<Rightarrow> string list \<Rightarrow> (spec_error, string list) result" where
  "validate_next_service s seen =
    (if ss_name s \<in> set seen then Inl (Manifest_Duplicate_Service (ss_name s))
     else bind_res (service_validate s) (\<lambda>_. Inr (bs_insert (ss_name s) seen)))"

definition manifest_validate :: "deploy_manifest \<Rightarrow> (spec_error, unit) result" where
  "manifest_validate m =
    bind_res (guard_res (trim (namespace_str (dm_namespace m)) \<noteq> []) Manifest_Empty_Namespace) (\<lambda>_.
    bind_res (guard_res (dm_services m \<noteq> []) Manifest_No_Services) (\<lambda>_.
    bind_res (fold_res validate_next_service (dm_services m) []) (\<lambda>_. Inr ())))"

section \<open>Names and hashes\<close>

definition fqn :: "namespace \<Rightarrow> service_spec \<Rightarrow> string" where
  "fqn ns s = namespace_str ns @ ''/'' @ ss_name s"

definition fnv_offset :: "64 word" where
  "fnv_offset = 0xcbf29ce484222325"

definition fnv_prime :: "64 word" where
  "fnv_prime = 0x00000100000001b3"

definition fnv_step :: "char \<Rightarrow> 64 word \<Rightarrow> 64 word" where
  "fnv_step c hash = (hash XOR word_of_nat (of_char c)) * fnv_prime"

definition stable_hash :: "string \<Rightarrow> 64 word" where
  "stable_hash bytes = fold fnv_step bytes fnv_offset"

definition stable_hash_hex :: "string \<Rightarrow> string" where
  "stable_hash_hex bytes = fmt_hex_pad 16 (unat (stable_hash bytes))"

definition canonical_revision_json ::
    "(service_spec \<Rightarrow> ('e, string) result) \<Rightarrow> service_spec \<Rightarrow> ('e, string) result" where
  "canonical_revision_json to_json s = to_json s"

definition revision_hash ::
    "(service_spec \<Rightarrow> ('e, string) result) \<Rightarrow> service_spec \<Rightarrow> ('e, string) result" where
  "revision_hash to_json s =
    bind_res (canonical_revision_json to_json s) (\<lambda>json. Inr (stable_hash_hex json))"

section \<open>What a valid manifest is\<close>

definition service_port_names :: "service_spec \<Rightarrow> string set" where
  "service_port_names s = svp_name ` set (ss_service_ports s)"

definition route_port :: "route_spec \<Rightarrow> string" where
  "route_port r = (case r of Route_Http h \<Rightarrow> hr_service_port h | Route_Tcp t \<Rightarrow> tr_service_port t)"

definition duration_ok :: "string option \<Rightarrow> bool \<Rightarrow> bool" where
  "duration_ok v positive \<longleftrightarrow>
    (\<forall>s. v = Some s \<longrightarrow> (\<exists>d. parse_duration s = Inr d \<and> (positive \<longrightarrow> 0 < d)))"

definition readiness_ok :: "service_spec \<Rightarrow> readiness_probe \<Rightarrow> bool" where
  "readiness_ok s p \<longleftrightarrow>
    (case rp_check p of
       Check_Http port _ \<Rightarrow> port \<in> service_port_names s
     | Check_Tcp port \<Rightarrow> port \<in> service_port_names s
     | Check_Exec command \<Rightarrow> command \<noteq> []) \<and>
    duration_ok (rp_interval p) True \<and> duration_ok (rp_timeout p) True \<and>
    duration_ok (rp_start_period p) False \<and> rp_retries p \<noteq> Some 0"

definition service_ok :: "service_spec \<Rightarrow> bool" where
  "service_ok s \<longleftrightarrow>
    trim (ss_name s) \<noteq> [] \<and> ss_placement s \<noteq> Replicated 0 \<and>
    distinct (map svp_name (ss_service_ports s)) \<and>
    (\<forall>p\<in>set (ss_service_ports s). trim (svp_name p) \<noteq> []) \<and>
    (\<forall>p\<in>set (ss_publish s). pp_service_port p \<in> service_port_names s) \<and>
    (\<forall>r\<in>set (ss_routes s). route_port r \<in> service_port_names s) \<and>
    (\<forall>p. ss_readiness s = Some p \<longrightarrow> readiness_ok s p) \<and>
    (ss_rollout s = Rollout_BlueGreen \<longrightarrow>
      ss_readiness s \<noteq> None \<and> ss_publish s = [] \<and> ss_network s \<noteq> Net_Host \<and>
      (\<forall>m\<in>set (cs_volumes (ss_template s)). \<forall>path. vm_source m \<noteq> Volume_Bind path))"

definition manifest_ok :: "deploy_manifest \<Rightarrow> bool" where
  "manifest_ok m \<longleftrightarrow>
    trim (namespace_str (dm_namespace m)) \<noteq> [] \<and> dm_services m \<noteq> [] \<and>
    distinct (map ss_name (dm_services m)) \<and> (\<forall>s\<in>set (dm_services m). service_ok s)"

section \<open>Validation accepts exactly the valid manifests\<close>

lemma duration_or_nonzero:
  "0 < d0 \<Longrightarrow> (\<exists>d. duration_or v d0 = Inr d \<and> d \<noteq> 0) \<longleftrightarrow> duration_ok v True"
  by (auto simp: duration_or_def duration_ok_def split: option.split)

lemma duration_or_any: "(\<exists>d. duration_or v d0 = Inr d) \<longleftrightarrow> duration_ok v False"
  by (auto simp: duration_or_def duration_ok_def split: option.split)

lemma retries_nonzero: "retries p \<noteq> 0 \<longleftrightarrow> rp_retries p \<noteq> Some 0"
  by (cases "rp_retries p") (auto simp: retries_def)

lemma readiness_validate_iff:
  "readiness_validate service p = Inr () \<longleftrightarrow>
    duration_ok (rp_interval p) True \<and> duration_ok (rp_timeout p) True \<and>
    duration_ok (rp_start_period p) False \<and> rp_retries p \<noteq> Some 0"
  unfolding readiness_validate_def interval_duration_def timeout_duration_def start_period_duration_def
  by (auto simp: retries_nonzero simp flip: duration_or_nonzero[of 30000] duration_or_any[of _ 0])

lemma collect_port_Inr:
  "collect_port service port seen = Inr seen' \<longleftrightarrow>
    trim (svp_name port) \<noteq> [] \<and> svp_name port \<notin> set seen \<and> seen' = bs_insert (svp_name port) seen"
  by (auto simp: collect_port_def)

lemma collect_ports_iff:
  "(\<exists>seen'. fold_res (collect_port service) ports seen = Inr seen') \<longleftrightarrow>
    (\<forall>p\<in>set ports. trim (svp_name p) \<noteq> [] \<and> svp_name p \<notin> set seen) \<and> distinct (map svp_name ports)"
proof (induction ports arbitrary: seen)
  case (Cons p ports)
  have "(\<exists>seen'. fold_res (collect_port service) (p # ports) seen = Inr seen') \<longleftrightarrow>
      trim (svp_name p) \<noteq> [] \<and> svp_name p \<notin> set seen \<and>
      (\<exists>seen'. fold_res (collect_port service) ports (bs_insert (svp_name p) seen) = Inr seen')"
    by (auto simp: collect_port_Inr)
  then show ?case unfolding Cons.IH by (auto simp: image_iff)
qed simp

lemma collect_ports_set:
  "fold_res (collect_port service) ports seen = Inr seen' \<Longrightarrow> set seen' = svp_name ` set ports \<union> set seen"
  by (induction ports arbitrary: seen) (auto simp: collect_port_Inr)

lemma validate_rollout_iff:
  "validate_rollout s = Inr () \<longleftrightarrow>
    (ss_rollout s = Rollout_BlueGreen \<longrightarrow>
      ss_readiness s \<noteq> None \<and> ss_publish s = [] \<and> ss_network s \<noteq> Net_Host \<and>
      (\<forall>m\<in>set (cs_volumes (ss_template s)). \<forall>path. vm_source m \<noteq> Volume_Bind path))"
  by (auto simp: validate_rollout_def list_ex_iff is_bind_mount_def
      split: rollout_strategy.splits volume_source.splits)

lemma service_validate_iff: "service_validate s = Inr () \<longleftrightarrow> service_ok s"
proof -
  let ?ports = "fold_res (collect_port (ss_name s)) (ss_service_ports s) []"
  show ?thesis
  proof (cases ?ports)
    case (Inl e)
    then have "\<not> (\<exists>seen. ?ports = Inr seen)" by simp
    then have "\<not> service_ok s" unfolding collect_ports_iff service_ok_def by auto
    moreover have "service_validate s \<noteq> Inr ()" using Inl by (auto simp: service_validate_def)
    ultimately show ?thesis by blast
  next
    case (Inr seen)
    then have seen: "set seen = service_port_names s"
      using collect_ports_set by (fastforce simp: service_port_names_def)
    have "distinct (map svp_name (ss_service_ports s)) \<and> (\<forall>p\<in>set (ss_service_ports s). trim (svp_name p) \<noteq> [])"
      using collect_ports_iff[of "ss_name s" "ss_service_ports s" "[]"] Inr by auto
    moreover have "validate_placement s = Inr () \<longleftrightarrow> ss_placement s \<noteq> Replicated 0"
      by (auto simp: validate_placement_def split: placement.split)
    moreover have "(\<forall>p\<in>set (ss_publish s). validate_publish (ss_name s) seen p = Inr ()) \<longleftrightarrow>
        (\<forall>p\<in>set (ss_publish s). pp_service_port p \<in> service_port_names s)"
      by (simp add: validate_publish_def seen)
    moreover have "(\<forall>r\<in>set (ss_routes s). validate_route (ss_name s) seen r = Inr ()) \<longleftrightarrow>
        (\<forall>r\<in>set (ss_routes s). route_port r \<in> service_port_names s)"
      by (intro ball_cong refl) (simp add: validate_route_def route_port_def seen split: route_spec.split)
    moreover have "(case ss_readiness s of None \<Rightarrow> Inr () | Some p \<Rightarrow>
          bind_res (validate_check (ss_name s) seen (rp_check p)) (\<lambda>_. readiness_validate (ss_name s) p)) = Inr ()
        \<longleftrightarrow> (\<forall>p. ss_readiness s = Some p \<longrightarrow> readiness_ok s p)"
      by (auto simp: readiness_ok_def readiness_validate_iff validate_check_def seen
          split: option.split readiness_check.split)
    ultimately show ?thesis
      unfolding service_validate_def service_ok_def validate_rollout_iff[symmetric] by (auto simp: Inr)
  qed
qed

lemma validate_services_iff:
  "(\<exists>seen'. fold_res validate_next_service ss seen = Inr seen') \<longleftrightarrow>
    (\<forall>s\<in>set ss. service_ok s \<and> ss_name s \<notin> set seen) \<and> distinct (map ss_name ss)"
proof (induction ss arbitrary: seen)
  case (Cons s ss)
  have "(\<exists>seen'. fold_res validate_next_service (s # ss) seen = Inr seen') \<longleftrightarrow>
      service_ok s \<and> ss_name s \<notin> set seen \<and>
      (\<exists>seen'. fold_res validate_next_service ss (bs_insert (ss_name s) seen) = Inr seen')"
    by (auto simp: validate_next_service_def service_validate_iff[symmetric])
  then show ?case unfolding Cons.IH by (auto simp: image_iff)
qed simp

text \<open>
  C29. Validation of a deploy manifest accepts exactly the manifests that are well formed: a namespace
  and at least one service, service names distinct and not blank, at least one replica, port names
  distinct and not blank, every published port, route and probe naming a declared port, probe
  durations that parse with a positive interval and timeout, and blue-green rollouts only for
  services with a probe and without host ports, host networking or bind mounts.
\<close>

theorem manifest_validate_iff: "manifest_validate m = Inr () \<longleftrightarrow> manifest_ok m"
  using validate_services_iff[of "dm_services m" "[]"]
  by (auto simp: manifest_validate_def manifest_ok_def)

lemma manifest_validate_distinct: "manifest_validate m = Inr u \<Longrightarrow> distinct (map ss_name (dm_services m))"
  using validate_services_iff[of "dm_services m" "[]"] by (auto simp: manifest_validate_def)

section \<open>Durations\<close>

lemma digit_not_space:
  assumes "is_ascii_digit c"
  shows "c \<notin> hd ` set white_space" "c \<notin> last ` set white_space"
  using assms by (auto simp: is_ascii_digit_def white_space_def of_char_less_eq)

lemma unit_not_space: "c \<in> {CHR ''s'', CHR ''m'', CHR ''h''} \<Longrightarrow> c \<notin> last ` set white_space"
  by (auto simp: white_space_def)

lemma trim_fmt_dec [simp]: "trim (fmt_dec n) = fmt_dec n"
proof -
  have "fmt_dec n \<noteq> []" by (simp add: fmt_dec_def)
  then show ?thesis
    by (intro trim_id digit_not_space set_fmt_dec[of _ n]) (simp_all add: fmt_dec_def)
qed

lemma trim_fmt_dec_unit:
  assumes "u \<noteq> []" "last u \<in> {CHR ''s'', CHR ''m'', CHR ''h''}"
  shows "trim (fmt_dec n @ u) = fmt_dec n @ u"
proof -
  have n: "fmt_dec n \<noteq> []" by (simp add: fmt_dec_def)
  have "is_ascii_digit (hd (fmt_dec n))" using n by (intro set_fmt_dec[of _ n]) (simp add: fmt_dec_def)
  then show ?thesis using n assms digit_not_space(1) unit_not_space[of "last u"]
    by (intro trim_id) simp_all
qed

lemma last_digit_not_unit: "fmt_dec n = t @ [c] \<Longrightarrow> c \<notin> {CHR ''s'', CHR ''m'', CHR ''h''}"
proof -
  assume "fmt_dec n = t @ [c]"
  then have "is_ascii_digit c" by (intro set_fmt_dec[of _ n]) (simp add: fmt_dec_def)
  then show ?thesis by (auto simp: is_ascii_digit_def of_char_less_eq)
qed

lemma strip_suffix_None: "strip_suffix p s = None \<longleftrightarrow> (\<nexists>t. s = t @ p)"
  by (metis option.exhaust option.distinct(1) strip_suffix_Some)

lemma strip_unit_same [simp]: "strip_suffix u (s @ u) = Some s"
  by (simp add: strip_suffix_Some)

lemma strip_suffix_last: "u \<noteq> [] \<Longrightarrow> t \<noteq> [] \<Longrightarrow> last u \<noteq> last t \<Longrightarrow> strip_suffix u t = None"
  by (auto simp: strip_suffix_None)

lemma strip_ms_of_s [simp]: "strip_suffix ''ms'' (fmt_dec n @ ''s'') = None"
proof -
  have "fmt_dec n @ ''s'' \<noteq> t @ ''ms''" for t
    using last_digit_not_unit[of n t "CHR ''m''"] by (auto simp: append_eq_append_conv2 append_eq_Cons_conv)
  then show ?thesis by (simp add: strip_suffix_None)
qed

lemma parse_units_sound:
  assumes "parse_units v t us = Inr d"
  shows "\<exists>(sfx, k)\<in>set us. \<exists>raw n. t = raw @ sfx \<and> parse_uint 64 (trim raw) = Some n \<and> d = n * k \<and> d < 2 ^ 64"
  using assms
proof (induction v t us rule: parse_units.induct)
  case (2 v t sfx k us)
  show ?case
  proof (cases "strip_suffix sfx t")
    case None
    then show ?thesis using 2 by auto
  next
    case (Some raw)
    then show ?thesis using 2(2) by (auto simp: strip_suffix_Some split: if_splits)
  qed
qed simp

text \<open>
  C30. Durations are read exactly: an amount printed in decimal and followed by one of the units ms, s,
  m, h parses to the amount times the unit in milliseconds, and is refused as too large exactly when
  that product does not fit 64 bits; and whatever parses is a 64-bit amount times a known unit.
\<close>

theorem parse_duration_exact:
  "((sfx, k) \<in> set duration_units \<longrightarrow> n < 2 ^ 64 \<longrightarrow>
     parse_duration (fmt_dec n @ sfx) =
       (if n * k < 2 ^ 64 then Inr (n * k) else Inl (Duration_Too_Large (fmt_dec n @ sfx)))) \<and>
   (parse_duration value = Inr d \<longrightarrow>
     (\<exists>(sfx, k)\<in>set duration_units. \<exists>raw n. trim value = raw @ sfx \<and>
        parse_uint 64 (trim raw) = Some n \<and> d = n * k \<and> d < 2 ^ 64))"
proof (intro conjI impI)
  assume u: "(sfx, k) \<in> set duration_units" and n: "n < 2 ^ 64"
  have ne: "fmt_dec n \<noteq> []" by (simp add: fmt_dec_def)
  have sfx: "sfx \<noteq> []" "last sfx \<in> {CHR ''s'', CHR ''m'', CHR ''h''}" using u by (auto simp: duration_units_def)
  have pu: "parse_uint 64 (fmt_dec n) = Some n" by (rule parse_uint_fmt_dec) (rule n)
  have "parse_units v (fmt_dec n @ sfx) duration_units =
      (if n * k < 2 ^ 64 then Inr (n * k) else Inl (Duration_Too_Large v))" for v
    using u pu by (auto simp: duration_units_def strip_suffix_last)
  then show "parse_duration (fmt_dec n @ sfx) =
      (if n * k < 2 ^ 64 then Inr (n * k) else Inl (Duration_Too_Large (fmt_dec n @ sfx)))"
    using sfx ne by (simp add: parse_duration_def trim_fmt_dec_unit)
next
  assume "parse_duration value = Inr d"
  then show "\<exists>(sfx, k)\<in>set duration_units. \<exists>raw n. trim value = raw @ sfx \<and>
      parse_uint 64 (trim raw) = Some n \<and> d = n * k \<and> d < 2 ^ 64"
    using parse_units_sound by (auto simp: parse_duration_def Let_def split: if_splits)
qed

theorem parse_duration_exact_witness:
  "parse_duration ''90s'' = Inr 90000"
proof -
  have "fmt_dec 90 = ''90''" by code_simp
  then show ?thesis using parse_duration_exact[of "''s''" 1000 90 "[]" 0] by (simp add: duration_units_def)
qed

section \<open>The revision hash\<close>

lemma unat_mult_prime_inj:
  assumes "(a :: 64 word) * fnv_prime = b * fnv_prime"
  shows "a = b"
proof -
  have inv: "fnv_prime * 0xce965057aff6957b = 1" by (simp add: fnv_prime_def)
  have "a = a * fnv_prime * 0xce965057aff6957b" by (simp add: mult.assoc inv)
  also have "\<dots> = b * fnv_prime * 0xce965057aff6957b" using assms by simp
  also have "\<dots> = b" by (simp add: mult.assoc inv)
  finally show ?thesis .
qed

lemma xor_left_cancel: "(h XOR x = h XOR y) \<longleftrightarrow> (x = (y :: 64 word))"
proof
  assume "h XOR x = h XOR y"
  then have "(h XOR h) XOR x = (h XOR h) XOR y" by (simp only: xor.assoc)
  then show "x = y" by simp
qed simp

lemma fnv_step_inj_hash: "fnv_step c h = fnv_step c h' \<longleftrightarrow> h = h'"
proof
  assume "fnv_step c h = fnv_step c h'"
  then have "h XOR word_of_nat (of_char c) = h' XOR word_of_nat (of_char c)"
    unfolding fnv_step_def by (rule unat_mult_prime_inj)
  then show "h = h'" by (simp only: xor.commute[of _ "word_of_nat (of_char c)"] xor_left_cancel)
qed simp

lemma unat_of_nat_64: "n < 2 ^ 64 \<Longrightarrow> unat (word_of_nat n :: 64 word) = n"
  by (simp add: unat_of_nat take_bit_nat_eq_self)

lemma of_char_word_inj: "(word_of_nat (of_char a) :: 64 word) = word_of_nat (of_char b) \<longleftrightarrow> a = b"
proof
  have small: "(of_char c :: nat) < 2 ^ 64" for c
    by (rule less_trans[OF nat_of_char_less_256]) simp
  assume "(word_of_nat (of_char a) :: 64 word) = word_of_nat (of_char b)"
  from arg_cong[OF this, of unat] have "(of_char a :: nat) = of_char b"
    by (simp only: unat_of_nat_64[OF small])
  then show "a = b" by (simp only: of_char_eq_iff)
qed simp

lemma fnv_step_inj_byte: "fnv_step a h = fnv_step b h \<longleftrightarrow> a = b"
proof
  assume "fnv_step a h = fnv_step b h"
  then have "h XOR word_of_nat (of_char a) = h XOR word_of_nat (of_char b)"
    unfolding fnv_step_def by (rule unat_mult_prime_inj)
  then show "a = b" by (simp only: xor_left_cancel of_char_word_inj)
qed simp

lemma fold_fnv_inj: "fold fnv_step s h = fold fnv_step s h' \<longleftrightarrow> h = h'"
  by (induction s arbitrary: h h') (auto simp: fnv_step_inj_hash)

text \<open>
  A revision hash is sixteen hexadecimal digits, and two byte strings of the same length that
  differ in a single byte never have the same hash.
\<close>

theorem stable_hash_hex_distinguishes_byte:
  "length (stable_hash_hex bytes) = 16 \<and>
   (stable_hash_hex (xs @ a # ys) = stable_hash_hex (xs @ b # ys) \<longleftrightarrow> a = b)"
proof
  have "unat (stable_hash bytes) < 16 ^ 16"
    using unsigned_less[of "stable_hash bytes", where ?'a = nat] by simp
  then show "length (stable_hash_hex bytes) = 16" by (simp only: stable_hash_hex_def length_fmt_hex_pad)
  show "stable_hash_hex (xs @ a # ys) = stable_hash_hex (xs @ b # ys) \<longleftrightarrow> a = b"
    by (simp add: stable_hash_hex_def stable_hash_def fold_fnv_inj fnv_step_inj_byte
        word_unat_eq_iff[symmetric])
qed

end
