(* ===== verification/Memory_Store.thy ===== *)
theory Memory_Store
  imports Types_Model
begin

text \<open>
  The in-memory store, \<open>crates/ployz-store-api/src/memory.rs\<close>, with the data of
  \<open>crates/ployz-store-api/src/traits.rs\<close>: machines and their event subscribers, routing state,
  invites, and the deploy tables with the atomic commit.

  Every method takes the store's lock for its whole body, so a call is one function on
  \<open>store_inner\<close>. The bounded channels of \<open>tokio\<close> are opaque values; \<open>try_send\<close> is an argument
  that gives the outcome of a send and the channel after it.
\<close>

section \<open>State\<close>

datatype sync_status = Disconnected | Syncing nat | Synced

record deploy_commit =
  dc_namespace :: namespace
  dc_removed_services :: "string list"
  dc_releases :: "service_release_record list"
  dc_deploy :: deploy_record

datatype store_error = Invite_Exists string | Invite_Not_Found string | Invite_Expired string

type_synonym revision_key = "namespace \<times> string \<times> string"
type_synonym release_key = "namespace \<times> string"

record ('c, 'd) store_inner =
  st_machines :: "(machine_id, machine_record) hash_map"
  st_machine_subscribers :: "'c list"
  st_routing_subscribers :: "'d list"
  st_invites :: "(string, invite_record) hash_map"
  st_service_revisions :: "(revision_key, service_revision_record) hash_map"
  st_service_releases :: "(release_key, service_release_record) hash_map"
  st_instance_status :: "(instance_id, instance_status_record) hash_map"
  st_deploys :: "(deploy_id, deploy_record) hash_map"
  st_sync_status :: sync_status

type_synonym ('c, 'd, 'a) store_op = "(('c, 'd) store_inner, store_error, 'a) action"

definition memory_store_new :: "('c, 'd) store_inner" where
  "memory_store_new =
    \<lparr> st_machines = [], st_machine_subscribers = [], st_routing_subscribers = [], st_invites = [],
      st_service_revisions = [], st_service_releases = [], st_instance_status = [], st_deploys = [],
      st_sync_status = Synced \<rparr>"

definition set_sync_status :: "sync_status \<Rightarrow> ('c, 'd) store_inner \<Rightarrow> ('c, 'd) store_inner" where
  "set_sync_status status s = s\<lparr>st_sync_status := status\<rparr>"

definition get_sync_status :: "('c, 'd, sync_status) store_op" where
  "get_sync_status s = (Inr (st_sync_status s), s)"

section \<open>Broadcasting\<close>

datatype send_outcome = Send_Ok | Send_Closed | Send_Full

type_synonym ('c, 'm) sender = "'c \<Rightarrow> 'm \<Rightarrow> send_outcome \<times> 'c"

primrec broadcast :: "('c, 'm) sender \<Rightarrow> 'm \<Rightarrow> 'c list \<Rightarrow> 'c list" where
  "broadcast try_send m [] = []"
| "broadcast try_send m (c # cs) =
    (case try_send c m of
       (Send_Ok, c') \<Rightarrow> c' # broadcast try_send m cs
     | (Send_Closed, _) \<Rightarrow> broadcast try_send m cs
     | (Send_Full, c') \<Rightarrow> c' # broadcast try_send m cs)"

definition broadcast_machine ::
    "('c, machine_event) sender \<Rightarrow> machine_event \<Rightarrow> ('c, 'd) store_inner \<Rightarrow> ('c, 'd) store_inner" where
  "broadcast_machine try_send ev s =
    s\<lparr>st_machine_subscribers := broadcast try_send ev (st_machine_subscribers s)\<rparr>"

definition broadcast_routing_refresh ::
    "('d, unit) sender \<Rightarrow> ('c, 'd) store_inner \<Rightarrow> ('c, 'd) store_inner" where
  "broadcast_routing_refresh try_send s =
    s\<lparr>st_routing_subscribers := broadcast try_send () (st_routing_subscribers s)\<rparr>"

section \<open>Machines\<close>

definition list_machines :: "('c, 'd, machine_record list) store_op" where
  "list_machines s = (Inr (hm_values (st_machines s)), s)"

definition upsert_self_machine ::
    "('c, machine_event) sender \<Rightarrow> machine_record \<Rightarrow> ('c, 'd, unit) store_op" where
  "upsert_self_machine try_send r s =
    (let is_update = hm_contains (st_machines s) (mr_id r);
         s' = s\<lparr>st_machines := hm_insert (mr_id r) r (st_machines s)\<rparr>;
         ev = (if is_update then Machine_Updated r else Machine_Added r)
     in (Inr (), broadcast_machine try_send ev s'))"

definition delete_machine ::
    "('c, machine_event) sender \<Rightarrow> machine_id \<Rightarrow> ('c, 'd, unit) store_op" where
  "delete_machine try_send i s =
    (case hm_get (st_machines s) i of
       Some r \<Rightarrow> (Inr (), broadcast_machine try_send (Machine_Removed r)
                    (s\<lparr>st_machines := hm_remove i (st_machines s)\<rparr>))
     | None \<Rightarrow> (Inr (), s))"

text \<open>\<open>fresh\<close> is the sender half of a new channel of capacity 64.\<close>

definition subscribe_machines :: "'c \<Rightarrow> ('c, 'd, machine_record list) store_op" where
  "subscribe_machines fresh s =
    (Inr (hm_values (st_machines s)),
     s\<lparr>st_machine_subscribers := st_machine_subscribers s @ [fresh]\<rparr>)"

section \<open>Routing state\<close>

definition load_routing_state :: "('c, 'd, routing_state) store_op" where
  "load_routing_state s =
    (Inr \<lparr> rt_revisions = hm_values (st_service_revisions s),
           rt_releases = hm_values (st_service_releases s),
           rt_instances = hm_values (st_instance_status s) \<rparr>, s)"

definition subscribe_routing_invalidations :: "'d \<Rightarrow> ('c, 'd, unit) store_op" where
  "subscribe_routing_invalidations fresh s =
    (Inr (), s\<lparr>st_routing_subscribers := st_routing_subscribers s @ [fresh]\<rparr>)"

section \<open>Invites\<close>

definition create_invite :: "invite_record \<Rightarrow> ('c, 'd, unit) store_op" where
  "create_invite invite s =
    (if hm_contains (st_invites s) (ir_id invite) then (Inl (Invite_Exists (ir_id invite)), s)
     else (Inr (), s\<lparr>st_invites := hm_insert (ir_id invite) invite (st_invites s)\<rparr>))"

definition consume_invite :: "string \<Rightarrow> timestamp \<Rightarrow> ('c, 'd, unit) store_op" where
  "consume_invite i now s =
    (case hm_get (st_invites s) i of
       None \<Rightarrow> (Inl (Invite_Not_Found i), s)
     | Some invite \<Rightarrow>
         if now > ir_expires_at invite then (Inl (Invite_Expired i), s)
         else (Inr (), s\<lparr>st_invites := hm_remove i (st_invites s)\<rparr>))"

section \<open>Deploy tables\<close>

definition list_service_revisions :: "namespace \<Rightarrow> ('c, 'd, service_revision_record list) store_op" where
  "list_service_revisions ns s =
    (Inr (filter (\<lambda>r. rv_namespace r = ns) (hm_values (st_service_revisions s))), s)"

definition list_service_releases :: "namespace \<Rightarrow> ('c, 'd, service_release_record list) store_op" where
  "list_service_releases ns s =
    (Inr (filter (\<lambda>r. rr_namespace r = ns) (hm_values (st_service_releases s))), s)"

definition list_instance_status :: "namespace \<Rightarrow> ('c, 'd, instance_status_record list) store_op" where
  "list_instance_status ns s =
    (Inr (filter (\<lambda>r. is_namespace r = ns) (hm_values (st_instance_status s))), s)"

definition get_deploy :: "deploy_id \<Rightarrow> ('c, 'd, deploy_record option) store_op" where
  "get_deploy i s = (Inr (hm_get (st_deploys s) i), s)"

definition upsert_service_revision ::
    "('d, unit) sender \<Rightarrow> service_revision_record \<Rightarrow> ('c, 'd, unit) store_op" where
  "upsert_service_revision try_send r s =
    (Inr (), broadcast_routing_refresh try_send
      (s\<lparr>st_service_revisions :=
          hm_insert (rv_namespace r, rv_service r, rv_revision_hash r) r (st_service_revisions s)\<rparr>))"

definition upsert_service_release ::
    "('d, unit) sender \<Rightarrow> service_release_record \<Rightarrow> ('c, 'd, unit) store_op" where
  "upsert_service_release try_send r s =
    (Inr (), broadcast_routing_refresh try_send
      (s\<lparr>st_service_releases := hm_insert (rr_namespace r, rr_service r) r (st_service_releases s)\<rparr>))"

definition delete_service_release ::
    "('d, unit) sender \<Rightarrow> namespace \<Rightarrow> string \<Rightarrow> ('c, 'd, unit) store_op" where
  "delete_service_release try_send ns service s =
    (Inr (), broadcast_routing_refresh try_send
      (s\<lparr>st_service_releases := hm_remove (ns, service) (st_service_releases s)\<rparr>))"

definition upsert_instance_status ::
    "('d, unit) sender \<Rightarrow> instance_status_record \<Rightarrow> ('c, 'd, unit) store_op" where
  "upsert_instance_status try_send r s =
    (Inr (), broadcast_routing_refresh try_send
      (s\<lparr>st_instance_status := hm_insert (is_instance_id r) r (st_instance_status s)\<rparr>))"

definition delete_instance_status :: "('d, unit) sender \<Rightarrow> instance_id \<Rightarrow> ('c, 'd, unit) store_op" where
  "delete_instance_status try_send i s =
    (Inr (), broadcast_routing_refresh try_send
      (s\<lparr>st_instance_status := hm_remove i (st_instance_status s)\<rparr>))"

definition upsert_deploy :: "deploy_record \<Rightarrow> ('c, 'd, unit) store_op" where
  "upsert_deploy r s = (Inr (), s\<lparr>st_deploys := hm_insert (dr_deploy_id r) r (st_deploys s)\<rparr>)"

definition touched_services :: "deploy_commit \<Rightarrow> string list" where
  "touched_services c = dc_removed_services c @ map rr_service (dc_releases c)"

definition apply_deploy_commit :: "('d, unit) sender \<Rightarrow> deploy_commit \<Rightarrow> ('c, 'd, unit) store_op" where
  "apply_deploy_commit try_send c s =
    (let kept = hm_retain (\<lambda>(ns, service) _. \<not> (ns = dc_namespace c \<and> service \<in> set (touched_services c)))
                  (st_service_releases s);
         releases = fold (\<lambda>r. hm_insert (rr_namespace r, rr_service r) r) (dc_releases c) kept;
         s' = s\<lparr>st_service_releases := releases,
                st_deploys := hm_insert (dr_deploy_id (dc_deploy c)) (dc_deploy c) (st_deploys s)\<rparr>
     in (Inr (), broadcast_routing_refresh try_send s'))"

section \<open>Bootstrap state\<close>

definition seed_machine_records :: "('c, 'd, machine_record list) store_op" where
  "seed_machine_records = list_machines"

definition bootstrap_addrs ::
    "(ipv6_addr \<Rightarrow> string) \<Rightarrow> machine_id \<Rightarrow> ('c, 'd, string list) store_op" where
  "bootstrap_addrs ip6_str local =
    bind_act list_machines (\<lambda>machines.
      ret_act (map (\<lambda>m. ip6_str (overlay_ip_octets (mr_overlay_ip m)))
        (filter (\<lambda>m. mr_id m \<noteq> local) machines)))"

section \<open>Specification\<close>

text \<open>The keys of every table agree with the records stored under them.\<close>

definition store_wf :: "('c, 'd) store_inner \<Rightarrow> bool" where
  "store_wf s \<longleftrightarrow>
    hm_keyed mr_id (st_machines s) \<and> hm_keyed ir_id (st_invites s) \<and>
    hm_keyed (\<lambda>r. (rv_namespace r, rv_service r, rv_revision_hash r)) (st_service_revisions s) \<and>
    hm_keyed (\<lambda>r. (rr_namespace r, rr_service r)) (st_service_releases s) \<and>
    hm_keyed is_instance_id (st_instance_status s) \<and> hm_keyed dr_deploy_id (st_deploys s)"

definition commit_releases :: "deploy_commit \<Rightarrow> release_key \<Rightarrow> service_release_record option" where
  "commit_releases c = map_of (rev (map (\<lambda>r. ((rr_namespace r, rr_service r), r)) (dc_releases c)))"

fun replay :: "(machine_id \<Rightarrow> machine_record option) \<Rightarrow> machine_event list \<Rightarrow> machine_id \<Rightarrow> machine_record option" where
  "replay m [] = m"
| "replay m (Machine_Added r # evs) = replay (m(mr_id r \<mapsto> r)) evs"
| "replay m (Machine_Updated r # evs) = replay (m(mr_id r \<mapsto> r)) evs"
| "replay m (Machine_Removed r # evs) = replay (m(mr_id r := None)) evs"

definition snapshot_map :: "machine_record list \<Rightarrow> machine_id \<Rightarrow> machine_record option" where
  "snapshot_map rs = map_of (map (\<lambda>r. (mr_id r, r)) rs)"

datatype machine_op = Op_Upsert machine_record | Op_Delete machine_id

fun run_machine_op :: "('c, machine_event) sender \<Rightarrow> machine_op \<Rightarrow> ('c, 'd, unit) store_op" where
  "run_machine_op try_send (Op_Upsert r) = upsert_self_machine try_send r"
| "run_machine_op try_send (Op_Delete i) = delete_machine try_send i"

definition run_machine_ops ::
    "('c, machine_event) sender \<Rightarrow> machine_op list \<Rightarrow> ('c, 'd) store_inner \<Rightarrow> ('c, 'd) store_inner" where
  "run_machine_ops try_send ops s = fold (\<lambda>op s. snd (run_machine_op try_send op s)) ops s"

text \<open>
  The documented behaviour of a bounded channel whose receiver is alive: as long as there is room, a
  send succeeds, queues the message behind those pending and takes one place.
\<close>

locale channel =
  fixes try_send :: "('c, 'm) sender" and pending :: "'c \<Rightarrow> 'm list" and room :: "'c \<Rightarrow> nat"
  assumes send_ok: "0 < room c \<Longrightarrow>
    \<exists>c'. try_send c m = (Send_Ok, c') \<and> pending c' = pending c @ [m] \<and> room c' = room c - 1"

record 'm bounded_queue =
  bq_items :: "'m list"
  bq_capacity :: nat
  bq_open :: bool

definition queue_try_send :: "('m bounded_queue, 'm) sender" where
  "queue_try_send q m =
    (if \<not> bq_open q then (Send_Closed, q)
     else if length (bq_items q) \<ge> bq_capacity q then (Send_Full, q)
     else (Send_Ok, q\<lparr>bq_items := bq_items q @ [m]\<rparr>))"

definition queue_room :: "'m bounded_queue \<Rightarrow> nat" where
  "queue_room q = (if bq_open q then bq_capacity q - length (bq_items q) else 0)"

definition emitted :: "machine_op \<Rightarrow> ('c, 'd) store_inner \<Rightarrow> machine_event list" where
  "emitted op s =
    (case op of
       Op_Upsert r \<Rightarrow> [if hm_contains (st_machines s) (mr_id r) then Machine_Updated r else Machine_Added r]
     | Op_Delete i \<Rightarrow> (case hm_get (st_machines s) i of Some r \<Rightarrow> [Machine_Removed r] | None \<Rightarrow> []))"

section \<open>Channels\<close>

interpretation queue: channel queue_try_send bq_items queue_room
  by unfold_locales (auto simp: queue_try_send_def queue_room_def split: if_splits)

lemma broadcast_append: "broadcast try_send m (xs @ ys) = broadcast try_send m xs @ broadcast try_send m ys"
  by (induction xs) (auto split: prod.splits send_outcome.splits)

context channel
begin

lemma broadcast_last:
  assumes "0 < room c"
  obtains cs' c' where "broadcast try_send m (cs @ [c]) = cs' @ [c']" "pending c' = pending c @ [m]" "room c' = room c - 1"
proof -
  obtain c' where c': "try_send c m = (Send_Ok, c')" "pending c' = pending c @ [m]" "room c' = room c - 1"
    using send_ok[OF assms] by blast
  then have "broadcast try_send m (cs @ [c]) = broadcast try_send m cs @ [c']"
    by (simp add: broadcast_append)
  then show ?thesis using that c' by blast
qed

end

section \<open>Well-formedness\<close>

lemma store_wf_new: "store_wf memory_store_new"
  by (simp add: store_wf_def memory_store_new_def)

lemma broadcast_tables [simp]:
  "st_machines (broadcast_machine f ev s) = st_machines s"
  "st_invites (broadcast_machine f ev s) = st_invites s"
  "st_service_revisions (broadcast_machine f ev s) = st_service_revisions s"
  "st_service_releases (broadcast_machine f ev s) = st_service_releases s"
  "st_instance_status (broadcast_machine f ev s) = st_instance_status s"
  "st_deploys (broadcast_machine f ev s) = st_deploys s"
  "st_machines (broadcast_routing_refresh g s) = st_machines s"
  "st_invites (broadcast_routing_refresh g s) = st_invites s"
  "st_service_revisions (broadcast_routing_refresh g s) = st_service_revisions s"
  "st_service_releases (broadcast_routing_refresh g s) = st_service_releases s"
  "st_instance_status (broadcast_routing_refresh g s) = st_instance_status s"
  "st_deploys (broadcast_routing_refresh g s) = st_deploys s"
  "store_wf (broadcast_machine f ev s) = store_wf s"
  "store_wf (broadcast_routing_refresh g s) = store_wf s"
  by (simp_all add: broadcast_machine_def broadcast_routing_refresh_def store_wf_def)

lemmas table_laws = hm.wf_insert hm.wf_remove hm.get_insert hm.get_remove

lemma store_wf_machine_ops:
  "store_wf s \<Longrightarrow> store_wf (snd (upsert_self_machine f r s))"
  "store_wf s \<Longrightarrow> store_wf (snd (delete_machine f i s))"
  by (simp_all add: upsert_self_machine_def delete_machine_def Let_def store_wf_def split: option.split)

lemma store_wf_invite_ops:
  "store_wf s \<Longrightarrow> store_wf (snd (create_invite invite s))"
  "store_wf s \<Longrightarrow> store_wf (snd (consume_invite i now s))"
  by (simp_all add: create_invite_def consume_invite_def store_wf_def split: option.split)

lemma store_wf_deploy_ops:
  "store_wf s \<Longrightarrow> store_wf (snd (upsert_service_revision g rv s))"
  "store_wf s \<Longrightarrow> store_wf (snd (upsert_service_release g rl s))"
  "store_wf s \<Longrightarrow> store_wf (snd (delete_service_release g ns svc s))"
  "store_wf s \<Longrightarrow> store_wf (snd (upsert_instance_status g st s))"
  "store_wf s \<Longrightarrow> store_wf (snd (delete_instance_status g i s))"
  "store_wf s \<Longrightarrow> store_wf (snd (upsert_deploy d s))"
  by (simp_all add: upsert_service_revision_def upsert_service_release_def delete_service_release_def
      upsert_instance_status_def delete_instance_status_def upsert_deploy_def store_wf_def)

section \<open>The commit\<close>

lemma fold_insert_releases:
  "fold (\<lambda>r. hm_insert (rr_namespace r, rr_service r) r) rs m =
    fold (\<lambda>(k, v). hm_insert k v) (map (\<lambda>r. ((rr_namespace r, rr_service r), r)) rs) m"
  by (induction rs arbitrary: m) auto

lemma commit_releases_get:
  assumes "hm_wf (st_service_releases s)"
  shows "hm_get (st_service_releases (snd (apply_deploy_commit g c s))) k =
    (case commit_releases c k of
       Some r \<Rightarrow> Some r
     | None \<Rightarrow> if fst k = dc_namespace c \<and> snd k \<in> set (touched_services c) then None
               else hm_get (st_service_releases s) k)"
  using assms
  by (cases k)
     (simp add: apply_deploy_commit_def Let_def fold_insert_releases hm.get_fold_insert hm_get_retain
       commit_releases_def split: option.split)

lemma commit_releases_Some: "commit_releases c k = Some r \<Longrightarrow> r \<in> set (dc_releases c) \<and> k = (rr_namespace r, rr_service r)"
  by (auto simp: commit_releases_def dest!: map_of_SomeD)

lemma commit_wf: "store_wf s \<Longrightarrow> store_wf (snd (apply_deploy_commit g c s))"
  by (simp add: store_wf_def apply_deploy_commit_def Let_def
      hm_keyed_fold_insert[where key = "\<lambda>r. (rr_namespace r, rr_service r)"])

section \<open>Properties\<close>

text \<open>
  C13. A deploy commit is atomic and exact: in one step it records the deploy, makes the release of
  every committed service the committed one, drops the releases of the removed services of the
  namespace, and leaves every other release, every revision, instance, invite and machine as it was.
\<close>

theorem apply_deploy_commit_exact:
  assumes "store_wf s" and s': "s' = snd (apply_deploy_commit g c s)"
    and ns: "\<forall>r\<in>set (dc_releases c). rr_namespace r = dc_namespace c"
    and once: "distinct (map rr_service (dc_releases c))"
  shows "store_wf s' \<and>
    (\<forall>r\<in>set (dc_releases c). hm_get (st_service_releases s') (dc_namespace c, rr_service r) = Some r) \<and>
    (\<forall>svc\<in>set (dc_removed_services c) - rr_service ` set (dc_releases c).
        hm_get (st_service_releases s') (dc_namespace c, svc) = None) \<and>
    (\<forall>k. fst k \<noteq> dc_namespace c \<or> snd k \<notin> set (touched_services c) \<longrightarrow>
        hm_get (st_service_releases s') k = hm_get (st_service_releases s) k) \<and>
    hm_get (st_deploys s') (dr_deploy_id (dc_deploy c)) = Some (dc_deploy c) \<and>
    (\<forall>i. i \<noteq> dr_deploy_id (dc_deploy c) \<longrightarrow> hm_get (st_deploys s') i = hm_get (st_deploys s) i) \<and>
    st_service_revisions s' = st_service_revisions s \<and> st_instance_status s' = st_instance_status s \<and>
    st_invites s' = st_invites s \<and> st_machines s' = st_machines s"
proof -
  have wf: "hm_wf (st_service_releases s)" "hm_wf (st_deploys s)" using assms(1) by (auto simp: store_wf_def hm_keyed_wf)
  note get = commit_releases_get[OF wf(1), of g c, folded s']
  have dist: "distinct (map fst (rev (map (\<lambda>r. ((rr_namespace r, rr_service r), r)) (dc_releases c))))"
  proof -
    have "distinct (map snd (map (\<lambda>r. (rr_namespace r, rr_service r)) (dc_releases c)))"
      using once by (simp add: comp_def)
    then have "distinct (map (\<lambda>r. (rr_namespace r, rr_service r)) (dc_releases c))" by (rule distinct_map[THEN iffD1, THEN conjunct1])
    then show ?thesis by (simp add: rev_map[symmetric] comp_def)
  qed
  have mem: "commit_releases c (rr_namespace r, rr_service r) = Some r" if "r \<in> set (dc_releases c)" for r
    unfolding commit_releases_def using that by (intro map_of_is_SomeI[OF dist]) auto
  have none: "commit_releases c k = None" if "fst k \<noteq> dc_namespace c \<or> snd k \<notin> rr_service ` set (dc_releases c)" for k
    using that commit_releases_Some[of c k] ns by (cases "commit_releases c k") auto
  have "hm_get (st_service_releases s') (dc_namespace c, rr_service r) = Some r" if "r \<in> set (dc_releases c)" for r
    using mem[OF that] ns that by (simp add: get)
  moreover have "hm_get (st_service_releases s') (dc_namespace c, svc) = None"
    if "svc \<in> set (dc_removed_services c) - rr_service ` set (dc_releases c)" for svc
    using that none[of "(dc_namespace c, svc)"] by (simp add: get touched_services_def)
  moreover have "hm_get (st_service_releases s') k = hm_get (st_service_releases s) k"
    if "fst k \<noteq> dc_namespace c \<or> snd k \<notin> set (touched_services c)" for k
    using that none[of k] by (auto simp: get touched_services_def)
  moreover have "st_deploys s' = hm_insert (dr_deploy_id (dc_deploy c)) (dc_deploy c) (st_deploys s)"
      "st_service_revisions s' = st_service_revisions s" "st_instance_status s' = st_instance_status s"
      "st_invites s' = st_invites s" "st_machines s' = st_machines s"
    by (simp_all add: s' apply_deploy_commit_def Let_def)
  moreover have "store_wf s'" using commit_wf[OF assms(1), of g c] by (simp add: s')
  ultimately show ?thesis using hm.get_insert[OF wf(2)] by simp
qed

definition release_example :: "string \<Rightarrow> service_release_record" where
  "release_example svc = \<lparr> rr_namespace = Namespace ''prod'', rr_service = svc, rr_release =
    \<lparr> rl_primary_revision_hash = ''h'', rl_referenced_revision_hashes = [''h''], rl_routing = Routing_Direct ''h'',
      rl_slots = [], rl_updated_by_deploy_id = DeployId ''d'', rl_updated_at = 1 \<rparr> \<rparr>"

definition commit_example :: deploy_commit where
  "commit_example = \<lparr> dc_namespace = Namespace ''prod'', dc_removed_services = [''old''],
    dc_releases = [release_example ''web''],
    dc_deploy = \<lparr> dr_deploy_id = DeployId ''d'', dr_namespace = Namespace ''prod'',
      dr_coordinator_machine_id = MachineId ''a'', dr_manifest_hash = ''m'', dr_state = Deploy_Committed,
      dr_started_at = 1, dr_committed_at = Some 2, dr_finished_at = Some 2, dr_summary_json = [] \<rparr> \<rparr>"

theorem apply_deploy_commit_exact_witness:
  "hm_get (st_service_releases (snd (apply_deploy_commit (\<lambda>c _. (Send_Ok, c)) commit_example
      (memory_store_new :: (unit, unit) store_inner)))) (Namespace ''prod'', ''web'') = Some (release_example ''web'')"
proof -
  have "\<forall>r\<in>set (dc_releases commit_example). rr_namespace r = dc_namespace commit_example"
    "distinct (map rr_service (dc_releases commit_example))"
    by (simp_all add: commit_example_def release_example_def)
  from apply_deploy_commit_exact[OF store_wf_new refl this]
  have "\<forall>r\<in>set (dc_releases commit_example).
      hm_get (st_service_releases (snd (apply_deploy_commit (\<lambda>c _. (Send_Ok, c)) commit_example
        (memory_store_new :: (unit, unit) store_inner)))) (dc_namespace commit_example, rr_service r) = Some r"
    by blast
  then have "hm_get (st_service_releases (snd (apply_deploy_commit (\<lambda>c _. (Send_Ok, c)) commit_example
      (memory_store_new :: (unit, unit) store_inner))))
      (dc_namespace commit_example, rr_service (release_example ''web'')) = Some (release_example ''web'')"
    by (rule bspec) (simp add: commit_example_def)
  then show ?thesis by (simp only: commit_example_def release_example_def deploy_commit.simps service_release_record.simps)
qed

text \<open>
  Invites are single use: consuming an invite succeeds exactly when it exists and has not
  expired, removes it and nothing else, and every later attempt with it fails as unknown; a refused
  attempt changes nothing.
\<close>

theorem consume_invite_single_use:
  assumes "store_wf s" and run: "consume_invite i now s = (r, s')"
  shows "(r = Inr () \<longleftrightarrow> (\<exists>invite. hm_get (st_invites s) i = Some invite \<and> now \<le> ir_expires_at invite)) \<and>
    (r = Inr () \<longrightarrow> (\<forall>later. consume_invite i later s' = (Inl (Invite_Not_Found i), s')) \<and>
      (\<forall>j. j \<noteq> i \<longrightarrow> hm_get (st_invites s') j = hm_get (st_invites s) j) \<and>
      s = s'\<lparr>st_invites := st_invites s\<rparr>) \<and>
    (r \<noteq> Inr () \<longrightarrow> s' = s)"
proof -
  have "hm_wf (st_invites s)" using assms(1) by (auto simp: store_wf_def hm_keyed_wf)
  then show ?thesis
    using run by (auto simp: consume_invite_def table_laws split: option.splits if_splits)
qed

theorem consume_invite_single_use_witness:
  "fst (consume_invite ''k'' 5 (snd (create_invite \<lparr>ir_id = ''k'', ir_expires_at = 9\<rparr>
      (memory_store_new :: (unit, unit) store_inner)))) = Inr ()"
proof -
  let ?s = "snd (create_invite \<lparr>ir_id = ''k'', ir_expires_at = 9\<rparr> (memory_store_new :: (unit, unit) store_inner))"
  obtain r s' where run: "consume_invite ''k'' 5 ?s = (r, s')" by fastforce
  have "hm_get (st_invites ?s) ''k'' = Some \<lparr>ir_id = ''k'', ir_expires_at = 9\<rparr>"
    by (simp add: create_invite_def memory_store_new_def hm_contains_def)
  then show ?thesis
    using consume_invite_single_use[OF store_wf_invite_ops(1)[OF store_wf_new] run] run by simp
qed

lemma run_machine_op_spec:
  assumes "store_wf s"
  shows "st_machine_subscribers (snd (run_machine_op f op s)) =
      fold (broadcast f) (emitted op s) (st_machine_subscribers s)"
    and "hm_get (st_machines (snd (run_machine_op f op s))) = replay (hm_get (st_machines s)) (emitted op s)"
    and "store_wf (snd (run_machine_op f op s))"
proof -
  have m: "hm_wf (st_machines s)" "\<And>i r. hm_get (st_machines s) i = Some r \<Longrightarrow> mr_id r = i"
    using assms by (auto simp: store_wf_def hm_keyed_def)
  show "st_machine_subscribers (snd (run_machine_op f op s)) =
      fold (broadcast f) (emitted op s) (st_machine_subscribers s)"
    by (cases op) (simp_all add: emitted_def upsert_self_machine_def delete_machine_def Let_def
        broadcast_machine_def split: option.split)
  show "hm_get (st_machines (snd (run_machine_op f op s))) = replay (hm_get (st_machines s)) (emitted op s)"
    using m by (cases op) (auto simp: emitted_def upsert_self_machine_def delete_machine_def Let_def
        update_conv' delete_conv' split: option.split)
  show "store_wf (snd (run_machine_op f op s))"
    using assms by (cases op) (simp_all add: store_wf_machine_ops)
qed

lemma emitted_length: "length (emitted op s) \<le> 1"
  by (simp add: emitted_def split: machine_op.split option.split)

lemma replay_append: "replay m (xs @ ys) = replay (replay m xs) ys"
proof (induction xs arbitrary: m)
  case (Cons e xs)
  then show ?case by (cases e) (simp_all add: fun_upd_def)
qed simp

lemma snapshot_map_values: "hm_keyed mr_id m \<Longrightarrow> snapshot_map (hm_values m) = hm_get m"
  by (simp add: snapshot_map_def hm_keyed_map_values)

lemma run_machine_ops_replay:
  assumes ch: "channel f pending room" and "store_wf s" and "st_machine_subscribers s = cs @ [c]"
    and "length ops \<le> room c" and "hm_get (st_machines s) = replay m (pending c)"
  shows "\<exists>cs' c'. st_machine_subscribers (run_machine_ops f ops s) = cs' @ [c'] \<and>
    replay m (pending c') = hm_get (st_machines (run_machine_ops f ops s))"
  using assms(2-)
proof (induction ops arbitrary: s cs c)
  case (Cons op ops)
  let ?s = "snd (run_machine_op f op s)"
  note spec = run_machine_op_spec[OF Cons.prems(1), of f op]
  have "\<exists>cs' c'. st_machine_subscribers ?s = cs' @ [c'] \<and> length ops \<le> room c' \<and>
      hm_get (st_machines ?s) = replay m (pending c')"
  proof (cases "emitted op s = []")
    case True
    then show ?thesis using Cons.prems spec by auto
  next
    case False
    then obtain ev where ev: "emitted op s = [ev]" using emitted_length[of op s] by (cases "emitted op s") auto
    have "0 < room c" using Cons.prems(3) by simp
    then obtain cs' c' where "broadcast f ev (cs @ [c]) = cs' @ [c']" "pending c' = pending c @ [ev]"
        "room c' = room c - 1"
      using channel.broadcast_last[OF ch] by metis
    then show ?thesis using spec ev Cons.prems by (simp add: replay_append)
  qed
  then show ?case using Cons.IH spec(3) by (auto simp: run_machine_ops_def)
qed (auto simp: run_machine_ops_def)

text \<open>
  C31. A machine subscription is complete: the snapshot a subscriber gets together with the events
  queued for it afterwards determines the machine table, for any sequence of upserts and deletions
  that the channel's free capacity can hold.
\<close>

theorem subscription_replays:
  assumes ch: "channel f pending room" and wf: "store_wf s"
    and sub: "subscribe_machines fresh s = (Inr snapshot, s1)"
    and fresh: "pending fresh = []" "length ops \<le> room fresh"
  shows "\<exists>cs c. st_machine_subscribers (run_machine_ops f ops s1) = cs @ [c] \<and>
    replay (snapshot_map snapshot) (pending c) = hm_get (st_machines (run_machine_ops f ops s1))"
proof -
  have s1: "s1 = s\<lparr>st_machine_subscribers := st_machine_subscribers s @ [fresh]\<rparr>"
      "snapshot = hm_values (st_machines s)"
    using sub by (auto simp: subscribe_machines_def)
  have "snapshot_map snapshot = hm_get (st_machines s)"
    using wf by (simp add: s1 store_wf_def snapshot_map_values)
  moreover have "store_wf s1" using wf by (simp add: s1 store_wf_def)
  ultimately show ?thesis
    using run_machine_ops_replay[OF ch, of s1 "st_machine_subscribers s" fresh ops "snapshot_map snapshot"] fresh
    by (simp add: s1)
qed

theorem subscription_replays_witness:
  "\<exists>cs c. st_machine_subscribers (run_machine_ops queue_try_send
      [Op_Upsert (machine_record_seed (MachineId ''b'') (PublicKey []) (OverlayIp []) None [])]
      (snd (subscribe_machines \<lparr>bq_items = [], bq_capacity = 64, bq_open = True\<rparr>
        (memory_store_new :: (machine_event bounded_queue, unit) store_inner)))) = cs @ [c]"
proof -
  let ?q = "\<lparr>bq_items = [], bq_capacity = 64, bq_open = True\<rparr> :: machine_event bounded_queue"
  obtain snapshot s1 where sub: "subscribe_machines ?q
      (memory_store_new :: (machine_event bounded_queue, unit) store_inner) = (Inr snapshot, s1)"
    by (simp add: subscribe_machines_def)
  show ?thesis
    using subscription_replays[OF queue.channel_axioms store_wf_new sub, of
        "[Op_Upsert (machine_record_seed (MachineId ''b'') (PublicKey []) (OverlayIp []) None [])]"] sub
    by (auto simp: queue_room_def)
qed

end
