(* ===== verification/Deploy.thy ===== *)
theory Deploy
  imports Mesh_Phase Service_Spec Memory_Store
begin

text \<open>
  The deploy coordinator, \<open>crates/ployz-orchestrator/src/deploy/mod.rs\<close>: placement of slots, the
  preview of a deploy, and its application (lock every participant, preview again, start candidates,
  commit, clean up, unlock).

  The store and the sessions with the participants are traits in the source. Here they are the record
  \<open>deploy_env\<close> of actions on a world \<open>'w\<close>, together with the clock, the generator of identifiers
  and the JSON encoders. An action that fails keeps the effects made before it. A session is a handle
  whose state is part of the world; \<open>env_drop\<close> is what dropping a session value does. This theory
  holds the environment, the placement and the preview; \<open>Deploy_Apply\<close> applies a deploy.
\<close>

section \<open>The environment\<close>

record start_candidate_request =
  sc_service :: string
  sc_slot_id :: slot_id
  sc_instance_id :: instance_id
  sc_spec_json :: string

record ('w, 's, 'e) deploy_env =
  env_now :: "'w \<Rightarrow> timestamp \<times> 'w"
  env_new_uuid :: "'w \<Rightarrow> string \<times> 'w"
  env_list_machines :: "('w, 'e, machine_record list) action"
  env_list_service_releases :: "namespace \<Rightarrow> ('w, 'e, service_release_record list) action"
  env_list_instance_status :: "namespace \<Rightarrow> ('w, 'e, instance_status_record list) action"
  env_upsert_service_revision :: "service_revision_record \<Rightarrow> ('w, 'e, unit) action"
  env_upsert_instance_status :: "instance_status_record \<Rightarrow> ('w, 'e, unit) action"
  env_upsert_deploy :: "deploy_record \<Rightarrow> ('w, 'e, unit) action"
  env_apply_deploy_commit :: "deploy_commit \<Rightarrow> ('w, 'e, unit) action"
  env_open :: "machine_record \<Rightarrow> namespace \<Rightarrow> deploy_id \<Rightarrow> machine_id \<Rightarrow>
    ('w, 'e, 's \<times> instance_status_record list) action"
  env_start_candidate :: "'s \<Rightarrow> start_candidate_request \<Rightarrow> ('w, 'e, instance_status_record) action"
  env_drain_instance :: "'s \<Rightarrow> instance_id \<Rightarrow> ('w, 'e, unit) action"
  env_remove_instance :: "'s \<Rightarrow> instance_id \<Rightarrow> ('w, 'e, unit) action"
  env_close :: "'s \<Rightarrow> ('w, 'e, unit) action"
  env_drop :: "'s \<Rightarrow> 'w \<Rightarrow> 'w"
  env_error_str :: "'e \<Rightarrow> string"
  env_manifest_json :: "deploy_manifest \<Rightarrow> (string, string) result"
  env_spec_json :: "service_spec \<Rightarrow> (string, string) result"
  env_preview_json :: "deploy_preview \<Rightarrow> (string, string) result"

datatype 'e deploy_error =
    Invalid_Manifest spec_error
  | Serialize_Manifest string
  | Serialize_Revision string
  | Serialize_Preview string
  | Missing_Machine machine_id
  | Participants_Changed
  | Missing_Current_Slot
  | No_Session machine_id
  | Slots_No_Candidate
  | Slots_Zero_Replicas string
  | Slots_Out_Of_Bounds nat
  | Backend 'e

type_synonym ('w, 'e, 'a) deploy_action = "('w, 'e deploy_error, 'a) action"

definition now_act :: "('w, 's, 'e) deploy_env \<Rightarrow> ('w, 'e, timestamp) deploy_action" where
  "now_act env w = (case env_now env w of (t, w') \<Rightarrow> (Inr t, w'))"

definition uuid_act :: "('w, 's, 'e) deploy_env \<Rightarrow> ('w, 'e, string) deploy_action" where
  "uuid_act env w = (case env_new_uuid env w of (u, w') \<Rightarrow> (Inr u, w'))"

definition backend :: "('w, 'e, 'a) action \<Rightarrow> ('w, 'e, 'a) deploy_action" where
  "backend m = map_err_act Backend m"

section \<open>Placement\<close>

record desired_slot =
  ds_slot_id :: slot_id
  ds_machine_id :: machine_id

definition deployable_machines :: "machine_record list \<Rightarrow> machine_id \<Rightarrow> timestamp \<Rightarrow> machine_id list" where
  "deployable_machines machines local now =
    (let enabled = sort_by (\<lambda>l r. cmp (machine_id_str l) (machine_id_str r))
           (map mr_id (filter (\<lambda>m. machine_is_fresh m now)
             (filter (\<lambda>m. mr_participation m = Participation_Enabled) machines)))
     in if enabled = [] then [local] else enabled)"

definition fmt_dec_pad :: "nat \<Rightarrow> nat \<Rightarrow> string" where
  "fmt_dec_pad width n = (let s = fmt_dec n in replicate (width - length s) (CHR ''0'') @ s)"

definition replica_slot_id :: "nat \<Rightarrow> slot_id" where
  "replica_slot_id index = SlotId (''slot-'' @ fmt_dec_pad 4 (index + 1))"

definition global_slot_id :: "machine_id \<Rightarrow> slot_id" where
  "global_slot_id m = SlotId (''slot-'' @ machine_id_str m)"

definition place_replica ::
    "machine_id list \<Rightarrow> service_release_slot list option \<Rightarrow> nat \<Rightarrow> ('e deploy_error, desired_slot) result" where
  "place_replica candidates current_slots index =
    (case (case current_slots of
             Some slots \<Rightarrow> map_option rs_machine_id (find (\<lambda>slot. rs_slot_id slot = replica_slot_id index) slots)
           | None \<Rightarrow> None) of
       Some m \<Rightarrow> Inr \<lparr> ds_slot_id = replica_slot_id index, ds_machine_id = m \<rparr>
     | None \<Rightarrow>
         let candidate_index = index mod length candidates in
         if candidate_index < length candidates
         then Inr \<lparr> ds_slot_id = replica_slot_id index, ds_machine_id = candidates ! candidate_index \<rparr>
         else Inl (Slots_Out_Of_Bounds candidate_index))"

definition desired_slots ::
    "service_spec \<Rightarrow> machine_id list \<Rightarrow> service_release_slot list option \<Rightarrow>
     ('e deploy_error, desired_slot list) result" where
  "desired_slots spec machines current_slots =
    (let candidates = (if machines = [] then [MachineId ''local''] else machines) in
     if candidates = [] then Inl Slots_No_Candidate
     else
       (case ss_placement spec of
          Replicated n \<Rightarrow>
            if n = 0 then Inl (Slots_Zero_Replicas (ss_name spec))
            else map_res (place_replica candidates current_slots) [0..<unat n]
        | Global \<Rightarrow>
            Inr (map (\<lambda>m. \<lparr> ds_slot_id = global_slot_id m, ds_machine_id = m \<rparr>) candidates)))"

definition current_slots_by_service ::
    "(string, service_release_record) hash_map \<Rightarrow> (string, service_release_slot list) hash_map" where
  "current_slots_by_service m = hm_collect (map (\<lambda>(service, r). (service, rl_slots (rr_release r))) m)"

definition current_slots_by_service_from_releases ::
    "service_release_record list \<Rightarrow> (string, service_release_slot list) hash_map" where
  "current_slots_by_service_from_releases rs =
    hm_collect (map (\<lambda>r. (rr_service r, rl_slots (rr_release r))) rs)"

section \<open>Preview\<close>

definition slot_action :: "service_release_slot option \<Rightarrow> desired_slot \<Rightarrow> string \<Rightarrow> deploy_change_kind" where
  "slot_action current desired hash =
    (case current of
       Some slot \<Rightarrow>
         if rs_machine_id slot = ds_machine_id desired \<and> rs_revision_hash slot = hash
         then Change_Unchanged else Change_Replace
     | None \<Rightarrow> Change_Create)"

definition plan_slot :: "service_release_slot list \<Rightarrow> string \<Rightarrow> desired_slot \<Rightarrow> slot_plan" where
  "plan_slot current_service_slots hash desired =
    (let current = find (\<lambda>slot. rs_slot_id slot = ds_slot_id desired) current_service_slots in
     \<lparr> sp_slot_id = ds_slot_id desired, sp_machine_id = ds_machine_id desired,
       sp_current_instance_id = map_option rs_active_instance_id current,
       sp_next_instance_id = None,
       sp_current_revision_hash = map_option rs_revision_hash current,
       sp_next_revision_hash = Some hash,
       sp_action = slot_action current desired hash \<rparr>)"

definition service_action ::
    "slot_plan list \<Rightarrow> service_release_record option \<Rightarrow> string \<Rightarrow> deploy_change_kind" where
  "service_action plans current_release hash =
    (if (\<forall>p\<in>set plans. sp_action p = Change_Unchanged) \<and>
        map_option (\<lambda>r. rl_primary_revision_hash (rr_release r)) current_release = Some hash
     then Change_Unchanged
     else if current_release = None then Change_Create
     else Change_Replace)"

type_synonym preview_acc = "machine_id list \<times> service_plan list"

definition service_plan_of ::
    "(string, service_release_record) hash_map \<Rightarrow> (string, service_release_slot list) hash_map \<Rightarrow>
     service_spec \<Rightarrow> string \<Rightarrow> desired_slot list \<Rightarrow> service_plan" where
  "service_plan_of release_map slots_map spec hash desired =
    (let current_service_slots = unwrap_or (hm_get slots_map (ss_name spec)) [];
         current_release = hm_get release_map (ss_name spec);
         plans = map (plan_slot current_service_slots hash) desired
     in \<lparr> pl_service = ss_name spec,
          pl_current_revision_hash = map_option (\<lambda>r. rl_primary_revision_hash (rr_release r)) current_release,
          pl_next_revision_hash = Some hash,
          pl_slots = plans,
          pl_action = service_action plans current_release hash \<rparr>)"

definition plan_service ::
    "('w, 's, 'e) deploy_env \<Rightarrow> (string, service_release_record) hash_map \<Rightarrow>
     (string, service_release_slot list) hash_map \<Rightarrow> machine_id list \<Rightarrow>
     service_spec \<Rightarrow> preview_acc \<Rightarrow> ('e deploy_error, preview_acc) result" where
  "plan_service env release_map slots_map machines spec acc =
    (case acc of (participants, services) \<Rightarrow>
      bind_res (map_err Serialize_Revision (revision_hash (env_spec_json env) spec)) (\<lambda>hash.
      bind_res (desired_slots spec machines (hm_get slots_map (ss_name spec))) (\<lambda>desired.
      let current_service_slots = unwrap_or (hm_get slots_map (ss_name spec)) [];
          participants1 = fold bs_insert (map ds_machine_id desired) participants;
          participants2 = fold bs_insert (map rs_machine_id current_service_slots) participants1
      in Inr (participants2, services @ [service_plan_of release_map slots_map spec hash desired]))))"

definition plan_removed_slot :: "service_release_slot \<Rightarrow> slot_plan" where
  "plan_removed_slot slot =
    \<lparr> sp_slot_id = rs_slot_id slot, sp_machine_id = rs_machine_id slot,
      sp_current_instance_id = Some (rs_active_instance_id slot), sp_next_instance_id = None,
      sp_current_revision_hash = Some (rs_revision_hash slot), sp_next_revision_hash = None,
      sp_action = Change_Remove \<rparr>"

definition removed_service_plan ::
    "(string, service_release_record) hash_map \<Rightarrow> string \<times> service_release_slot list \<Rightarrow> service_plan" where
  "removed_service_plan release_map entry =
    (case entry of (service, slots) \<Rightarrow>
      \<lparr> pl_service = service,
        pl_current_revision_hash =
          map_option (\<lambda>r. rl_primary_revision_hash (rr_release r)) (hm_get release_map service),
        pl_next_revision_hash = None,
        pl_slots = map plan_removed_slot slots,
        pl_action = Change_Remove \<rparr>)"

definition plan_removed_service ::
    "deploy_manifest \<Rightarrow> (string, service_release_record) hash_map \<Rightarrow>
     string \<times> service_release_slot list \<Rightarrow> preview_acc \<Rightarrow> preview_acc" where
  "plan_removed_service manifest release_map entry acc =
    (case acc of (participants, services) \<Rightarrow>
      if \<exists>spec\<in>set (dm_services manifest). ss_name spec = fst entry then acc
      else (fold bs_insert (map rs_machine_id (snd entry)) participants,
            services @ [removed_service_plan release_map entry]))"

definition build_preview ::
    "('w, 's, 'e) deploy_env \<Rightarrow> machine_id \<Rightarrow> deploy_manifest \<Rightarrow> service_release_record list \<Rightarrow>
     machine_record list \<Rightarrow> timestamp \<Rightarrow> ('e deploy_error, deploy_preview) result" where
  "build_preview env local manifest current_releases machines now =
    (let desired_machines = deployable_machines machines local now;
         release_map = hm_collect (map (\<lambda>r. (rr_service r, r)) current_releases);
         slots_map = current_slots_by_service release_map
     in bind_res (map_err Serialize_Manifest (env_manifest_json env manifest)) (\<lambda>json.
        bind_res (fold_res (plan_service env release_map slots_map desired_machines)
                   (dm_services manifest) (bs_of_list desired_machines, [])) (\<lambda>acc.
        case fold (plan_removed_service manifest release_map) slots_map acc of
          (participants, services) \<Rightarrow>
            Inr \<lparr> dp_namespace = dm_namespace manifest, dp_manifest_hash = stable_hash_hex json,
                  dp_participants = participants, dp_services = services, dp_warnings = [] \<rparr>)))"

definition preview ::
    "('w, 's, 'e) deploy_env \<Rightarrow> machine_id \<Rightarrow> deploy_manifest \<Rightarrow> ('w, 'e, deploy_preview) deploy_action" where
  "preview env local manifest =
    bind_act (lift_res (map_err Invalid_Manifest (manifest_validate manifest))) (\<lambda>_.
    bind_act (backend (env_list_service_releases env (dm_namespace manifest))) (\<lambda>current_releases.
    bind_act (backend (env_list_machines env)) (\<lambda>machines.
    bind_act (now_act env) (\<lambda>now.
    lift_res (build_preview env local manifest current_releases machines now)))))"

section \<open>Specification of placement and preview\<close>

definition sticky_machine :: "service_release_slot list option \<Rightarrow> slot_id \<Rightarrow> machine_id option" where
  "sticky_machine current i =
    (case current of
       Some slots \<Rightarrow> map_option rs_machine_id (find (\<lambda>slot. rs_slot_id slot = i) slots)
     | None \<Rightarrow> None)"

text \<open>The records listed for a namespace are those of a table of releases.\<close>

type_synonym release_table = "release_key \<Rightarrow> service_release_record option"

definition releases_match :: "namespace \<Rightarrow> release_table \<Rightarrow> service_release_record list \<Rightarrow> bool" where
  "releases_match ns R rs \<longleftrightarrow> (\<forall>s r. R (ns, s) = Some r \<longleftrightarrow> r \<in> set rs \<and> rr_service r = s)"

definition table_slots :: "namespace \<Rightarrow> release_table \<Rightarrow> string \<Rightarrow> service_release_slot list option" where
  "table_slots ns R service = map_option (\<lambda>r. rl_slots (rr_release r)) (R (ns, service))"

definition service_names :: "deploy_manifest \<Rightarrow> string set" where
  "service_names manifest = set (map ss_name (dm_services manifest))"

text \<open>What the plan of a service of the manifest says, given its current slots and the participants.\<close>

definition service_planned ::
    "('w, 's, 'e) deploy_env \<Rightarrow> machine_id list \<Rightarrow> service_release_slot list option \<Rightarrow> machine_id set \<Rightarrow>
     service_spec \<Rightarrow> service_plan \<Rightarrow> bool" where
  "service_planned env machines current participants spec plan \<longleftrightarrow>
    (\<exists>hash desired.
      revision_hash (env_spec_json env) spec = Inr hash \<and>
      desired_slots spec machines current = (Inr desired :: ('e deploy_error, _) result) \<and>
      ds_machine_id ` set desired \<union> rs_machine_id ` set (unwrap_or current []) \<subseteq> participants \<and>
      pl_service plan = ss_name spec \<and> pl_action plan \<noteq> Change_Remove \<and>
      pl_slots plan = map (plan_slot (unwrap_or current []) hash) desired)"

section \<open>Slot identifiers\<close>

lemma parse_digits_zeros: "parse_digits 0 (replicate k (CHR ''0'') @ s) = parse_digits 0 s"
  by (induction k) (simp_all add: digit_value_def is_ascii_digit_def)

lemma fmt_dec_pad_inject [simp]: "fmt_dec_pad k m = fmt_dec_pad k n \<longleftrightarrow> m = n"
proof -
  have "parse_digits 0 (fmt_dec_pad k i) = Some i" for i
    by (simp add: fmt_dec_pad_def Let_def parse_digits_zeros fmt_dec_def parse_digits_fmt_radix)
  then show ?thesis by (metis option.inject)
qed

lemma replica_slot_id_inject [simp]: "replica_slot_id i = replica_slot_id j \<longleftrightarrow> i = j"
  by (simp add: replica_slot_id_def)

lemma global_slot_id_inject [simp]: "global_slot_id m = global_slot_id n \<longleftrightarrow> m = n"
  by (cases m; cases n) (simp add: global_slot_id_def)

section \<open>Placement is total and assigns every slot once\<close>

lemma deployable_machines_not_Nil [simp]: "deployable_machines machines local now \<noteq> []"
  by (auto simp: deployable_machines_def Let_def)

lemma set_deployable_machines:
  "set (deployable_machines machines local now) =
    (let enabled = {mr_id m | m. m \<in> set machines \<and> mr_participation m = Participation_Enabled \<and> machine_is_fresh m now}
     in if enabled = {} then {local} else enabled)"
proof -
  define es where "es = sort_by (\<lambda>l r. cmp (machine_id_str l) (machine_id_str r))
    (map mr_id (filter (\<lambda>m. machine_is_fresh m now)
      (filter (\<lambda>m. mr_participation m = Participation_Enabled) machines)))"
  define enabled where "enabled =
    {mr_id m | m. m \<in> set machines \<and> mr_participation m = Participation_Enabled \<and> machine_is_fresh m now}"
  have "set es = set (map mr_id (filter (\<lambda>m. machine_is_fresh m now)
      (filter (\<lambda>m. mr_participation m = Participation_Enabled) machines)))"
    unfolding es_def by (rule comparator.set_sort_by[OF comparator_key])
  also have "\<dots> = enabled" by (auto simp: enabled_def)
  finally have es: "set es = enabled" .
  then have "es = [] \<longleftrightarrow> enabled = {}" by (metis set_empty)
  moreover have "deployable_machines machines local now = (if es = [] then [local] else es)"
    by (simp add: deployable_machines_def es_def Let_def)
  ultimately show ?thesis using es by (simp add: enabled_def[symmetric] Let_def)
qed

lemma place_replica_ok:
  assumes "candidates \<noteq> []"
  shows "place_replica candidates current i =
    Inr \<lparr> ds_slot_id = replica_slot_id i,
          ds_machine_id = (case (case current of
               Some slots \<Rightarrow> map_option rs_machine_id (find (\<lambda>slot. rs_slot_id slot = replica_slot_id i) slots)
             | None \<Rightarrow> None) of Some m \<Rightarrow> m | None \<Rightarrow> candidates ! (i mod length candidates)) \<rparr>"
  using assms by (auto simp: place_replica_def Let_def split: option.split)

lemma map_res_ok: "(\<And>x. x \<in> set xs \<Longrightarrow> f x = Inr (g x)) \<Longrightarrow> map_res f xs = Inr (map g xs)"
  by (induction xs) auto

lemma desired_slots_replicated:
  assumes "ss_placement spec = Replicated n" and "n \<noteq> 0" and "machines \<noteq> []"
  shows "desired_slots spec machines current =
    Inr (map (\<lambda>i. \<lparr> ds_slot_id = replica_slot_id i,
                    ds_machine_id = (case sticky_machine current (replica_slot_id i) of
                       Some m \<Rightarrow> m | None \<Rightarrow> machines ! (i mod length machines)) \<rparr>) [0..<unat n])"
  using assms by (simp add: desired_slots_def Let_def sticky_machine_def map_res_ok[OF place_replica_ok])

lemma desired_slots_zero:
  assumes "ss_placement spec = Replicated 0" and "machines \<noteq> []"
  shows "desired_slots spec machines current = Inl (Slots_Zero_Replicas (ss_name spec))"
  unfolding desired_slots_def Let_def assms(1) placement.case if_not_P[OF assms(2)] by simp

lemma desired_slots_global:
  assumes "ss_placement spec = Global" and "machines \<noteq> []"
  shows "desired_slots spec machines current =
    Inr (map (\<lambda>m. \<lparr> ds_slot_id = global_slot_id m, ds_machine_id = m \<rparr>) machines)"
  using assms by (simp add: desired_slots_def Let_def)

section \<open>Preview\<close>

lemma map_of_functional:
  assumes "\<And>v v'. (k, v) \<in> set kvs \<Longrightarrow> (k, v') \<in> set kvs \<Longrightarrow> v = v'"
  shows "map_of kvs k = Some v \<longleftrightarrow> (k, v) \<in> set kvs"
proof
  assume "(k, v) \<in> set kvs"
  moreover then obtain v' where "map_of kvs k = Some v'"
    using map_of_eq_None_iff[of kvs k] by force
  ultimately show "map_of kvs k = Some v" using assms map_of_SomeD[of kvs k v'] by metis
qed (rule map_of_SomeD)

lemma release_map_get:
  assumes "releases_match ns R rs"
  shows "hm_get (hm_collect (map (\<lambda>r. (rr_service r, r)) rs)) s = R (ns, s)"
proof -
  have "map_of (rev (map (\<lambda>r. (rr_service r, r)) rs)) s = Some r \<longleftrightarrow> R (ns, s) = Some r" for r
  proof (subst map_of_functional)
    fix v v' assume "(s, v) \<in> set (rev (map (\<lambda>r. (rr_service r, r)) rs))"
      "(s, v') \<in> set (rev (map (\<lambda>r. (rr_service r, r)) rs))"
    then have "R (ns, s) = Some v" "R (ns, s) = Some v'"
      using assms by (auto simp: releases_match_def)
    then show "v = v'" by simp
  next
    show "(s, r) \<in> set (rev (map (\<lambda>r. (rr_service r, r)) rs)) \<longleftrightarrow> R (ns, s) = Some r"
      using assms by (auto simp: releases_match_def)
  qed
  then show ?thesis by (metis hm_get_collect not_None_eq)
qed

lemma map_of_map_snd: "map_of (map (\<lambda>(k, v). (k, f v)) m) k = map_option f (map_of m k)"
  by (induction m) auto

lemma hm_get_collect_wf:
  assumes "hm_wf m"
  shows "hm_get (hm_collect (map (\<lambda>(k, v). (k, f v)) m)) k = map_option f (hm_get m k)"
proof -
  have keys: "map fst (map (\<lambda>(k, v). (k, f v)) m) = map fst m"
    by (simp add: case_prod_unfold)
  then have "distinct (map fst (map (\<lambda>(k, v). (k, f v)) m))"
    using assms by (simp only: hm_wf_def)
  moreover from this have "distinct (map fst (rev (map (\<lambda>(k, v). (k, f v)) m)))"
    unfolding rev_map[symmetric] by (metis distinct_rev rev_map)
  ultimately have "map_of (rev (map (\<lambda>(k, v). (k, f v)) m)) = map_of (map (\<lambda>(k, v). (k, f v)) m)"
    by (simp only: map_of_inject_set set_rev)
  then show ?thesis by (simp add: hm_get_collect map_of_map_snd)
qed

lemma slots_map_get:
  assumes "releases_match ns R rs"
  shows "hm_get (current_slots_by_service (hm_collect (map (\<lambda>r. (rr_service r, r)) rs))) s = table_slots ns R s"
  unfolding current_slots_by_service_def table_slots_def release_map_get[OF assms, symmetric]
  by (rule hm_get_collect_wf[OF hm_wf_collect])

lemma slots_from_releases_get:
  assumes "releases_match ns R rs"
  shows "hm_get (current_slots_by_service_from_releases rs) s = table_slots ns R s"
proof -
  have "hm_get (current_slots_by_service_from_releases rs) s =
      map_option (\<lambda>r. rl_slots (rr_release r)) (map_of (rev (map (\<lambda>r. (rr_service r, r)) rs)) s)"
    by (simp add: current_slots_by_service_from_releases_def hm_get_collect rev_map
      flip: map_of_map_snd) (simp add: rev_map comp_def)
  then show ?thesis using release_map_get[OF assms] by (simp add: hm_get_collect table_slots_def)
qed

lemma plan_service_Inr:
  fixes env :: "('w, 's, 'e) deploy_env"
  assumes "plan_service env rm sm machines spec (P0, S0) = Inr acc"
  obtains hash desired where "revision_hash (env_spec_json env) spec = Inr hash"
    "desired_slots spec machines (hm_get sm (ss_name spec)) = (Inr desired :: ('e deploy_error, _) result)"
    "acc = (fold bs_insert (map rs_machine_id (unwrap_or (hm_get sm (ss_name spec)) []))
              (fold bs_insert (map ds_machine_id desired) P0),
            S0 @ [service_plan_of rm sm spec hash desired])"
  using assms by (auto simp: plan_service_def Let_def)

lemma plan_services_spec:
  fixes env :: "('w, 's, 'e) deploy_env"
  assumes "fold_res (plan_service env rm sm machines) specs (P0, S0) = Inr (P, S)"
  shows "\<exists>plans. S = S0 @ plans \<and>
    list_all2 (\<lambda>spec plan. \<exists>hash desired.
      revision_hash (env_spec_json env) spec = Inr hash \<and>
      desired_slots spec machines (hm_get sm (ss_name spec)) = (Inr desired :: ('e deploy_error, _) result) \<and>
      ds_machine_id ` set desired \<union> rs_machine_id ` set (unwrap_or (hm_get sm (ss_name spec)) []) \<subseteq> set P \<and>
      plan = service_plan_of rm sm spec hash desired) specs plans"
    and "set P0 \<subseteq> set P" and "sorted_wrt (<) P0 \<Longrightarrow> sorted_wrt (<) P"
proof -
  let ?ok = "\<lambda>P spec plan. \<exists>hash desired.
      revision_hash (env_spec_json env) spec = Inr hash \<and>
      desired_slots spec machines (hm_get sm (ss_name spec)) = (Inr desired :: ('e deploy_error, _) result) \<and>
      ds_machine_id ` set desired \<union> rs_machine_id ` set (unwrap_or (hm_get sm (ss_name spec)) []) \<subseteq> set P \<and>
      plan = service_plan_of rm sm spec hash desired"
  have "(\<exists>plans. S = S0 @ plans \<and> list_all2 (?ok P) specs plans) \<and> set P0 \<subseteq> set P \<and>
      (sorted_wrt (<) P0 \<longrightarrow> sorted_wrt (<) P)"
    using assms
  proof (induction specs arbitrary: P0 S0)
    case Nil
    then show ?case by simp
  next
    case (Cons spec specs)
    then obtain acc where step: "plan_service env rm sm machines spec (P0, S0) = Inr acc"
      and rest: "fold_res (plan_service env rm sm machines) specs acc = Inr (P, S)" by auto
    from step obtain hash desired where h: "revision_hash (env_spec_json env) spec = Inr hash"
      and d: "desired_slots spec machines (hm_get sm (ss_name spec)) = (Inr desired :: ('e deploy_error, _) result)"
      and acc: "acc = (fold bs_insert (map rs_machine_id (unwrap_or (hm_get sm (ss_name spec)) []))
           (fold bs_insert (map ds_machine_id desired) P0),
         S0 @ [service_plan_of rm sm spec hash desired])"
      by (rule plan_service_Inr)
    from Cons.IH[OF rest[unfolded acc]] obtain plans where
      S: "S = (S0 @ [service_plan_of rm sm spec hash desired]) @ plans"
      and all: "list_all2 (?ok P) specs plans"
      and sub: "ds_machine_id ` set desired \<union> rs_machine_id ` set (unwrap_or (hm_get sm (ss_name spec)) []) \<union> set P0 \<subseteq> set P"
      and sorted: "sorted_wrt (<) P0 \<longrightarrow> sorted_wrt (<) P"
      by (auto simp: set_fold_bs_insert sorted_fold_bs_insert)
    have "?ok P spec (service_plan_of rm sm spec hash desired)"
      using h d sub by blast
    then have "list_all2 (?ok P) (spec # specs) (service_plan_of rm sm spec hash desired # plans)"
      using all by (rule list.rel_intros(2))
    then show ?case using S sub sorted by auto
  qed
  then show "\<exists>plans. S = S0 @ plans \<and> list_all2 (?ok P) specs plans"
    and "set P0 \<subseteq> set P" and "sorted_wrt (<) P0 \<Longrightarrow> sorted_wrt (<) P" by blast+
qed

lemma plan_removed_spec:
  assumes "fold (plan_removed_service manifest rm) entries (P0, S0) = (P, S)"
  shows "S = S0 @ map (removed_service_plan rm) (filter (\<lambda>e. fst e \<notin> service_names manifest) entries)"
    and "set P = set P0 \<union> (\<Union>e\<in>set (filter (\<lambda>e. fst e \<notin> service_names manifest) entries). rs_machine_id ` set (snd e))"
    and "sorted_wrt (<) P0 \<Longrightarrow> sorted_wrt (<) P"
proof -
  have listed: "(\<exists>spec\<in>set (dm_services manifest). ss_name spec = s) \<longleftrightarrow> s \<in> service_names manifest" for s
    by (auto simp: service_names_def)
  have step: "plan_removed_service manifest rm e (P0, S0) =
      (if fst e \<in> service_names manifest then (P0, S0)
       else (fold bs_insert (map rs_machine_id (snd e)) P0, S0 @ [removed_service_plan rm e]))" for e P0 S0
    by (simp add: plan_removed_service_def listed)
  have "S = S0 @ map (removed_service_plan rm) (filter (\<lambda>e. fst e \<notin> service_names manifest) entries) \<and>
    set P = set P0 \<union> (\<Union>e\<in>set (filter (\<lambda>e. fst e \<notin> service_names manifest) entries). rs_machine_id ` set (snd e)) \<and>
    (sorted_wrt (<) P0 \<longrightarrow> sorted_wrt (<) P)"
    using assms
  proof (induction entries arbitrary: P0 S0)
    case (Cons e entries)
    show ?case
    proof (cases "fst e \<in> service_names manifest")
      case True
      then show ?thesis using Cons by (simp add: step)
    next
      case False
      then have "fold (plan_removed_service manifest rm) entries
          (fold bs_insert (map rs_machine_id (snd e)) P0, S0 @ [removed_service_plan rm e]) = (P, S)"
        using Cons.prems by (simp add: step)
      from Cons.IH[OF this] show ?thesis using False
        by (auto simp: set_fold_bs_insert sorted_fold_bs_insert)
    qed
  qed simp
  then show "S = S0 @ map (removed_service_plan rm) (filter (\<lambda>e. fst e \<notin> service_names manifest) entries)"
    and "set P = set P0 \<union> (\<Union>e\<in>set (filter (\<lambda>e. fst e \<notin> service_names manifest) entries). rs_machine_id ` set (snd e))"
    and "sorted_wrt (<) P0 \<Longrightarrow> sorted_wrt (<) P" by blast+
qed

lemma service_plan_of_simps [simp]:
  "pl_service (service_plan_of rm sm spec hash desired) = ss_name spec"
  "pl_next_revision_hash (service_plan_of rm sm spec hash desired) = Some hash"
  "pl_slots (service_plan_of rm sm spec hash desired) =
    map (plan_slot (unwrap_or (hm_get sm (ss_name spec)) []) hash) desired"
  "pl_action (service_plan_of rm sm spec hash desired) \<noteq> Change_Remove"
  by (simp_all add: service_plan_of_def service_action_def Let_def)

lemma removed_service_plan_simps [simp]:
  "pl_service (removed_service_plan rm e) = fst e"
  "pl_slots (removed_service_plan rm e) = map plan_removed_slot (snd e)"
  "pl_action (removed_service_plan rm e) = Change_Remove"
  by (simp_all add: removed_service_plan_def split: prod.split)

lemma service_plannedD:
  assumes "service_planned env machines current P spec plan"
  shows "pl_service plan = ss_name spec" "pl_action plan \<noteq> Change_Remove"
    "\<forall>slot\<in>set (pl_slots plan). sp_machine_id slot \<in> P" "rs_machine_id ` set (unwrap_or current []) \<subseteq> P"
proof -
  have "sp_machine_id (plan_slot c h d) = ds_machine_id d" for c h d by (simp add: plan_slot_def Let_def)
  then show "pl_service plan = ss_name spec" "pl_action plan \<noteq> Change_Remove"
    "\<forall>slot\<in>set (pl_slots plan). sp_machine_id slot \<in> P" "rs_machine_id ` set (unwrap_or current []) \<subseteq> P"
    using assms by (auto simp: service_planned_def image_subset_iff)
qed

lemma planned_services:
  assumes plans: "list_all2 (\<lambda>spec. service_planned env ms (current spec) P spec) specs plans"
  shows "map pl_service plans = map ss_name specs"
    and "plan \<in> set plans \<Longrightarrow> pl_service plan \<in> set (map ss_name specs) \<and> pl_action plan \<noteq> Change_Remove \<and>
      (\<forall>slot\<in>set (pl_slots plan). sp_machine_id slot \<in> P)"
    and "spec \<in> set specs \<Longrightarrow> rs_machine_id ` set (unwrap_or (current spec) []) \<subseteq> P"
proof -
  show "map pl_service plans = map ss_name specs"
    using plans by (induction rule: list_all2_induct) (simp_all add: service_plannedD(1))
next
  assume "plan \<in> set plans"
  then obtain spec where "spec \<in> set specs" "service_planned env ms (current spec) P spec plan"
    using list_all2_set2[OF plans] by blast
  then show "pl_service plan \<in> set (map ss_name specs) \<and> pl_action plan \<noteq> Change_Remove \<and>
      (\<forall>slot\<in>set (pl_slots plan). sp_machine_id slot \<in> P)"
    using service_plannedD by fastforce
next
  assume "spec \<in> set specs"
  then obtain plan where "service_planned env ms (current spec) P spec plan"
    using list_all2_set1[OF plans] by blast
  then show "rs_machine_id ` set (unwrap_or (current spec) []) \<subseteq> P" by (rule service_plannedD(4))
qed

lemma service_planned_of:
  fixes env :: "('w, 's, 'e) deploy_env"
  assumes "revision_hash (env_spec_json env) spec = Inr hash"
    and "desired_slots spec ms (hm_get sm (ss_name spec)) = (Inr desired :: ('e deploy_error, _) result)"
    and "ds_machine_id ` set desired \<union> rs_machine_id ` set (unwrap_or (hm_get sm (ss_name spec)) []) \<subseteq> P0"
    and "P0 \<subseteq> P"
  shows "service_planned env ms (hm_get sm (ss_name spec)) P spec (service_plan_of rm sm spec hash desired)"
  unfolding service_planned_def
  by (intro exI[of _ hash] exI[of _ desired] conjI assms(1,2) subset_trans[OF assms(3,4)]) simp_all

text \<open>The removals: one for every released service that the manifest lacks.\<close>

lemma removed_plans:
  fixes rm manifest
  assumes wf: "hm_wf sm" and sm: "\<And>s. hm_get sm s = table_slots ns R s"
  defines "gone \<equiv> map (removed_service_plan rm) (filter (\<lambda>e. fst e \<notin> service_names manifest) sm)"
  shows "distinct (map pl_service gone)"
    and "set (map pl_service gone) = {s. R (ns, s) \<noteq> None} - service_names manifest"
    and "plan \<in> set gone \<Longrightarrow> pl_action plan = Change_Remove \<and>
      pl_slots plan = map plan_removed_slot (unwrap_or (table_slots ns R (pl_service plan)) [])"
proof -
  let ?gone = "filter (\<lambda>e. fst e \<notin> service_names manifest) sm"
  have names: "map pl_service gone = map fst ?gone"
    unfolding gone_def by (induction ?gone) auto
  show "distinct (map pl_service gone)"
    unfolding names using wf by (simp add: hm_wf_def distinct_map_filter)
  have "s \<in> fst ` set sm \<longleftrightarrow> R (ns, s) \<noteq> None" for s
    using hm.entries_keys[OF wf, of s] sm by (simp add: table_slots_def)
  moreover have "fst ` set ?gone = fst ` set sm - service_names manifest" by force
  ultimately show "set (map pl_service gone) = {s. R (ns, s) \<noteq> None} - service_names manifest"
    unfolding names set_map by blast
  have "(s, slots) \<in> set sm \<longleftrightarrow> table_slots ns R s = Some slots" for s slots
    using hm.entries_get[OF wf] sm by simp
  then show "pl_action plan = Change_Remove \<and>
      pl_slots plan = map plan_removed_slot (unwrap_or (table_slots ns R (pl_service plan)) [])" if "plan \<in> set gone"
    using that unfolding gone_def by auto
qed

text \<open>The plans of a preview: first those of the manifest, in its order, then the removals.\<close>

lemma build_preview_plans:
  fixes env :: "('w, 's, 'e) deploy_env"
  assumes pv: "build_preview env local manifest rs machines now = Inr pv"
    and R: "releases_match ns R rs"
  obtains plans gone where "dp_services pv = plans @ gone"
    "list_all2 (\<lambda>spec. service_planned env (deployable_machines machines local now)
       (table_slots ns R (ss_name spec)) (set (dp_participants pv)) spec) (dm_services manifest) plans"
    "distinct (map pl_service gone)"
    "set (map pl_service gone) = {s. R (ns, s) \<noteq> None} - service_names manifest"
    "\<And>plan. plan \<in> set gone \<Longrightarrow> pl_action plan = Change_Remove \<and>
      pl_slots plan = map plan_removed_slot (unwrap_or (table_slots ns R (pl_service plan)) [])"
    "\<And>plan slot. plan \<in> set gone \<Longrightarrow> slot \<in> set (pl_slots plan) \<Longrightarrow> sp_machine_id slot \<in> set (dp_participants pv)"
    "set (deployable_machines machines local now) \<subseteq> set (dp_participants pv)"
    "sorted_wrt (<) (dp_participants pv)"
proof -
  define rm where "rm = hm_collect (map (\<lambda>r. (rr_service r, r)) rs)"
  define sm where "sm = current_slots_by_service rm"
  define ms where "ms = deployable_machines machines local now"
  have sm: "hm_get sm s = table_slots ns R s" for s
    using slots_map_get[OF R] by (simp add: sm_def rm_def)
  have wf: "hm_wf sm" by (simp add: sm_def current_slots_by_service_def)
  from pv obtain json acc where
    run: "fold_res (plan_service env rm sm ms) (dm_services manifest) (bs_of_list ms, []) = Inr acc"
    and pv': "(case fold (plan_removed_service manifest rm) sm acc of (participants, services) \<Rightarrow>
        Inr \<lparr> dp_namespace = dm_namespace manifest, dp_manifest_hash = stable_hash_hex json,
              dp_participants = participants, dp_services = services, dp_warnings = [] \<rparr>) =
      (Inr pv :: ('e deploy_error, _) result)"
    unfolding build_preview_def Let_def bind_res_Inr_iff rm_def[symmetric] sm_def[symmetric] ms_def[symmetric]
    by blast
  obtain P0 S0 where acc: "acc = (P0, S0)" by (cases acc)
  obtain P S where second: "fold (plan_removed_service manifest rm) sm (P0, S0) = (P, S)"
    by (cases "fold (plan_removed_service manifest rm) sm (P0, S0)")
  note first = run[unfolded acc]
  have res: "dp_participants pv = P" "dp_services pv = S"
    using pv' second unfolding acc by auto
  note planned = plan_services_spec[OF first] and gone = plan_removed_spec[OF second]
  note removals = removed_plans[OF wf sm, where rm = rm and manifest = manifest]
  have sub: "set P0 \<subseteq> set P" using gone(2) by blast
  let ?gone = "map (removed_service_plan rm) (filter (\<lambda>e. fst e \<notin> service_names manifest) sm)"
  show thesis
  proof (rule that[of S0 ?gone])
    show "dp_services pv = S0 @ ?gone" using res gone(1) by simp
    show "set (deployable_machines machines local now) \<subseteq> set (dp_participants pv)"
      using planned(2) sub res by (auto simp: ms_def)
    show "sorted_wrt (<) (dp_participants pv)" using planned(3) gone(3) res sorted_bs_of_list by blast
    show "list_all2 (\<lambda>spec. service_planned env (deployable_machines machines local now)
        (table_slots ns R (ss_name spec)) (set (dp_participants pv)) spec) (dm_services manifest) S0"
      using planned(1) unfolding ms_def[symmetric] sm[symmetric] res
      by (elim exE conjE, simp only: append_Nil, elim list_all2_mono) (elim exE conjE, simp only: service_planned_of[OF _ _ _ sub])
  next
    fix plan slot assume "plan \<in> set ?gone" "slot \<in> set (pl_slots plan)"
    then show "sp_machine_id slot \<in> set (dp_participants pv)"
      using gone(2) res by (force simp: plan_removed_slot_def)
  qed (use removals in blast)+
qed

lemma desired_slots_ok:
  assumes "ss_placement spec \<noteq> Replicated 0" and "machines \<noteq> []"
  obtains slots where "desired_slots spec machines current = Inr slots"
proof (cases "ss_placement spec")
  case Global
  then show ?thesis using that desired_slots_global[OF _ assms(2)] by blast
next
  case (Replicated n)
  then show ?thesis using that desired_slots_replicated[OF Replicated _ assms(2)] assms(1) by blast
qed

lemma plan_services_ok:
  fixes env :: "('w, 's, 'e) deploy_env"
  assumes "\<And>spec. spec \<in> set specs \<Longrightarrow> is_ok (revision_hash (env_spec_json env) spec) \<and> ss_placement spec \<noteq> Replicated 0"
    and "machines \<noteq> []"
  shows "\<exists>acc'. fold_res (plan_service env rm sm machines) specs acc = Inr acc'"
  using assms(1)
proof (induction specs arbitrary: acc)
  case (Cons spec specs)
  obtain hash where h: "revision_hash (env_spec_json env) spec = Inr hash"
    using Cons.prems[of spec] by (auto simp: is_ok_iff)
  obtain desired where d: "desired_slots spec machines (hm_get sm (ss_name spec)) =
      (Inr desired :: ('e deploy_error, _) result)"
    using desired_slots_ok[OF _ assms(2)] Cons.prems[of spec] by auto
  obtain acc1 where "plan_service env rm sm machines spec acc = Inr acc1"
    using h d by (cases acc) (simp add: plan_service_def Let_def)
  then show ?case using Cons.IH[of acc1] Cons.prems by auto
qed simp

lemma build_preview_ok:
  assumes "env_manifest_json env manifest = Inr json"
    and "\<And>spec. spec \<in> set (dm_services manifest) \<Longrightarrow>
      is_ok (revision_hash (env_spec_json env) spec) \<and> ss_placement spec \<noteq> Replicated 0"
  shows "\<exists>pv. build_preview env local manifest rs machines now = Inr pv"
proof -
  define rm where "rm = hm_collect (map (\<lambda>r. (rr_service r, r)) rs)"
  define ms where "ms = deployable_machines machines local now"
  obtain acc where "fold_res (plan_service env rm (current_slots_by_service rm) ms)
      (dm_services manifest) (bs_of_list ms, []) = Inr acc"
    using plan_services_ok[where specs = "dm_services manifest" and machines = ms, OF assms(2)
        deployable_machines_not_Nil[of machines local now, folded ms_def]] by blast
  then show ?thesis
    unfolding build_preview_def Let_def rm_def[symmetric] ms_def[symmetric]
    by (simp add: assms(1) split: prod.split)
qed

section \<open>Properties of placement\<close>

lemma count_residues:
  assumes "j < k"
  shows "length (filter (\<lambda>i. i mod k = j) [0..<n]) = n div k + (if j < n mod k then 1 else 0)"
proof (induction n)
  case (Suc n)
  have "n mod k < k" using assms by simp
  then show ?case using Suc assms by (auto simp: div_Suc mod_Suc split: if_splits)
qed (simp add: assms)

lemma count_round_robin:
  assumes "distinct machines" and "m \<in> set machines"
  shows "length (filter (\<lambda>i. machines ! (i mod length machines) = m) [0..<n])
    \<in> {n div length machines .. n div length machines + 1}"
proof -
  obtain j where j: "j < length machines" "machines ! j = m" using assms(2) by (auto simp: in_set_conv_nth)
  have "i mod length machines < length machines" for i using j by (intro mod_less_divisor) auto
  then have "machines ! (i mod length machines) = m \<longleftrightarrow> i mod length machines = j" for i
    using j nth_eq_iff_index_eq[OF assms(1)] by blast
  then show ?thesis using count_residues[OF j(1), of n] by simp
qed

text \<open>
  C26. Placement of a service on a non-empty list of distinct machines. A replicated service gets one
  slot per replica, with distinct numbered identifiers; a slot that the current release has stays on
  its machine, and every other slot is on a candidate. Without a current release the replicas are
  spread evenly: the numbers of replicas on two machines differ by at most one. A global service gets
  one slot per machine. The only failure is a service that asks for zero replicas.
\<close>

theorem desired_slots_correct:
  assumes "machines \<noteq> []" and "distinct machines"
  shows "case ss_placement spec of
      Replicated n \<Rightarrow>
        if n = 0 then (desired_slots spec machines current :: ('e deploy_error, _) result) = Inl (Slots_Zero_Replicas (ss_name spec))
        else \<exists>slots. (desired_slots spec machines current :: ('e deploy_error, _) result) = Inr slots \<and>
          map ds_slot_id slots = map replica_slot_id [0..<unat n] \<and> distinct (map ds_slot_id slots) \<and>
          (\<forall>d\<in>set slots. case sticky_machine current (ds_slot_id d) of
             Some m \<Rightarrow> ds_machine_id d = m | None \<Rightarrow> ds_machine_id d \<in> set machines) \<and>
          (current = None \<longrightarrow> (\<forall>m\<in>set machines.
             length (filter (\<lambda>d. ds_machine_id d = m) slots)
               \<in> {unat n div length machines .. unat n div length machines + 1}))
    | Global \<Rightarrow>
        \<exists>slots. (desired_slots spec machines current :: ('e deploy_error, _) result) = Inr slots \<and>
          map ds_machine_id slots = machines \<and> distinct (map ds_slot_id slots)"
proof (cases "ss_placement spec")
  case Global
  show ?thesis
    by (simp add: Global desired_slots_global[OF Global assms(1)] comp_def distinct_map inj_on_def assms(2))
next
  case (Replicated n)
  show ?thesis
  proof (cases "n = 0")
    case True
    have "(desired_slots spec machines current :: ('e deploy_error, _) result) =
        Inl (Slots_Zero_Replicas (ss_name spec))"
      by (rule desired_slots_zero[OF Replicated[unfolded True] assms(1)])
    then show ?thesis by (simp only: Replicated True placement.case simp_thms if_True)
  next
    case False
    let ?slot = "\<lambda>i. \<lparr> ds_slot_id = replica_slot_id i,
      ds_machine_id = (case sticky_machine current (replica_slot_id i) of
         Some m \<Rightarrow> m | None \<Rightarrow> machines ! (i mod length machines)) \<rparr>"
    have ok: "desired_slots spec machines current = Inr (map ?slot [0..<unat n])"
      by (rule desired_slots_replicated[OF Replicated False assms(1)])
    have ids: "map ds_slot_id (map ?slot [0..<unat n]) = map replica_slot_id [0..<unat n]" by simp
    have dist: "distinct (map replica_slot_id [0..<unat n])"
      by (auto simp: distinct_map intro: inj_onI)
    have in_machines: "machines ! (i mod length machines) \<in> set machines" for i
      using assms(1) by (intro nth_mem) simp
    have spread: "length (filter (\<lambda>d. ds_machine_id d = m) (map ?slot [0..<unat n]))
        \<in> {unat n div length machines .. unat n div length machines + 1}"
      if none: "current = None" and m: "m \<in> set machines" for m
      using count_round_robin[OF assms(2) m, of "unat n"] none
      by (simp add: filter_map comp_def sticky_machine_def)
    have "\<exists>slots. (desired_slots spec machines current :: ('e deploy_error, _) result) = Inr slots \<and>
          map ds_slot_id slots = map replica_slot_id [0..<unat n] \<and> distinct (map ds_slot_id slots) \<and>
          (\<forall>d\<in>set slots. case sticky_machine current (ds_slot_id d) of
             Some m \<Rightarrow> ds_machine_id d = m | None \<Rightarrow> ds_machine_id d \<in> set machines) \<and>
          (current = None \<longrightarrow> (\<forall>m\<in>set machines.
             length (filter (\<lambda>d. ds_machine_id d = m) slots)
               \<in> {unat n div length machines .. unat n div length machines + 1}))"
    proof (intro exI[of _ "map ?slot [0..<unat n]"] conjI impI ballI)
      show "distinct (map ds_slot_id (map ?slot [0..<unat n]))" unfolding ids by (rule dist)
    qed (use ok ids in_machines spread in \<open>auto split: option.split\<close>)
    then show ?thesis using Replicated False by simp
  qed
qed

definition example_spec :: "string \<Rightarrow> placement \<Rightarrow> service_spec" where
  "example_spec name p =
    \<lparr> ss_name = name, ss_placement = p, ss_template =
        \<lparr> cs_image = ''nginx'', cs_command = None, cs_entrypoint = None, cs_env = [], cs_volumes = [],
          cs_cap_add = [], cs_cap_drop = [], cs_privileged = False, cs_user = None,
          cs_pull_policy = Pull_IfNotPresent,
          cs_resources = \<lparr> rc_cpu_millicores = None, rc_memory_bytes = None \<rparr>, cs_sysctls = [] \<rparr>,
      ss_network = Net_Overlay, ss_service_ports = [], ss_publish = [], ss_routes = [],
      ss_readiness = None, ss_rollout = Rollout_Recreate, ss_labels = [], ss_stop_grace_period = None,
      ss_restart = Restart_No \<rparr>"

theorem desired_slots_correct_witness:
  "\<exists>slots. (desired_slots (example_spec ''web'' (Replicated 3)) [MachineId ''a'', MachineId ''b''] None
      :: (unit deploy_error, _) result) = Inr slots \<and>
    length (filter (\<lambda>d. ds_machine_id d = MachineId ''a'') slots) \<in> {1..2}"
proof -
  have "3 div Suc (Suc 0) = (1 :: nat)" by (simp flip: numeral_2_eq_2)
  then show ?thesis
    using desired_slots_correct[where machines = "[MachineId ''a'', MachineId ''b'']"
        and spec = "example_spec ''web'' (Replicated 3)" and current = None and ?'e = unit]
    by (auto simp: example_spec_def)
qed

section \<open>Properties of the preview\<close>

text \<open>
  C32. A preview plans every service of the manifest and every released service, each exactly once; it
  plans a removal exactly for the released services that the manifest lacks, and every machine that a
  plan or a current release mentions is a participant. The participants are listed in ascending order.
\<close>

theorem preview_complete:
  assumes pv: "build_preview env local manifest rs machines now = Inr pv"
    and rs: "distinct (map rr_service rs)" and names: "distinct (map ss_name (dm_services manifest))"
  shows "distinct (map pl_service (dp_services pv)) \<and>
    set (map pl_service (dp_services pv)) = service_names manifest \<union> rr_service ` set rs \<and>
    (\<forall>plan\<in>set (dp_services pv). pl_action plan = Change_Remove \<longleftrightarrow> pl_service plan \<notin> service_names manifest) \<and>
    (\<forall>plan\<in>set (dp_services pv). \<forall>slot\<in>set (pl_slots plan). sp_machine_id slot \<in> set (dp_participants pv)) \<and>
    (\<forall>r\<in>set rs. \<forall>slot\<in>set (rl_slots (rr_release r)). rs_machine_id slot \<in> set (dp_participants pv)) \<and>
    sorted_wrt (<) (dp_participants pv)"
proof -
  define R where "R = (\<lambda>(_ :: namespace, s). map_of (map (\<lambda>r. (rr_service r, r)) rs) s)"
  let ?ns = "dm_namespace manifest"
  have dom: "R (?ns, s) = Some r \<longleftrightarrow> r \<in> set rs \<and> rr_service r = s" for s r
    using map_of_eq_Some_iff[of "map (\<lambda>r. (rr_service r, r)) rs" s r] rs by (auto simp: R_def comp_def)
  then have R: "releases_match ?ns R rs" by (simp add: releases_match_def)
  show ?thesis
  proof (rule build_preview_plans[OF pv R])
    fix plans gone assume S: "dp_services pv = plans @ gone"
      and plans: "list_all2 (\<lambda>spec. service_planned env (deployable_machines machines local now)
        (table_slots ?ns R (ss_name spec)) (set (dp_participants pv)) spec) (dm_services manifest) plans"
      and gone: "distinct (map pl_service gone)"
        "set (map pl_service gone) = {s. R (?ns, s) \<noteq> None} - service_names manifest"
        "\<And>plan. plan \<in> set gone \<Longrightarrow> pl_action plan = Change_Remove \<and>
          pl_slots plan = map plan_removed_slot (unwrap_or (table_slots ?ns R (pl_service plan)) [])"
        "\<And>plan slot. plan \<in> set gone \<Longrightarrow> slot \<in> set (pl_slots plan) \<Longrightarrow> sp_machine_id slot \<in> set (dp_participants pv)"
      and sorted: "sorted_wrt (<) (dp_participants pv)"
    note planned = planned_services[OF plans, folded service_names_def]
    have kept: "rs_machine_id ` set (rl_slots (rr_release r)) \<subseteq> set (dp_participants pv)" if r: "r \<in> set rs" for r
    proof (cases "rr_service r \<in> service_names manifest")
      case True
      then obtain spec where spec: "spec \<in> set (dm_services manifest)" "ss_name spec = rr_service r"
        by (auto simp: service_names_def)
      have "R (?ns, ss_name spec) = Some r" using dom r spec by simp
      then show ?thesis using planned(3)[OF spec(1)] by (simp add: table_slots_def)
    next
      case False
      have Rr: "R (?ns, rr_service r) = Some r" using dom r by simp
      then have "rr_service r \<in> set (map pl_service gone)" using gone(2) False by simp
      then obtain p where p: "p \<in> set gone" "pl_service p = rr_service r" by auto
      then have "pl_slots p = map plan_removed_slot (rl_slots (rr_release r))"
        using gone(3)[OF p(1)] Rr by (simp add: table_slots_def)
      then have "sp_machine_id (plan_removed_slot slot) \<in> set (dp_participants pv)"
        if "slot \<in> set (rl_slots (rr_release r))" for slot
        by (intro gone(4)[OF p(1)]) (simp add: that)
      then show ?thesis by (auto simp: plan_removed_slot_def)
    qed
    have removed: "pl_service p \<notin> service_names manifest" if "p \<in> set gone" for p
      using gone(2) that by auto
    have dist: "distinct (map pl_service (plans @ gone))"
      unfolding map_append distinct_append planned(1) gone(2)
      using names gone(1) by (simp add: service_names_def)
    have "R (?ns, s) \<noteq> None \<longleftrightarrow> s \<in> rr_service ` set rs" for s
      unfolding not_None_eq dom by blast
    then have all: "set (map pl_service (plans @ gone)) = service_names manifest \<union> rr_service ` set rs"
      unfolding map_append set_append planned(1) gone(2) by (simp add: service_names_def)
    have actions: "\<forall>p\<in>set (plans @ gone). pl_action p = Change_Remove \<longleftrightarrow> pl_service p \<notin> service_names manifest"
      using planned(2) removed gone(3) unfolding set_append by blast
    have slots: "\<forall>p\<in>set (plans @ gone). \<forall>slot\<in>set (pl_slots p). sp_machine_id slot \<in> set (dp_participants pv)"
      using planned(2) gone(4) unfolding set_append by blast
    have current: "\<forall>r\<in>set rs. \<forall>slot\<in>set (rl_slots (rr_release r)). rs_machine_id slot \<in> set (dp_participants pv)"
      using kept by blast
    show ?thesis
      unfolding S by (intro conjI dist all actions slots current sorted)
  qed
qed

definition example_env :: "(unit, unit, unit) deploy_env" where
  "example_env =
    \<lparr> env_now = \<lambda>w. (0, w), env_new_uuid = \<lambda>w. ([], w), env_list_machines = ret_act [],
      env_list_service_releases = \<lambda>_. ret_act [], env_list_instance_status = \<lambda>_. ret_act [],
      env_upsert_service_revision = \<lambda>_. ret_act (), env_upsert_instance_status = \<lambda>_. ret_act (),
      env_upsert_deploy = \<lambda>_. ret_act (), env_apply_deploy_commit = \<lambda>_. ret_act (),
      env_open = \<lambda>_ _ _ _. fail_act (), env_start_candidate = \<lambda>_ _. fail_act (),
      env_drain_instance = \<lambda>_ _. ret_act (), env_remove_instance = \<lambda>_ _. ret_act (),
      env_close = \<lambda>_. ret_act (), env_drop = \<lambda>_ w. w, env_error_str = \<lambda>_. [],
      env_manifest_json = \<lambda>m. Inr (namespace_str (dm_namespace m)), env_spec_json = \<lambda>s. Inr (ss_name s),
      env_preview_json = \<lambda>_. Inr [] \<rparr>"

definition example_release :: "string \<Rightarrow> service_release_slot list \<Rightarrow> service_release_record" where
  "example_release service slots =
    \<lparr> rr_namespace = Namespace ''prod'', rr_service = service,
      rr_release = \<lparr> rl_primary_revision_hash = ''h'', rl_referenced_revision_hashes = [''h''],
        rl_routing = Routing_Direct ''h'', rl_slots = slots, rl_updated_by_deploy_id = DeployId ''d'',
        rl_updated_at = 0 \<rparr> \<rparr>"

definition example_manifest :: deploy_manifest where
  "example_manifest = \<lparr> dm_namespace = Namespace ''prod'', dm_services = [example_spec ''web'' (Replicated 2)] \<rparr>"

theorem preview_complete_witness:
  "\<exists>pv. build_preview example_env (MachineId ''m'') example_manifest [example_release ''old'' []] [] 7 = Inr pv \<and>
    set (map pl_service (dp_services pv)) = {''web'', ''old''}"
proof -
  obtain pv where pv: "build_preview example_env (MachineId ''m'') example_manifest
      [example_release ''old'' []] [] 7 = Inr pv"
    using build_preview_ok[of example_env example_manifest "''prod''" "MachineId ''m''" "[example_release ''old'' []]" "[]" 7]
    by (auto simp: example_env_def example_manifest_def example_spec_def revision_hash_def canonical_revision_json_def)
  have "set (map pl_service (dp_services pv)) =
      service_names example_manifest \<union> rr_service ` set [example_release ''old'' []]"
    using preview_complete[OF pv] by (simp add: example_manifest_def)
  also have "\<dots> = {''web'', ''old''}"
    by (simp add: service_names_def example_manifest_def example_spec_def example_release_def insert_commute)
  finally show ?thesis using pv by blast
qed

end
