(* ===== verification/Action_Logic.thy ===== *)
theory Action_Logic
  imports Ployz_Prelude
begin

text \<open>
  A Hoare logic for actions. \<open>hoare P m Q E\<close>: started in a state of \<open>P\<close>, the action \<open>m\<close> either
  succeeds with a value and a state of \<open>Q\<close>, or fails in a state of \<open>E\<close>. The rules are collected
  in \<open>hoare_rules\<close>; a loop has the rule of its invariant, which may mention the elements already
  visited.
\<close>

named_theorems hoare_rules \<open>introduction rules for the commands of an action\<close>

definition hoare ::
    "('w \<Rightarrow> bool) \<Rightarrow> ('w, 'e, 'a) action \<Rightarrow> ('a \<Rightarrow> 'w \<Rightarrow> bool) \<Rightarrow> ('w \<Rightarrow> bool) \<Rightarrow> bool" where
  "hoare P m Q E \<longleftrightarrow>
    (\<forall>w. P w \<longrightarrow> (case m w of (Inr a, w') \<Rightarrow> Q a w' | (Inl _, w') \<Rightarrow> E w'))"

lemma hoareI:
  assumes "\<And>w a w'. P w \<Longrightarrow> m w = (Inr a, w') \<Longrightarrow> Q a w'"
    and "\<And>w e w'. P w \<Longrightarrow> m w = (Inl e, w') \<Longrightarrow> E w'"
  shows "hoare P m Q E"
  using assms by (auto simp: hoare_def split: prod.split sum.split)

lemma hoare_Inr: "hoare P m Q E \<Longrightarrow> P w \<Longrightarrow> m w = (Inr a, w') \<Longrightarrow> Q a w'"
  by (force simp: hoare_def)

lemma hoare_Inl: "hoare P m Q E \<Longrightarrow> P w \<Longrightarrow> m w = (Inl e, w') \<Longrightarrow> E w'"
  by (force simp: hoare_def)

lemma hoare_conseq:
  assumes "hoare P' m Q' E'" and "\<And>w. P w \<Longrightarrow> P' w"
    and "\<And>a w. Q' a w \<Longrightarrow> Q a w" and "\<And>w. E' w \<Longrightarrow> E w"
  shows "hoare P m Q E"
proof (rule hoareI)
  fix w a w' assume "P w" "m w = (Inr a, w')"
  then show "Q a w'" using hoare_Inr[OF assms(1)] assms(2,3) by blast
next
  fix w e w' assume "P w" "m w = (Inl e, w')"
  then show "E w'" using hoare_Inl[OF assms(1)] assms(2,4) by blast
qed

lemma hoare_pre: "hoare P' m Q E \<Longrightarrow> (\<And>w. P w \<Longrightarrow> P' w) \<Longrightarrow> hoare P m Q E"
  by (rule hoare_conseq)

lemma hoare_post: "hoare P m Q' E \<Longrightarrow> (\<And>a w. Q' a w \<Longrightarrow> Q a w) \<Longrightarrow> hoare P m Q E"
  by (rule hoare_conseq)

lemma hoare_pure:
  assumes "\<And>w. P w \<Longrightarrow> C" and "C \<Longrightarrow> hoare P m Q E"
  shows "hoare P m Q E"
proof (cases C)
  case True
  then show ?thesis by (rule assms(2))
next
  case False
  then have "\<not> P w" for w using assms(1) by blast
  then show ?thesis by (simp add: hoare_def)
qed

lemma hoare_conj: "(C \<Longrightarrow> hoare P m Q E) \<Longrightarrow> hoare (\<lambda>w. P w \<and> C) m Q E"
  by (rule hoare_pure[where C = C]) (auto elim: hoare_pre)

lemma hoare_ex:
  assumes "\<And>x. hoare (P x) m Q E"
  shows "hoare (\<lambda>w. \<exists>x. P x w) m Q E"
proof (rule hoareI)
  fix w a w' assume "\<exists>x. P x w" "m w = (Inr a, w')"
  then show "Q a w'" using hoare_Inr[OF assms] by blast
next
  fix w e w' assume "\<exists>x. P x w" "m w = (Inl e, w')"
  then show "E w'" using hoare_Inl[OF assms] by blast
qed

section \<open>Rules for the commands\<close>

lemma hoare_ret [hoare_rules]: "(\<And>w. P w \<Longrightarrow> Q a w) \<Longrightarrow> hoare P (ret_act a) Q E"
  by (simp add: hoare_def ret_act_def)

lemma hoare_fail [hoare_rules]: "(\<And>w. P w \<Longrightarrow> E w) \<Longrightarrow> hoare P (fail_act e) Q E"
  by (simp add: hoare_def fail_act_def)

lemma hoare_lift [hoare_rules]:
  assumes "\<And>a w. r = Inr a \<Longrightarrow> P w \<Longrightarrow> Q a w" and "\<And>w. P w \<Longrightarrow> E w"
  shows "hoare P (lift_res r) Q E"
  using assms by (auto simp: hoare_def lift_res_def split: sum.split)

lemma hoare_bind [hoare_rules]:
  assumes "hoare P m R E" and "\<And>a. hoare (R a) (f a) Q E"
  shows "hoare P (bind_act m f) Q E"
proof (rule hoareI)
  fix w b w'' assume P: "P w" and run: "bind_act m f w = (Inr b, w'')"
  then obtain a w' where "m w = (Inr a, w')" "f a w' = (Inr b, w'')" by (auto simp: bind_act_Inr)
  then show "Q b w''" using hoare_Inr[OF assms(1) P] hoare_Inr[OF assms(2)] by blast
next
  fix w e w'' assume P: "P w" and run: "bind_act m f w = (Inl e, w'')"
  then consider "m w = (Inl e, w'')" | a w' where "m w = (Inr a, w')" "f a w' = (Inl e, w'')"
    by (auto simp: bind_act_Inl)
  then show "E w''"
    using hoare_Inl[OF assms(1) P] hoare_Inr[OF assms(1) P] hoare_Inl[OF assms(2)] by cases blast+
qed

lemma hoare_bind_weak:
  assumes "hoare P m R E'" and "\<And>w. E' w \<Longrightarrow> E w" and "\<And>a. hoare (R a) (f a) Q E"
  shows "hoare P (bind_act m f) Q E"
  by (rule hoare_bind[OF hoare_conseq[OF assms(1)], where R = R]) (simp_all add: assms(2,3))

lemma hoare_bind_lift:
  assumes "\<And>a. r = Inr a \<Longrightarrow> hoare P (f a) Q E" and "\<And>w. P w \<Longrightarrow> E w"
  shows "hoare P (bind_act (lift_res r) f) Q E"
  using assms by (cases r) (auto simp: hoare_def bind_act_def lift_res_def)

lemma hoare_map_err [hoare_rules]:
  assumes "hoare P m Q E"
  shows "hoare P (map_err_act g m) Q E"
proof (rule hoareI)
  fix w a w' assume "P w" "map_err_act g m w = (Inr a, w')"
  then show "Q a w'" using hoare_Inr[OF assms] by (simp add: map_err_act_Inr)
next
  fix w e w' assume P: "P w" and run: "map_err_act g m w = (Inl e, w')"
  then obtain e' where "m w = (Inl e', w')"
    by (auto simp: map_err_act_def split: prod.splits) (metis map_err.elims sum.distinct(1))
  then show "E w'" by (rule hoare_Inl[OF assms P])
qed

lemma hoare_fold_act:
  assumes "\<And>visited x rest acc. xs = visited @ x # rest \<Longrightarrow>
      hoare (J visited acc) (f x acc) (J (visited @ [x])) E"
  shows "hoare (J [] s) (fold_act f xs s) (J xs) E"
proof -
  have "hoare (J visited s) (fold_act f rest s) (J xs) E" if "xs = visited @ rest" for visited rest s
    using that
  proof (induction rest arbitrary: visited s)
    case Nil
    then show ?case by (auto intro: hoare_ret)
  next
    case (Cons x rest)
    show ?case unfolding fold_act.simps
      by (rule hoare_bind[OF assms[OF Cons.prems]], rule Cons.IH) (simp add: Cons.prems)
  qed
  from this[of "[]" xs s] show ?thesis by simp
qed

end
