(* ===== verification/Deploy_Apply.thy ===== *)
theory Deploy_Apply
  imports Deploy Action_Logic
begin

text \<open>
  Applying a deploy, \<open>apply\<close> of \<open>crates/ployz-orchestrator/src/deploy/mod.rs\<close>: lock every
  participant, preview again, start the candidates, commit, clean up, unlock.

  The locale \<open>deploy_world\<close> states what the coordinator relies on of the store and of the sessions:
  which actions may change the releases, the instances that serve and the locks, and how. Its lemmas
  show, for every outcome of \<open>apply\<close>, that the releases are either those before or those of one
  commit, that the instances the releases refer to serve, and that every lock is released.
\<close>

section \<open>Sessions\<close>

definition drop_sessions :: "('w, 's, 'e) deploy_env \<Rightarrow> (machine_id, 's) btree_map \<Rightarrow> 'w \<Rightarrow> 'w" where
  "drop_sessions env sessions w = fold (\<lambda>(_, session). env_drop env session) sessions w"

definition lock_event :: "machine_id \<Rightarrow> instance_status_record list \<Rightarrow> deploy_event" where
  "lock_event participant instances =
    \<lparr> de_step = ''lock'',
      de_message = ''acquired lock on '' @ quoted (machine_id_str participant) @ '' ('' @
        fmt_dec (length instances) @ '' instances)'' \<rparr>"

type_synonym 's open_acc = "(machine_id, 's) btree_map \<times> deploy_event list"

fun open_sessions ::
    "('w, 's, 'e) deploy_env \<Rightarrow> (machine_id, machine_record) hash_map \<Rightarrow> namespace \<Rightarrow> deploy_id \<Rightarrow>
     machine_id \<Rightarrow> machine_id list \<Rightarrow> 's open_acc \<Rightarrow> ('w, 'e, 's open_acc) deploy_action" where
  "open_sessions env machine_map ns deploy_id local [] acc w = (Inr acc, w)"
| "open_sessions env machine_map ns deploy_id local (participant # rest) (sessions, events) w =
    (case hm_get machine_map participant of
       None \<Rightarrow> (Inl (Missing_Machine participant), drop_sessions env sessions w)
     | Some machine \<Rightarrow>
         (case env_open env machine ns deploy_id local w of
            (Inl e, w') \<Rightarrow> (Inl (Backend e), drop_sessions env sessions w')
          | (Inr (session, instances), w') \<Rightarrow>
              open_sessions env machine_map ns deploy_id local rest
                (bt_insert participant session sessions, events @ [lock_event participant instances]) w'))"

primrec close_sessions :: "('w, 's, 'e) deploy_env \<Rightarrow> (machine_id \<times> 's) list \<Rightarrow> 'w \<Rightarrow> 'w" where
  "close_sessions env [] w = w"
| "close_sessions env (entry # rest) w = close_sessions env rest (snd (env_close env (snd entry) w))"

section \<open>Starting the candidates\<close>

text \<open>The variables of \<open>apply\<close> that its inner block captures.\<close>

record 's apply_ctx =
  cx_namespace :: namespace
  cx_deploy_id :: deploy_id
  cx_local :: machine_id
  cx_started_at :: timestamp
  cx_sessions :: "(machine_id, 's) btree_map"

definition start_event :: "service_spec \<Rightarrow> desired_slot \<Rightarrow> instance_id \<Rightarrow> deploy_event" where
  "start_event spec desired instance_id =
    \<lparr> de_step = ''start_candidate'',
      de_message = ''starting '' @ ss_name spec @ '' slot '' @ slot_id_str (ds_slot_id desired) @
        '' as instance '' @ instance_id_str instance_id @ '' on '' @ machine_id_str (ds_machine_id desired) \<rparr>"

definition find_slot :: "service_release_slot list option \<Rightarrow> desired_slot \<Rightarrow> service_release_slot option" where
  "find_slot current_slots desired =
    (case current_slots of
       None \<Rightarrow> None
     | Some slots \<Rightarrow> find (\<lambda>slot. rs_slot_id slot = ds_slot_id desired) slots)"

definition keep_current :: "service_release_slot option \<Rightarrow> desired_slot \<Rightarrow> string \<Rightarrow> bool" where
  "keep_current current desired hash =
    (case current of
       None \<Rightarrow> False
     | Some slot \<Rightarrow> rs_machine_id slot = ds_machine_id desired \<and> rs_revision_hash slot = hash)"

definition start_instance ::
    "('w, 's, 'e) deploy_env \<Rightarrow> 's apply_ctx \<Rightarrow> service_spec \<Rightarrow> string \<Rightarrow> desired_slot \<Rightarrow>
     deploy_event list \<Rightarrow> ('w, 'e, instance_id \<times> deploy_event list) deploy_action" where
  "start_instance env cx spec spec_json desired events =
    bind_act (uuid_act env) (\<lambda>uuid.
      case bt_get (cx_sessions cx) (ds_machine_id desired) of
        None \<Rightarrow> fail_act (No_Session (ds_machine_id desired))
      | Some session \<Rightarrow>
          bind_act (backend (env_start_candidate env session
              \<lparr> sc_service = ss_name spec, sc_slot_id = ds_slot_id desired,
                sc_instance_id = InstanceId uuid, sc_spec_json = spec_json \<rparr>)) (\<lambda>status.
          bind_act (backend (env_upsert_instance_status env status)) (\<lambda>_.
          ret_act (is_instance_id status, events @ [start_event spec desired (InstanceId uuid)]))))"

type_synonym slot_acc = "deploy_event list \<times> service_release_slot list"

definition deploy_slot ::
    "('w, 's, 'e) deploy_env \<Rightarrow> 's apply_ctx \<Rightarrow> service_release_slot list option \<Rightarrow> service_spec \<Rightarrow>
     string \<Rightarrow> string \<Rightarrow> desired_slot \<Rightarrow> slot_acc \<Rightarrow> ('w, 'e, slot_acc) deploy_action" where
  "deploy_slot env cx current_slots spec hash spec_json desired acc =
    (case acc of (events, next_slots) \<Rightarrow>
      let current = find_slot current_slots desired in
      bind_act
        (if keep_current current desired hash
         then (case current of
                 None \<Rightarrow> fail_act Missing_Current_Slot
               | Some slot \<Rightarrow> ret_act (rs_active_instance_id slot, events))
         else start_instance env cx spec spec_json desired events) (\<lambda>(active, events').
      ret_act (events', next_slots @
        [\<lparr> rs_slot_id = ds_slot_id desired, rs_machine_id = ds_machine_id desired,
           rs_active_instance_id = active, rs_revision_hash = hash \<rparr>])))"

type_synonym service_acc = "deploy_event list \<times> service_release_record list \<times> service_release_slot list"

definition committed_release ::
    "'s apply_ctx \<Rightarrow> service_spec \<Rightarrow> string \<Rightarrow> service_release_slot list \<Rightarrow> timestamp \<Rightarrow> service_release_record" where
  "committed_release cx spec hash next_slots now =
    \<lparr> rr_namespace = cx_namespace cx, rr_service = ss_name spec,
      rr_release =
        \<lparr> rl_primary_revision_hash = hash, rl_referenced_revision_hashes = [hash],
          rl_routing = Routing_Direct hash, rl_slots = next_slots,
          rl_updated_by_deploy_id = cx_deploy_id cx, rl_updated_at = now \<rparr> \<rparr>"

definition deploy_service ::
    "('w, 's, 'e) deploy_env \<Rightarrow> 's apply_ctx \<Rightarrow> (string, service_release_slot list) hash_map \<Rightarrow>
     machine_id list \<Rightarrow> service_spec \<Rightarrow> service_acc \<Rightarrow> ('w, 'e, service_acc) deploy_action" where
  "deploy_service env cx slots_map machines spec acc =
    (case acc of (events, releases, slots) \<Rightarrow>
      bind_act (lift_res (map_err Serialize_Revision (revision_hash (env_spec_json env) spec))) (\<lambda>hash.
      bind_act (lift_res (map_err Serialize_Revision (canonical_revision_json (env_spec_json env) spec))) (\<lambda>spec_json.
      bind_act (backend (env_upsert_service_revision env
          \<lparr> rv_namespace = cx_namespace cx, rv_service = ss_name spec, rv_revision_hash = hash,
            rv_spec_json = spec_json, rv_created_by = cx_local cx, rv_created_at = cx_started_at cx \<rparr>)) (\<lambda>_.
      bind_act (lift_res (desired_slots spec machines (hm_get slots_map (ss_name spec)))) (\<lambda>desired.
      bind_act (fold_act (deploy_slot env cx (hm_get slots_map (ss_name spec)) spec hash spec_json)
          desired (events, [])) (\<lambda>(events', next_slots).
      bind_act (now_act env) (\<lambda>now.
      ret_act (events', releases @ [committed_release cx spec hash next_slots now], slots @ next_slots))))))))"

section \<open>Cleaning up\<close>

type_synonym cleanup_acc = "deploy_event list \<times> string list"

definition cleanup_event :: "instance_status_record \<Rightarrow> deploy_event" where
  "cleanup_event status =
    \<lparr> de_step = ''cleanup'',
      de_message = ''removed old instance '' @ instance_id_str (is_instance_id status) @ '' from '' @
        machine_id_str (is_machine_id status) \<rparr>"

definition cleanup_instance ::
    "('w, 's, 'e) deploy_env \<Rightarrow> (machine_id, 's) btree_map \<Rightarrow> string list \<Rightarrow> string list \<Rightarrow>
     instance_status_record \<Rightarrow> cleanup_acc \<Rightarrow> ('w, 'e, cleanup_acc) deploy_action" where
  "cleanup_instance env sessions active_ids participant_ids status acc w =
    (case acc of (events, errors) \<Rightarrow>
      if instance_id_str (is_instance_id status) \<in> set active_ids then (Inr acc, w)
      else if machine_id_str (is_machine_id status) \<notin> set participant_ids then (Inr acc, w)
      else
        (case bt_get sessions (is_machine_id status) of
           None \<Rightarrow> (Inr acc, w)
         | Some session \<Rightarrow>
             (case env_drain_instance env session (is_instance_id status) w of
                (Inl e, w1) \<Rightarrow> (Inr (events, errors @ [env_error_str env e]), w1)
              | (Inr _, w1) \<Rightarrow>
                  (case env_remove_instance env session (is_instance_id status) w1 of
                     (Inr _, w2) \<Rightarrow> (Inr (events @ [cleanup_event status], errors), w2)
                   | (Inl e, w2) \<Rightarrow> (Inr (events, errors @ [env_error_str env e]), w2)))))"

section \<open>The deploy under lock\<close>

definition initial_record :: "'s apply_ctx \<Rightarrow> deploy_preview \<Rightarrow> string \<Rightarrow> deploy_record" where
  "initial_record cx pv json =
    \<lparr> dr_deploy_id = cx_deploy_id cx, dr_namespace = cx_namespace cx,
      dr_coordinator_machine_id = cx_local cx, dr_manifest_hash = dp_manifest_hash pv,
      dr_state = Deploy_Applying, dr_started_at = cx_started_at cx, dr_committed_at = None,
      dr_finished_at = None, dr_summary_json = json \<rparr>"

definition removed_services :: "deploy_preview \<Rightarrow> string list" where
  "removed_services pv = map pl_service (filter (\<lambda>plan. pl_action plan = Change_Remove) (dp_services pv))"

definition commit_event :: "'s apply_ctx \<Rightarrow> deploy_event" where
  "commit_event cx =
    \<lparr> de_step = ''commit'',
      de_message = ''committed deploy '' @ deploy_id_str (cx_deploy_id cx) @ '' for '' @
        quoted (namespace_str (cx_namespace cx)) \<rparr>"

definition finish_deploy ::
    "('w, 's, 'e) deploy_env \<Rightarrow> 's apply_ctx \<Rightarrow> deploy_preview \<Rightarrow> deploy_record \<Rightarrow> service_release_slot list \<Rightarrow>
     deploy_event list \<Rightarrow> ('w, 'e, deploy_apply_result) deploy_action" where
  "finish_deploy env cx pv record slots events =
    (let active_ids = bs_of_list (map (\<lambda>slot. instance_id_str (rs_active_instance_id slot)) slots);
         participant_ids = bs_of_list (map machine_id_str (dp_participants pv))
     in bind_act (backend (env_list_instance_status env (cx_namespace cx))) (\<lambda>statuses.
        bind_act (fold_act (cleanup_instance env (cx_sessions cx) active_ids participant_ids) statuses
            (events, [])) (\<lambda>(events', errors).
        if errors = []
        then ret_act \<lparr> ar_deploy_id = cx_deploy_id cx, ar_preview = pv, ar_state = Deploy_Committed,
                       ar_events = events' \<rparr>
        else
          bind_act (now_act env) (\<lambda>now.
          bind_act (backend (env_upsert_deploy env
              (record\<lparr>dr_state := Deploy_CleanupPending, dr_finished_at := Some now\<rparr>))) (\<lambda>_.
          ret_act \<lparr> ar_deploy_id = cx_deploy_id cx, ar_preview = pv, ar_state = Deploy_CleanupPending,
                    ar_events = events' @
                      map (\<lambda>e. \<lparr> de_step = ''cleanup_pending'', de_message = e \<rparr>) errors \<rparr>)))))"

definition commit_deploy ::
    "('w, 's, 'e) deploy_env \<Rightarrow> 's apply_ctx \<Rightarrow> deploy_preview \<Rightarrow> deploy_record \<Rightarrow> service_acc \<Rightarrow>
     ('w, 'e, deploy_apply_result) deploy_action" where
  "commit_deploy env cx pv record acc =
    (case acc of (events, releases, slots) \<Rightarrow>
      bind_act (now_act env) (\<lambda>now.
      bind_act (lift_res (map_err Serialize_Preview (env_preview_json env pv))) (\<lambda>json.
      let record' = record\<lparr>dr_state := Deploy_Committed, dr_committed_at := Some now,
                           dr_finished_at := Some now, dr_summary_json := json\<rparr>
      in bind_act (backend (env_apply_deploy_commit env
            \<lparr> dc_namespace = cx_namespace cx, dc_removed_services = removed_services pv,
              dc_releases = releases, dc_deploy = record' \<rparr>)) (\<lambda>_.
         finish_deploy env cx pv record' slots (events @ [commit_event cx])))))"

definition apply_locked ::
    "('w, 's, 'e) deploy_env \<Rightarrow> 's apply_ctx \<Rightarrow> deploy_manifest \<Rightarrow> deploy_preview \<Rightarrow> machine_record list \<Rightarrow>
     deploy_event list \<Rightarrow> ('w, 'e, deploy_apply_result) deploy_action" where
  "apply_locked env cx manifest initial machines events =
    bind_act (preview env (cx_local cx) manifest) (\<lambda>pv.
    bind_act (lift_res (guard_res (dp_participants pv = dp_participants initial) Participants_Changed)) (\<lambda>_.
    bind_act (lift_res (map_err Serialize_Preview (env_preview_json env pv))) (\<lambda>json.
    bind_act (backend (env_upsert_deploy env (initial_record cx pv json))) (\<lambda>_.
    bind_act (backend (env_list_service_releases env (cx_namespace cx))) (\<lambda>current.
    bind_act (now_act env) (\<lambda>now.
    bind_act (fold_act (deploy_service env cx (current_slots_by_service_from_releases current)
        (deployable_machines machines (cx_local cx) now)) (dm_services manifest) (events, [], [])) (\<lambda>acc.
    commit_deploy env cx pv (initial_record cx pv json) acc)))))))"

definition deploy_apply ::
    "('w, 's, 'e) deploy_env \<Rightarrow> machine_id \<Rightarrow> deploy_manifest \<Rightarrow> ('w, 'e, deploy_apply_result) deploy_action" where
  "deploy_apply env local manifest =
    bind_act (uuid_act env) (\<lambda>uuid.
    bind_act (now_act env) (\<lambda>started_at.
    bind_act (preview env local manifest) (\<lambda>initial.
    bind_act (backend (env_list_machines env)) (\<lambda>machines.
    let machine_map = hm_collect (map (\<lambda>m. (mr_id m, m)) machines);
        participants = sort_by cmp (dp_participants initial)
    in bind_act (open_sessions env machine_map (dm_namespace manifest) (DeployId uuid) local
          participants ([], [])) (\<lambda>(sessions, events).
       \<lambda>w. case apply_locked env
                 \<lparr> cx_namespace = dm_namespace manifest, cx_deploy_id = DeployId uuid, cx_local = local,
                   cx_started_at = started_at, cx_sessions = sessions \<rparr>
                 manifest initial machines events w of
              (r, w') \<Rightarrow> (r, close_sessions env sessions w'))))))"

section \<open>Specification\<close>

definition serving_status :: "instance_status_record \<Rightarrow> bool" where
  "serving_status st \<longleftrightarrow> is_phase st = Instance_Ready \<and> is_ready st \<and> is_drain_state st = Drain_None"

definition commit_table :: "deploy_commit \<Rightarrow> release_table \<Rightarrow> release_table" where
  "commit_table c R = (\<lambda>(ns, s).
    case commit_releases c (ns, s) of
      Some r \<Rightarrow> Some r
    | None \<Rightarrow> if ns = dc_namespace c \<and> s \<in> set (touched_services c) then None else R (ns, s))"

definition active_instances :: "namespace \<Rightarrow> release_table \<Rightarrow> instance_id set" where
  "active_instances ns R =
    {rs_active_instance_id slot | s r slot. R (ns, s) = Some r \<and> slot \<in> set (rl_slots (rr_release r))}"

text \<open>A slot of the new release: as placed, with the wanted revision, and unchanged when it can be kept.\<close>

definition slot_deployed :: "service_release_slot list option \<Rightarrow> string \<Rightarrow> desired_slot \<Rightarrow> service_release_slot \<Rightarrow> bool" where
  "slot_deployed current hash d slot \<longleftrightarrow>
    rs_slot_id slot = ds_slot_id d \<and> rs_machine_id slot = ds_machine_id d \<and> rs_revision_hash slot = hash \<and>
    (\<forall>cur. find_slot current d = Some cur \<longrightarrow> keep_current (Some cur) d hash \<longrightarrow>
      rs_active_instance_id slot = rs_active_instance_id cur)"

definition release_deployed ::
    "('w, 's, 'e) deploy_env \<Rightarrow> namespace \<Rightarrow> machine_id list \<Rightarrow> release_table \<Rightarrow> service_spec \<Rightarrow>
     service_release_record \<Rightarrow> bool" where
  "release_deployed env ns machines R spec r \<longleftrightarrow>
    rr_namespace r = ns \<and> rr_service r = ss_name spec \<and>
    (\<exists>hash desired.
      revision_hash (env_spec_json env) spec = Inr hash \<and>
      desired_slots spec machines (table_slots ns R (ss_name spec)) = (Inr desired :: ('e deploy_error, _) result) \<and>
      rl_primary_revision_hash (rr_release r) = hash \<and> rl_routing (rr_release r) = Routing_Direct hash \<and>
      list_all2 (slot_deployed (table_slots ns R (ss_name spec)) hash) desired (rl_slots (rr_release r)))"

definition manifest_commit ::
    "('w, 's, 'e) deploy_env \<Rightarrow> machine_id list \<Rightarrow> release_table \<Rightarrow> deploy_manifest \<Rightarrow> deploy_commit \<Rightarrow> bool" where
  "manifest_commit env machines R manifest c \<longleftrightarrow>
    dc_namespace c = dm_namespace manifest \<and> dr_state (dc_deploy c) = Deploy_Committed \<and>
    list_all2 (release_deployed env (dm_namespace manifest) machines R) (dm_services manifest) (dc_releases c) \<and>
    set (dc_removed_services c) = {s. R (dm_namespace manifest, s) \<noteq> None} - service_names manifest"

text \<open>
  The interface of the coordinator with the store and the sessions. \<open>at R L S w\<close>: in the world \<open>w\<close>
  the table of releases is \<open>R\<close>, the held locks are \<open>L\<close> and the instances \<open>S\<close> serve.
\<close>

definition quiet :: "(release_table \<Rightarrow> 'k set \<Rightarrow> instance_id set \<Rightarrow> 'w \<Rightarrow> bool) \<Rightarrow> ('w, 'e, 'a) action \<Rightarrow> bool" where
  "quiet at m \<longleftrightarrow> (\<forall>R L S. hoare (at R L S) m (\<lambda>_. at R L S) (at R L S))"

locale deploy_world =
  fixes env :: "('w, 's, 'e) deploy_env"
    and at :: "release_table \<Rightarrow> 'k set \<Rightarrow> instance_id set \<Rightarrow> 'w \<Rightarrow> bool"
    and fresh :: "instance_id \<Rightarrow> 'w \<Rightarrow> bool"
    and lock_of :: "'s \<Rightarrow> 'k"
  assumes at_mono: "at R L S w \<Longrightarrow> S' \<subseteq> S \<Longrightarrow> at R L S' w"
    and quiet_now: "quiet at (now_act env)"
    and uuid: "hoare (at R L S) (uuid_act env) (\<lambda>u w. at R L S w \<and> fresh (InstanceId u) w) (at R L S)"
    and quiet_list_machines: "quiet at (env_list_machines env)"
    and quiet_list_instance_status: "quiet at (env_list_instance_status env ns)"
    and quiet_upsert_service_revision: "quiet at (env_upsert_service_revision env rv)"
    and quiet_upsert_deploy: "quiet at (env_upsert_deploy env dr)"
    and quiet_upsert_instance_status: "serving_status st \<Longrightarrow> quiet at (env_upsert_instance_status env st)"
    and list_service_releases: "hoare (at R L S) (env_list_service_releases env ns)
      (\<lambda>rs w. at R L S w \<and> releases_match ns R rs) (at R L S)"
    and commit: "hoare (at R L S) (env_apply_deploy_commit env c) (\<lambda>_. at (commit_table c R) L S) (at R L S)"
    and open_lock: "hoare (at R L S) (env_open env machine ns d local)
      (\<lambda>(s, _) w. lock_of s \<notin> L \<and> at R (insert (lock_of s) L) S w) (at R L S)"
    and start: "hoare (\<lambda>w. at R L S w \<and> fresh (sc_instance_id rq) w) (env_start_candidate env s rq)
      (\<lambda>st w. serving_status st \<and> at R L (insert (is_instance_id st) S) w) (at R L S)"
    and drain: "hoare (at R L S) (env_drain_instance env s i) (\<lambda>_. at R L (S - {i})) (at R L (S - {i}))"
    and remove: "hoare (at R L S) (env_remove_instance env s i) (\<lambda>_. at R L (S - {i})) (at R L (S - {i}))"
    and close: "hoare (at R L S) (env_close env s) (\<lambda>_. at R (L - {lock_of s}) S) (at R (L - {lock_of s}) S)"
    and drop: "at R L S w \<Longrightarrow> at R (L - {lock_of s}) S (env_drop env s w)"

definition preview_facts :: "release_table \<Rightarrow> deploy_manifest \<Rightarrow> deploy_preview \<Rightarrow> bool" where
  "preview_facts R manifest pv \<longleftrightarrow> distinct (dp_participants pv) \<and>
    set (removed_services pv) = {s. R (dm_namespace manifest, s) \<noteq> None} - service_names manifest"

text \<open>The world after the commit of a manifest: its releases, and their instances serve.\<close>

definition committed_world ::
    "('w, 's, 'e) deploy_env \<Rightarrow> (release_table \<Rightarrow> 'k set \<Rightarrow> instance_id set \<Rightarrow> 'w \<Rightarrow> bool) \<Rightarrow>
     release_table \<Rightarrow> 'k set \<Rightarrow> deploy_manifest \<Rightarrow> 'w \<Rightarrow> bool" where
  "committed_world env at R L manifest w \<longleftrightarrow>
    (\<exists>c machines. manifest_commit env machines R manifest c \<and>
      at (commit_table c R) L (active_instances (dm_namespace manifest) (commit_table c R)) w)"

section \<open>Facts about the specification\<close>

lemma hoare_quiet: "quiet at m \<Longrightarrow> hoare (at R L S) m (\<lambda>_. at R L S) (at R L S)"
  by (simp add: quiet_def)

lemma hoare_bind_quiet:
  assumes "quiet at m" and "\<And>a. hoare (at R L S) (f a) Q E" and "\<And>w. at R L S w \<Longrightarrow> E w"
  shows "hoare (at R L S) (bind_act m f) Q E"
  by (rule hoare_bind_weak[OF hoare_quiet[OF assms(1)] assms(3) assms(2)])

lemma quiet_backend: "quiet at m \<Longrightarrow> quiet at (backend m)"
  by (simp add: quiet_def backend_def hoare_map_err)

lemma hoare_backend: "hoare P m Q E \<Longrightarrow> hoare P (backend m) Q E"
  by (simp add: backend_def hoare_map_err)

lemma active_instancesI:
  "table_slots ns R s = Some slots \<Longrightarrow> slot \<in> set slots \<Longrightarrow> rs_active_instance_id slot \<in> active_instances ns R"
  by (auto simp: table_slots_def active_instances_def)

lemma commit_touches_all:
  assumes "manifest_commit env machines R manifest c" and "R (dm_namespace manifest, s) \<noteq> None"
  shows "s \<in> set (touched_services c)"
proof (cases "s \<in> service_names manifest")
  case True
  then obtain spec where "spec \<in> set (dm_services manifest)" "ss_name spec = s" by (auto simp: service_names_def)
  then obtain r where "r \<in> set (dc_releases c)" "rr_service r = s"
    using assms(1) unfolding manifest_commit_def by (metis list_all2_set1 release_deployed_def)
  then show ?thesis by (auto simp: touched_services_def)
next
  case False
  then have "s \<in> set (dc_removed_services c)" using assms by (simp add: manifest_commit_def)
  then show ?thesis by (simp add: touched_services_def)
qed

lemma commit_table_Some:
  assumes "manifest_commit env machines R manifest c" and "commit_table c R (dm_namespace manifest, s) = Some r"
  shows "r \<in> set (dc_releases c)"
proof (cases "commit_releases c (dm_namespace manifest, s)")
  case None
  then have "R (dm_namespace manifest, s) = Some r \<and> s \<notin> set (touched_services c)"
    using assms by (auto simp: commit_table_def manifest_commit_def split: if_splits)
  then show ?thesis using commit_touches_all[OF assms(1)] by auto
next
  case (Some r')
  then show ?thesis using assms(2) commit_releases_Some[OF Some] by (simp add: commit_table_def)
qed

lemma active_after_commit:
  assumes "manifest_commit env machines R manifest c"
  shows "active_instances (dm_namespace manifest) (commit_table c R) \<subseteq>
    rs_active_instance_id ` set (concat (map (\<lambda>r. rl_slots (rr_release r)) (dc_releases c)))"
  using commit_table_Some[OF assms] by (fastforce simp: active_instances_def)

section \<open>What applying a deploy does\<close>

context deploy_world
begin

lemmas quiets = quiet_now quiet_backend[OF quiet_list_machines] quiet_backend[OF quiet_list_instance_status]
  quiet_backend[OF quiet_upsert_service_revision] quiet_backend[OF quiet_upsert_deploy]

lemma preview_spec:
  "hoare (at R L S) (preview env local manifest)
    (\<lambda>pv w. at R L S w \<and> preview_facts R manifest pv) (at R L S)"
proof -
  have facts: "preview_facts R manifest pv"
    if pv: "build_preview env local manifest rs machines now = Inr pv"
      and rs: "releases_match (dm_namespace manifest) R rs" for rs machines now pv
  proof (rule build_preview_plans[OF pv rs])
    fix plans gone assume S: "dp_services pv = plans @ gone"
      and plans: "list_all2 (\<lambda>spec. service_planned env (deployable_machines machines local now)
         (table_slots (dm_namespace manifest) R (ss_name spec)) (set (dp_participants pv)) spec) (dm_services manifest) plans"
      and gone: "set (map pl_service gone) = {s. R (dm_namespace manifest, s) \<noteq> None} - service_names manifest"
        "\<And>plan. plan \<in> set gone \<Longrightarrow> pl_action plan = Change_Remove \<and>
          pl_slots plan = map plan_removed_slot (unwrap_or (table_slots (dm_namespace manifest) R (pl_service plan)) [])"
      and sorted: "sorted_wrt (<) (dp_participants pv)"
    have "pl_action p \<noteq> Change_Remove" if p: "p \<in> set plans" for p
      by (rule list_all2_set2[OF plans p]) (rule service_plannedD(2))
    then have "filter (\<lambda>p. pl_action p = Change_Remove) plans = []" by (simp add: filter_empty_conv)
    moreover have "filter (\<lambda>p. pl_action p = Change_Remove) gone = gone" using gone(2) by (simp add: filter_id_conv)
    ultimately show ?thesis unfolding preview_facts_def removed_services_def S
      using gone(1) sorted by (simp add: strict_sorted_iff)
  qed
  show ?thesis unfolding preview_def
  proof (intro hoare_bind_lift hoare_bind[OF hoare_backend[OF list_service_releases]])
    fix rs
    show "hoare (\<lambda>w. at R L S w \<and> releases_match (dm_namespace manifest) R rs)
      (bind_act (backend (env_list_machines env)) (\<lambda>machines. bind_act (now_act env)
        (\<lambda>now. lift_res (build_preview env local manifest rs machines now))))
      (\<lambda>pv w. at R L S w \<and> preview_facts R manifest pv) (at R L S)"
    proof (rule hoare_pure[where C = "releases_match (dm_namespace manifest) R rs"])
      assume rs: "releases_match (dm_namespace manifest) R rs"
      show "hoare (\<lambda>w. at R L S w \<and> releases_match (dm_namespace manifest) R rs)
        (bind_act (backend (env_list_machines env)) (\<lambda>machines. bind_act (now_act env)
          (\<lambda>now. lift_res (build_preview env local manifest rs machines now))))
        (\<lambda>pv w. at R L S w \<and> preview_facts R manifest pv) (at R L S)"
        by (rule hoare_pre[where P' = "at R L S"], rule hoare_bind[OF hoare_quiet[OF quiets(2)]],
            rule hoare_bind[OF hoare_quiet[OF quiets(1)]], rule hoare_lift) (simp_all add: facts[OF _ rs])
    qed simp
  qed
qed

lemma start_instance_spec:
  "hoare (at R L S) (start_instance env cx spec json d events)
    (\<lambda>(i, _). at R L (insert i S)) (at R L S)"
proof -
  have started: "hoare (\<lambda>w. at R L S w \<and> fresh (InstanceId u) w)
      (bind_act (backend (env_start_candidate env session
          \<lparr> sc_service = ss_name spec, sc_slot_id = ds_slot_id d, sc_instance_id = InstanceId u, sc_spec_json = json \<rparr>)) (\<lambda>status.
        bind_act (backend (env_upsert_instance_status env status)) (\<lambda>_. ret_act (is_instance_id status, ev))))
      (\<lambda>(i, _). at R L (insert i S)) (at R L S)" for u session ev
  proof (rule hoare_bind)
    show "hoare (\<lambda>w. at R L S w \<and> fresh (InstanceId u) w) (backend (env_start_candidate env session
          \<lparr> sc_service = ss_name spec, sc_slot_id = ds_slot_id d, sc_instance_id = InstanceId u, sc_spec_json = json \<rparr>))
        (\<lambda>st w. serving_status st \<and> at R L (insert (is_instance_id st) S) w) (at R L S)"
      by (rule hoare_backend, rule hoare_pre[OF start]) simp
    fix st
    show "hoare (\<lambda>w. serving_status st \<and> at R L (insert (is_instance_id st) S) w)
        (bind_act (backend (env_upsert_instance_status env st)) (\<lambda>_. ret_act (is_instance_id st, ev)))
        (\<lambda>(i, _). at R L (insert i S)) (at R L S)"
    proof (rule hoare_pure[where C = "serving_status st"])
      assume st: "serving_status st"
      show "hoare (\<lambda>w. serving_status st \<and> at R L (insert (is_instance_id st) S) w)
          (bind_act (backend (env_upsert_instance_status env st)) (\<lambda>_. ret_act (is_instance_id st, ev)))
          (\<lambda>(i, _). at R L (insert i S)) (at R L S)"
        by (rule hoare_conseq[where E' = "at R L (insert (is_instance_id st) S)"],
            rule hoare_bind[OF hoare_quiet[OF quiet_backend[OF quiet_upsert_instance_status[OF st]]]],
            rule hoare_ret) (auto elim: at_mono)
    qed simp
  qed
  show ?thesis unfolding start_instance_def
    by (rule hoare_bind[OF uuid]) (auto split: option.split intro: started hoare_fail)
qed

lemma deploy_slot_spec:
  assumes cur: "\<And>slots slot. current = Some slots \<Longrightarrow> slot \<in> set slots \<Longrightarrow> rs_active_instance_id slot \<in> S"
  shows "hoare (at R L S) (deploy_slot env cx current spec hash json d (events, next_slots))
    (\<lambda>(_, next') w. \<exists>slot. next' = next_slots @ [slot] \<and> slot_deployed current hash d slot \<and>
       at R L (insert (rs_active_instance_id slot) S) w) (at R L S)"
proof (cases "keep_current (find_slot current d) d hash")
  case True
  then obtain slot where slot: "find_slot current d = Some slot"
    by (auto simp: keep_current_def split: option.splits)
  then obtain slots where "current = Some slots" "slot \<in> set slots"
    by (auto simp: find_slot_def find_Some_iff split: option.splits)
  then have "rs_active_instance_id slot \<in> S" by (rule cur)
  then have "insert (rs_active_instance_id slot) S = S" by blast
  then show ?thesis using True slot
    by (auto simp: deploy_slot_def slot_deployed_def Let_def keep_current_def
      intro!: hoare_bind[where R = "\<lambda>(i, _) w. i = rs_active_instance_id slot \<and> at R L S w"] hoare_ret)
next
  case False
  show ?thesis
    using False unfolding deploy_slot_def slot_deployed_def Let_def prod.case if_not_P[OF False]
    by (intro hoare_bind[OF start_instance_spec]) (auto intro!: hoare_ret)
qed

lemma deploy_slots_spec:
  assumes cur: "\<And>slots slot. current = Some slots \<Longrightarrow> slot \<in> set slots \<Longrightarrow> rs_active_instance_id slot \<in> S"
  shows "hoare (at R L S) (fold_act (deploy_slot env cx current spec hash json) desired (events, []))
    (\<lambda>(_, slots) w. list_all2 (slot_deployed current hash) desired slots \<and>
       at R L (S \<union> rs_active_instance_id ` set slots) w) (at R L S)"
proof -
  let ?J = "\<lambda>visited (ev :: deploy_event list, slots) w. list_all2 (slot_deployed current hash) visited slots \<and>
       at R L (S \<union> rs_active_instance_id ` set slots) w"
  have "hoare (?J [] (events, [])) (fold_act (deploy_slot env cx current spec hash json) desired (events, []))
      (?J desired) (at R L S)"
  proof (rule hoare_fold_act)
    fix visited d rest and acc :: slot_acc
    obtain ev slots where acc: "acc = (ev, slots)" by (cases acc)
    show "hoare (?J visited acc) (deploy_slot env cx current spec hash json d acc) (?J (visited @ [d])) (at R L S)"
      unfolding acc prod.case
    proof (rule hoare_pure[where C = "list_all2 (slot_deployed current hash) visited slots"])
      assume visited: "list_all2 (slot_deployed current hash) visited slots"
      show "hoare (\<lambda>w. list_all2 (slot_deployed current hash) visited slots \<and>
            at R L (S \<union> rs_active_instance_id ` set slots) w)
          (deploy_slot env cx current spec hash json d (ev, slots))
          (\<lambda>(ev, slots) w. list_all2 (slot_deployed current hash) (visited @ [d]) slots \<and>
            at R L (S \<union> rs_active_instance_id ` set slots) w) (at R L S)"
      proof (rule hoare_conseq[OF deploy_slot_spec[where S = "S \<union> rs_active_instance_id ` set slots"]])
        fix a w assume "(case a of (_, next') \<Rightarrow> \<lambda>w. \<exists>slot. next' = slots @ [slot] \<and> slot_deployed current hash d slot \<and>
          at R L (insert (rs_active_instance_id slot) (S \<union> rs_active_instance_id ` set slots)) w) w"
        then show "(case a of (ev, slots) \<Rightarrow> \<lambda>w. list_all2 (slot_deployed current hash) (visited @ [d]) slots \<and>
            at R L (S \<union> rs_active_instance_id ` set slots) w) w"
          using visited by (cases a) (auto simp: list_all2_appendI)
      qed (use cur in \<open>auto elim: at_mono\<close>)
    qed simp
  qed
  then show ?thesis by simp
qed

lemma deploy_service_spec:
  assumes ns: "cx_namespace cx = ns"
    and slots_map: "\<And>s. hm_get slots_map s = table_slots ns R s"
    and S: "active_instances ns R \<subseteq> S"
  shows "hoare (at R L S) (deploy_service env cx slots_map machines spec (events, releases, slots))
    (\<lambda>(_, releases', slots') w. \<exists>r. releases' = releases @ [r] \<and> slots' = slots @ rl_slots (rr_release r) \<and>
       release_deployed env ns machines R spec r \<and>
       at R L (S \<union> rs_active_instance_id ` set (rl_slots (rr_release r))) w) (at R L S)"
proof -
  define current where "current = table_slots ns R (ss_name spec)"
  have cur: "rs_active_instance_id slot \<in> S" if "current = Some xs" "slot \<in> set xs" for xs slot
    using active_instancesI[of ns R "ss_name spec" xs slot] that S by (auto simp: current_def)
  let ?post = "\<lambda>(_, releases', slots') w. \<exists>r. releases' = releases @ [r] \<and> slots' = slots @ rl_slots (rr_release r) \<and>
       release_deployed env ns machines R spec r \<and>
       at R L (S \<union> rs_active_instance_id ` set (rl_slots (rr_release r))) w"
  have finish: "hoare (\<lambda>w. list_all2 (slot_deployed current hash) desired next_slots \<and>
        at R L (S \<union> rs_active_instance_id ` set next_slots) w)
      (bind_act (now_act env) (\<lambda>now. ret_act (ev, releases @ [committed_release cx spec hash next_slots now], slots @ next_slots)))
      ?post (at R L S)"
    if h: "revision_hash (env_spec_json env) spec = Inr hash"
      and d: "desired_slots spec machines current = (Inr desired :: ('e deploy_error, _) result)"
    for hash desired ev next_slots
  proof (rule hoare_pure[where C = "list_all2 (slot_deployed current hash) desired next_slots"])
    assume all: "list_all2 (slot_deployed current hash) desired next_slots"
    have committed_slots: "rl_slots (rr_release (committed_release cx spec hash next_slots now)) = next_slots" for now
      by (simp add: committed_release_def)
    have deployed: "release_deployed env ns machines R spec (committed_release cx spec hash next_slots now)" for now
      unfolding release_deployed_def current_def[symmetric]
      by (intro conjI exI[of _ hash] exI[of _ desired] h d) (simp_all add: committed_release_def ns all)
    show "hoare (\<lambda>w. list_all2 (slot_deployed current hash) desired next_slots \<and>
          at R L (S \<union> rs_active_instance_id ` set next_slots) w)
        (bind_act (now_act env) (\<lambda>now. ret_act (ev, releases @ [committed_release cx spec hash next_slots now], slots @ next_slots)))
        ?post (at R L S)"
      by (rule hoare_conseq[where P' = "at R L (S \<union> rs_active_instance_id ` set next_slots)"
            and E' = "at R L (S \<union> rs_active_instance_id ` set next_slots)" and Q' = ?post],
          rule hoare_bind[OF hoare_quiet[OF quiet_now]], rule hoare_ret)
         (auto intro!: deployed simp: committed_slots elim: at_mono)
  qed simp
  show ?thesis
    unfolding deploy_service_def prod.case slots_map current_def[symmetric]
    by (intro hoare_bind_lift hoare_bind[OF hoare_quiet[OF quiets(4)]] hoare_bind[OF deploy_slots_spec[OF cur]])
       (auto intro: finish)
qed

lemma deploy_services_spec:
  assumes ns: "cx_namespace cx = ns"
    and slots_map: "\<And>s. hm_get slots_map s = table_slots ns R s"
    and S: "active_instances ns R \<subseteq> S"
  shows "hoare (at R L S) (fold_act (deploy_service env cx slots_map machines) specs (events, [], []))
    (\<lambda>(_, releases, slots) w. list_all2 (release_deployed env ns machines R) specs releases \<and>
       slots = concat (map (\<lambda>r. rl_slots (rr_release r)) releases) \<and>
       at R L (S \<union> rs_active_instance_id ` set slots) w) (at R L S)"
proof -
  let ?J = "\<lambda>visited (ev :: deploy_event list, releases, slots) w.
       list_all2 (release_deployed env ns machines R) visited releases \<and>
       slots = concat (map (\<lambda>r. rl_slots (rr_release r)) releases) \<and>
       at R L (S \<union> rs_active_instance_id ` set slots) w"
  have "hoare (?J [] (events, [], [])) (fold_act (deploy_service env cx slots_map machines) specs (events, [], []))
      (?J specs) (at R L S)"
  proof (rule hoare_fold_act)
    fix visited spec rest and acc :: service_acc
    obtain ev releases slots where acc: "acc = (ev, releases, slots)" by (cases acc)
    show "hoare (?J visited acc) (deploy_service env cx slots_map machines spec acc) (?J (visited @ [spec])) (at R L S)"
      unfolding acc prod.case
    proof (rule hoare_pure[where C = "list_all2 (release_deployed env ns machines R) visited releases \<and>
        slots = concat (map (\<lambda>r. rl_slots (rr_release r)) releases)"])
      assume visited: "list_all2 (release_deployed env ns machines R) visited releases \<and>
        slots = concat (map (\<lambda>r. rl_slots (rr_release r)) releases)"
      have S': "active_instances ns R \<subseteq> S \<union> rs_active_instance_id ` set slots" using S by blast
      show "hoare (\<lambda>w. list_all2 (release_deployed env ns machines R) visited releases \<and>
            slots = concat (map (\<lambda>r. rl_slots (rr_release r)) releases) \<and>
            at R L (S \<union> rs_active_instance_id ` set slots) w)
          (deploy_service env cx slots_map machines spec (ev, releases, slots)) (?J (visited @ [spec])) (at R L S)"
      proof (rule hoare_conseq[OF deploy_service_spec[OF ns slots_map S']])
        fix a :: service_acc and w assume "(case a of (_, releases', slots') \<Rightarrow> \<lambda>w. \<exists>r. releases' = releases @ [r] \<and>
            slots' = slots @ rl_slots (rr_release r) \<and> release_deployed env ns machines R spec r \<and>
            at R L (S \<union> rs_active_instance_id ` set slots \<union> rs_active_instance_id ` set (rl_slots (rr_release r))) w) w"
        then show "?J (visited @ [spec]) a w"
          using visited by (cases a) (auto simp: list_all2_appendI image_Un Un_assoc)
      qed (auto elim: at_mono)
    qed simp
  qed
  then show ?thesis by simp
qed

lemma cleanup_instance_spec:
  assumes "is_instance_id status \<in> A \<Longrightarrow> instance_id_str (is_instance_id status) \<in> set active_ids"
  shows "hoare (at R L A) (cleanup_instance env sessions active_ids participant_ids status acc) (\<lambda>_. at R L A) E"
proof (rule hoareI)
  fix w a w' assume w: "at R L A w" and run: "cleanup_instance env sessions active_ids participant_ids status acc w = (Inr a, w')"
  let ?i = "is_instance_id status"
  have keep: "at R L A w2" if "at R L (A - {?i}) w2" "instance_id_str ?i \<notin> set active_ids" for w2
    using that assms by (metis Diff_insert0 Diff_empty)
  obtain events errors where acc: "acc = (events, errors)" by (cases acc)
  show "at R L A w'"
  proof (cases "instance_id_str ?i \<in> set active_ids")
    case True
    then show ?thesis using run w by (simp add: cleanup_instance_def acc)
  next
    case False
    show ?thesis
    proof (cases "bt_get sessions (is_machine_id status)")
      case None
      then show ?thesis using run w by (simp add: cleanup_instance_def acc split: if_splits)
    next
      case (Some session)
      obtain r1 w1 where r1: "env_drain_instance env session ?i w = (r1, w1)" by fastforce
      have w1: "at R L A w1"
        using hoare_Inr[OF drain w] hoare_Inl[OF drain w] r1 keep False by (cases r1) auto
      obtain r2 w2 where r2: "env_remove_instance env session ?i w1 = (r2, w2)" by fastforce
      have w2: "at R L A w2"
        using hoare_Inr[OF remove w1] hoare_Inl[OF remove w1] r2 keep False by (cases r2) auto
      show ?thesis using run w w1 w2 r1 r2 Some
        by (auto simp: cleanup_instance_def acc split: if_splits sum.splits)
    qed
  qed
qed (auto simp: cleanup_instance_def split: if_splits prod.splits option.splits sum.splits)

lemma finish_deploy_spec:
  assumes A: "A \<subseteq> rs_active_instance_id ` set slots"
  shows "hoare (at R L A) (finish_deploy env cx pv dr slots events) (\<lambda>_. at R L A) (at R L A)"
proof -
  define active_ids where "active_ids = bs_of_list (map (\<lambda>slot. instance_id_str (rs_active_instance_id slot)) slots)"
  have active: "instance_id_str i \<in> set active_ids" if "i \<in> A" for i
    using A that by (auto simp: active_ids_def)
  have cleanup: "hoare (at R L A) (fold_act (cleanup_instance env sessions active_ids participant_ids) statuses acc)
      (\<lambda>_. at R L A) (at R L A)" for sessions participant_ids statuses acc
    by (rule hoare_fold_act[where J = "\<lambda>_ _. at R L A"]) (rule cleanup_instance_spec, rule active)
  show ?thesis
    unfolding finish_deploy_def Let_def active_ids_def[symmetric]
    by (intro hoare_bind[OF hoare_quiet[OF quiets(3)]] hoare_bind[OF cleanup])
       (auto intro!: hoare_ret hoare_bind[OF hoare_quiet[OF quiets(1)]] hoare_bind[OF hoare_quiet[OF quiets(5)]])
qed

lemma commit_deploy_spec:
  assumes ns: "cx_namespace cx = dm_namespace manifest"
    and removed: "set (removed_services pv) = {s. R (dm_namespace manifest, s) \<noteq> None} - service_names manifest"
    and releases: "list_all2 (release_deployed env (dm_namespace manifest) machines R) (dm_services manifest) releases"
    and slots: "slots = concat (map (\<lambda>r. rl_slots (rr_release r)) releases)"
    and S: "rs_active_instance_id ` set slots \<subseteq> S" "S0 \<subseteq> S"
  shows "hoare (at R L S) (commit_deploy env cx pv dr (events, releases, slots))
    (\<lambda>_. committed_world env at R L manifest)
    (\<lambda>w. at R L S0 w \<or> committed_world env at R L manifest w)"
  unfolding commit_deploy_def prod.case Let_def
proof (intro hoare_bind hoare_bind_lift)
  show "hoare (at R L S) (now_act env) (\<lambda>_. at R L S) (\<lambda>w. at R L S0 w \<or> committed_world env at R L manifest w)"
    by (rule hoare_conseq[OF hoare_quiet[OF quiet_now]]) (auto elim: at_mono[OF _ S(2)])
  fix now json
  define c where "c = \<lparr> dc_namespace = cx_namespace cx, dc_removed_services = removed_services pv, dc_releases = releases,
      dc_deploy = dr\<lparr>dr_state := Deploy_Committed, dr_committed_at := Some now, dr_finished_at := Some now,
        dr_summary_json := json\<rparr> \<rparr>"
  define A where "A = active_instances (dm_namespace manifest) (commit_table c R)"
  have c: "manifest_commit env machines R manifest c"
    using ns removed releases by (simp add: manifest_commit_def c_def)
  have A: "A \<subseteq> rs_active_instance_id ` set slots"
    using active_after_commit[OF c] by (simp add: A_def c_def slots)
  have reached: "committed_world env at R L manifest w" if "at (commit_table c R) L A w" for w
    using c that unfolding committed_world_def A_def by blast
  show "hoare (at R L S) (backend (env_apply_deploy_commit env
      \<lparr> dc_namespace = cx_namespace cx, dc_removed_services = removed_services pv, dc_releases = releases,
        dc_deploy = dr\<lparr>dr_state := Deploy_Committed, dr_committed_at := Some now, dr_finished_at := Some now,
          dr_summary_json := json\<rparr> \<rparr>)) (\<lambda>_. at (commit_table c R) L A)
      (\<lambda>w. at R L S0 w \<or> committed_world env at R L manifest w)"
    unfolding c_def[symmetric]
    by (rule hoare_conseq[OF hoare_backend[OF commit[where S = S]]])
       (auto elim: at_mono[OF _ subset_trans[OF A S(1)]] at_mono[OF _ S(2)])
  show "hoare (at (commit_table c R) L A) (finish_deploy env cx pv
      (dr\<lparr>dr_state := Deploy_Committed, dr_committed_at := Some now, dr_finished_at := Some now,
          dr_summary_json := json\<rparr>) slots (events @ [commit_event cx]))
      (\<lambda>_. committed_world env at R L manifest) (\<lambda>w. at R L S0 w \<or> committed_world env at R L manifest w)"
    by (rule hoare_conseq[OF finish_deploy_spec[OF A]]) (use reached in auto)
qed (use S in \<open>auto intro!: hoare_lift elim: at_mono\<close>)

lemma commit_services_spec:
  assumes ns: "cx_namespace cx = dm_namespace manifest"
    and removed: "set (removed_services pv) = {s. R (dm_namespace manifest, s) \<noteq> None} - service_names manifest"
  shows "hoare (\<lambda>w. list_all2 (release_deployed env (dm_namespace manifest) ms R) (dm_services manifest) releases \<and>
        slots = concat (map (\<lambda>r. rl_slots (rr_release r)) releases) \<and>
        at R L (S \<union> rs_active_instance_id ` set slots) w)
      (commit_deploy env cx pv dr (ev, releases, slots)) (\<lambda>_. committed_world env at R L manifest)
      (\<lambda>w. at R L S w \<or> committed_world env at R L manifest w)"
    (is "hoare (\<lambda>w. ?C \<and> ?slots \<and> ?at w) ?m ?Q ?E")
proof -
  have "hoare (\<lambda>w. ?at w \<and> (?C \<and> ?slots)) ?m ?Q ?E"
    by (rule hoare_conj, elim conjE, rule commit_deploy_spec[OF ns removed]) auto
  then show ?thesis by (rule hoare_pre) blast
qed

lemma deploy_services_commit:
  assumes ns: "cx_namespace cx = dm_namespace manifest"
    and S: "active_instances (dm_namespace manifest) R \<subseteq> S"
    and removed: "set (removed_services pv) = {s. R (dm_namespace manifest, s) \<noteq> None} - service_names manifest"
    and m: "releases_match (dm_namespace manifest) R current"
  shows "hoare (at R L S)
      (bind_act (fold_act (deploy_service env cx (current_slots_by_service_from_releases current) ms)
         (dm_services manifest) (events, [], [])) (\<lambda>acc. commit_deploy env cx pv dr acc))
      (\<lambda>_. committed_world env at R L manifest) (\<lambda>w. at R L S w \<or> committed_world env at R L manifest w)"
    (is "hoare _ _ _ ?E")
proof (rule hoare_bind)
  let ?deployed = "\<lambda>(_ :: deploy_event list, releases, slots) w.
    list_all2 (release_deployed env (dm_namespace manifest) ms R) (dm_services manifest) releases \<and>
    slots = concat (map (\<lambda>r. rl_slots (rr_release r)) releases) \<and>
    at R L (S \<union> rs_active_instance_id ` set slots) w"
  show "hoare (at R L S) (fold_act (deploy_service env cx (current_slots_by_service_from_releases current) ms)
      (dm_services manifest) (events, [], [])) ?deployed ?E"
    by (rule hoare_conseq[OF deploy_services_spec[OF ns slots_from_releases_get[OF m] S]]) auto
  fix acc :: service_acc
  obtain ev releases slots where acc: "acc = (ev, releases, slots)" by (cases acc)
  show "hoare (?deployed acc) (commit_deploy env cx pv dr acc) (\<lambda>_. committed_world env at R L manifest) ?E"
    unfolding acc prod.case by (rule commit_services_spec[OF ns removed])
qed

lemma apply_locked_spec:
  assumes ns: "cx_namespace cx = dm_namespace manifest"
    and S: "active_instances (dm_namespace manifest) R \<subseteq> S"
  shows "hoare (at R L S) (apply_locked env cx manifest initial machines events)
    (\<lambda>_. committed_world env at R L manifest)
    (\<lambda>w. at R L S w \<or> committed_world env at R L manifest w)"
  unfolding apply_locked_def
proof (rule hoare_bind_weak[OF preview_spec], simp, rule hoare_conj)
  fix pv assume "preview_facts R manifest pv"
  then have removed: "set (removed_services pv) = {s. R (dm_namespace manifest, s) \<noteq> None} - service_names manifest"
    by (simp add: preview_facts_def)
  show "hoare (at R L S) (bind_act (lift_res (guard_res (dp_participants pv = dp_participants initial) Participants_Changed)) (\<lambda>_.
      bind_act (lift_res (map_err Serialize_Preview (env_preview_json env pv))) (\<lambda>json.
      bind_act (backend (env_upsert_deploy env (initial_record cx pv json))) (\<lambda>_.
      bind_act (backend (env_list_service_releases env (cx_namespace cx))) (\<lambda>current.
      bind_act (now_act env) (\<lambda>now.
      bind_act (fold_act (deploy_service env cx (current_slots_by_service_from_releases current)
          (deployable_machines machines (cx_local cx) now)) (dm_services manifest) (events, [], [])) (\<lambda>acc.
      commit_deploy env cx pv (initial_record cx pv json) acc)))))))
      (\<lambda>_. committed_world env at R L manifest) (\<lambda>w. at R L S w \<or> committed_world env at R L manifest w)"
    by (intro hoare_bind_lift hoare_bind_quiet[OF quiets(5)] hoare_bind_quiet[OF quiet_now] hoare_conj
          hoare_bind_weak[OF hoare_backend[OF list_service_releases]] deploy_services_commit[OF ns S removed])
       (auto simp: ns)
qed

abbreviation held :: "(machine_id, 's) btree_map \<Rightarrow> 'k set" where
  "held sessions \<equiv> (\<lambda>entry. lock_of (snd entry)) ` set sessions"

lemma drop_sessions_at: "at R L S w \<Longrightarrow> at R (L - held sessions) S (drop_sessions env sessions w)"
proof (induction sessions arbitrary: L w)
  case (Cons entry sessions)
  have "L - held (entry # sessions) = L - {lock_of (snd entry)} - held sessions" by auto
  then show ?case
    using Cons.IH[OF drop[OF Cons.prems]] by (simp add: drop_sessions_def case_prod_unfold)
qed (simp add: drop_sessions_def)

lemma close_sessions_at: "at R L S w \<Longrightarrow> at R (L - held sessions) S (close_sessions env sessions w)"
proof (induction sessions arbitrary: L w)
  case (Cons entry sessions)
  obtain r w1 where run: "env_close env (snd entry) w = (r, w1)" by fastforce
  then have "at R (L - {lock_of (snd entry)}) S w1"
    using hoare_Inr[OF close Cons.prems] hoare_Inl[OF close Cons.prems] by (cases r) auto
  moreover have "L - held (entry # sessions) = L - {lock_of (snd entry)} - held sessions" by auto
  ultimately show ?case using Cons.IH run by simp
qed simp

lemma held_bt_insert: "bt_wf sessions \<Longrightarrow> k \<notin> fst ` set sessions \<Longrightarrow>
    held (bt_insert k s sessions) = insert (lock_of s) (held sessions)"
  by (induction k s sessions rule: bt_insert.induct) auto

lemma open_sessions_spec:
  assumes "at R (L \<union> held sessions) S w" and "L \<inter> held sessions = {}" and "bt_wf sessions"
    and "distinct participants" and "fst ` set sessions \<inter> set participants = {}"
    and "open_sessions env machine_map ns d local participants (sessions, events) w = (r, w')"
  shows "case r of
      Inr (sessions', _) \<Rightarrow> at R (L \<union> held sessions') S w' \<and> L \<inter> held sessions' = {}
    | Inl _ \<Rightarrow> at R L S w'"
  using assms
proof (induction participants arbitrary: sessions events w)
  case Nil
  then show ?case by auto
next
  case (Cons p ps)
  have dropped: "at R L S (drop_sessions env sessions w1)" if "at R (L \<union> held sessions) S w1" for w1
    using drop_sessions_at[OF that, of sessions] Cons.prems(2) by (simp add: Un_Diff Diff_triv)
  show ?case
  proof (cases "hm_get machine_map p")
    case None
    then show ?thesis using Cons.prems dropped by auto
  next
    case (Some machine)
    obtain r1 w1 where run: "env_open env machine ns d local w = (r1, w1)" by fastforce
    show ?thesis
    proof (cases r1)
      case (Inl e)
      then have "at R (L \<union> held sessions) S w1" using hoare_Inl[OF open_lock Cons.prems(1)] run by blast
      then show ?thesis using Cons.prems(6) Some run Inl dropped by auto
    next
      case (Inr si)
      obtain s instances where si: "si = (s, instances)" by (cases si)
      have new: "lock_of s \<notin> L \<union> held sessions" "at R (insert (lock_of s) (L \<union> held sessions)) S w1"
        using hoare_Inr[OF open_lock Cons.prems(1) run[unfolded Inr si]] by simp_all
      have p: "p \<notin> fst ` set sessions" using Cons.prems(5) by auto
      note held = held_bt_insert[OF Cons.prems(3) p, of s]
      have "at R (L \<union> held (bt_insert p s sessions)) S w1" using new(2) held by simp
      moreover have "L \<inter> held (bt_insert p s sessions) = {}" using new(1) held Cons.prems(2) by simp
      moreover have "fst ` set (bt_insert p s sessions) \<inter> set ps = {}" using Cons.prems(4,5) by auto
      moreover have "open_sessions env machine_map ns d local ps
          (bt_insert p s sessions, events @ [lock_event p instances]) w1 = (r, w')"
        using Cons.prems(6) Some run Inr si by simp
      ultimately show ?thesis using Cons.IH Cons.prems(3,4) by simp
    qed
  qed
qed

lemma close_committed:
  assumes "committed_world env at R (L \<union> held sessions) manifest w" and "L \<inter> held sessions = {}"
  shows "committed_world env at R L manifest (close_sessions env sessions w)"
proof -
  have "L \<union> held sessions - held sessions = L" using assms(2) by auto
  then show ?thesis using assms(1) close_sessions_at unfolding committed_world_def by metis
qed

abbreviation apply_block ::
    "'s apply_ctx \<Rightarrow> deploy_manifest \<Rightarrow> deploy_preview \<Rightarrow> machine_record list \<Rightarrow> (machine_id, 's) btree_map \<Rightarrow>
     deploy_event list \<Rightarrow> _" where
  "apply_block cx manifest initial machines sessions events w \<equiv>
    case apply_locked env cx manifest initial machines events w of (r, w') \<Rightarrow> (r, close_sessions env sessions w')"

lemma apply_block_spec:
  assumes S: "active_instances (dm_namespace manifest) R \<subseteq> S"
    and ns: "cx_namespace cx = dm_namespace manifest"
  shows "hoare (\<lambda>w. at R (L \<union> held sessions) S w \<and> L \<inter> held sessions = {})
      (apply_block cx manifest initial machines sessions events)
      (\<lambda>_. committed_world env at R L manifest) (\<lambda>w. at R L S w \<or> committed_world env at R L manifest w)"
proof (rule hoare_conj)
  assume disj: "L \<inter> held sessions = {}"
  then have L: "L \<union> held sessions - held sessions = L" by auto
  note locked = apply_locked_spec[OF ns S, where L = "L \<union> held sessions"]
  show "hoare (at R (L \<union> held sessions) S) (apply_block cx manifest initial machines sessions events)
      (\<lambda>_. committed_world env at R L manifest) (\<lambda>w. at R L S w \<or> committed_world env at R L manifest w)"
  proof (rule hoareI)
    fix w a w' assume "at R (L \<union> held sessions) S w"
      "apply_block cx manifest initial machines sessions events w = (Inr a, w')"
    then show "committed_world env at R L manifest w'"
      using hoare_Inr[OF locked] close_committed[OF _ disj] by (auto split: prod.splits)
  next
    fix w e w' assume w: "at R (L \<union> held sessions) S w"
      and run: "apply_block cx manifest initial machines sessions events w = (Inl e, w')"
    from run obtain w1 where "apply_locked env cx manifest initial machines events w = (Inl e, w1)"
      and w': "w' = close_sessions env sessions w1"
      by (auto split: prod.splits)
    then consider "at R (L \<union> held sessions) S w1" | "committed_world env at R (L \<union> held sessions) manifest w1"
      using hoare_Inl[OF locked w] by blast
    then show "at R L S w' \<or> committed_world env at R L manifest w'"
      unfolding w' using close_sessions_at[of R "L \<union> held sessions" S w1 sessions] close_committed[OF _ disj] L
      by cases auto
  qed
qed

lemma open_sessions_hoare:
  assumes "distinct participants"
  shows "hoare (at R L S) (open_sessions env machine_map ns d local participants ([], []))
      (\<lambda>(sessions, _) w. at R (L \<union> held sessions) S w \<and> L \<inter> held sessions = {}) (at R L S)"
proof (rule hoareI)
  fix w a w' assume "at R L S w" "open_sessions env machine_map ns d local participants ([], []) w = (Inr a, w')"
  then show "(case a of (sessions, _) \<Rightarrow> \<lambda>w. at R (L \<union> held sessions) S w \<and> L \<inter> held sessions = {}) w'"
    using open_sessions_spec[of R L "[]" S w participants machine_map ns d local "[]"] assms by (auto split: prod.splits)
next
  fix w e w' assume "at R L S w" "open_sessions env machine_map ns d local participants ([], []) w = (Inl e, w')"
  then show "at R L S w'"
    using open_sessions_spec[of R L "[]" S w participants machine_map ns d local "[]"] assms by auto
qed

lemma apply_spec:
  assumes S: "active_instances (dm_namespace manifest) R \<subseteq> S"
  shows "hoare (at R L S) (deploy_apply env local manifest)
    (\<lambda>_. committed_world env at R L manifest)
    (\<lambda>w. at R L S w \<or> committed_world env at R L manifest w)"
proof -
  let ?Q = "\<lambda>_. committed_world env at R L manifest"
  let ?E = "\<lambda>w. at R L S w \<or> committed_world env at R L manifest w"
  let ?cx = "\<lambda>u started sessions. \<lparr> cx_namespace = dm_namespace manifest, cx_deploy_id = DeployId u, cx_local = local,
    cx_started_at = started, cx_sessions = sessions \<rparr>"
  have inner: "hoare (\<lambda>w. at R L S w \<and> preview_facts R manifest initial)
      (bind_act (backend (env_list_machines env)) (\<lambda>machines.
        bind_act (open_sessions env (hm_collect (map (\<lambda>m. (mr_id m, m)) machines)) (dm_namespace manifest) (DeployId u)
            local (sort_by cmp (dp_participants initial)) ([], [])) (\<lambda>(sessions, events).
          apply_block (?cx u started sessions) manifest initial machines sessions events))) ?Q ?E" for u started initial
  proof (rule hoare_conj)
    assume "preview_facts R manifest initial"
    then have "distinct (sort_by cmp (dp_participants initial))"
      by (simp add: preview_facts_def mset_eq_imp_distinct_iff[OF linorder_cmp.mset_sort_by])
    note opened = open_sessions_hoare[OF this]
    show "hoare (at R L S) (bind_act (backend (env_list_machines env)) (\<lambda>machines.
        bind_act (open_sessions env (hm_collect (map (\<lambda>m. (mr_id m, m)) machines)) (dm_namespace manifest) (DeployId u)
            local (sort_by cmp (dp_participants initial)) ([], [])) (\<lambda>(sessions, events).
          apply_block (?cx u started sessions) manifest initial machines sessions events))) ?Q ?E"
    proof (rule hoare_bind_quiet[OF quiets(2)], rule hoare_bind_weak[OF opened])
      fix machines and a :: "'s open_acc"
      obtain sessions events where a: "a = (sessions, events)" by (cases a)
      show "hoare ((\<lambda>(sessions, _) w. at R (L \<union> held sessions) S w \<and> L \<inter> held sessions = {}) a)
          (case a of (sessions, events) \<Rightarrow> apply_block (?cx u started sessions) manifest initial machines sessions events) ?Q ?E"
        unfolding a prod.case by (rule apply_block_spec[OF S]) simp
    qed auto
  qed
  show ?thesis
    unfolding deploy_apply_def Let_def
    by (rule hoare_bind_weak[OF uuid], simp, rule hoare_pre[where P' = "at R L S"],
        rule hoare_bind_quiet[OF quiet_now], rule hoare_bind_weak[OF preview_spec _ inner]) simp_all
qed

end

section \<open>What a commit of a manifest leaves\<close>

lemma manifest_commit_table:
  assumes mc: "manifest_commit env machines R manifest c"
  shows "ns' \<noteq> dm_namespace manifest \<Longrightarrow> commit_table c R (ns', s) = R (ns', s)"
    and "commit_table c R (dm_namespace manifest, s) \<noteq> None \<longleftrightarrow> s \<in> service_names manifest"
    and "commit_table c R (dm_namespace manifest, s) = Some r \<Longrightarrow>
      \<exists>spec\<in>set (dm_services manifest). ss_name spec = s \<and> release_deployed env (dm_namespace manifest) machines R spec r"
proof -
  have deployed: "list_all2 (release_deployed env (dm_namespace manifest) machines R) (dm_services manifest) (dc_releases c)"
    and ns: "dc_namespace c = dm_namespace manifest"
    using mc by (simp_all add: manifest_commit_def)
  have from_spec: "\<exists>spec\<in>set (dm_services manifest). release_deployed env (dm_namespace manifest) machines R spec r"
    if "r \<in> set (dc_releases c)" for r
    using list_all2_set2[OF deployed that] by blast
  show "commit_table c R (ns', s) = R (ns', s)" if "ns' \<noteq> dm_namespace manifest"
    using that ns commit_releases_Some[of c "(ns', s)"] from_spec
    by (fastforce simp: commit_table_def release_deployed_def split: option.split)
  have sound: "\<exists>spec\<in>set (dm_services manifest). ss_name spec = s \<and> release_deployed env (dm_namespace manifest) machines R spec r"
    if "commit_table c R (dm_namespace manifest, s) = Some r" for s r
  proof -
    have "commit_releases c (dm_namespace manifest, s) = Some r"
      using that ns commit_touches_all[OF mc, of s]
      by (auto simp: commit_table_def split: option.splits if_splits)
    then have "r \<in> set (dc_releases c)" "s = rr_service r" using commit_releases_Some by blast+
    then show ?thesis using from_spec by (fastforce simp: release_deployed_def)
  qed
  then show "commit_table c R (dm_namespace manifest, s) = Some r \<Longrightarrow>
      \<exists>spec\<in>set (dm_services manifest). ss_name spec = s \<and> release_deployed env (dm_namespace manifest) machines R spec r" .
  show "commit_table c R (dm_namespace manifest, s) \<noteq> None \<longleftrightarrow> s \<in> service_names manifest"
  proof
    assume "commit_table c R (dm_namespace manifest, s) \<noteq> None"
    then show "s \<in> service_names manifest" using sound by (auto simp: service_names_def)
  next
    assume "s \<in> service_names manifest"
    then obtain spec where "spec \<in> set (dm_services manifest)" "ss_name spec = s" by (auto simp: service_names_def)
    with deployed obtain r where "r \<in> set (dc_releases c)" "rr_namespace r = dm_namespace manifest" "rr_service r = s"
      by (metis list_all2_set1 release_deployed_def)
    then have "(dm_namespace manifest, s) \<in> (\<lambda>r. (rr_namespace r, rr_service r)) ` set (dc_releases c)" by force
    then have "commit_releases c (dm_namespace manifest, s) \<noteq> None"
      unfolding commit_releases_def map_of_eq_None_iff by (auto simp: image_image)
    then show "commit_table c R (dm_namespace manifest, s) \<noteq> None" by (auto simp: commit_table_def split: option.split)
  qed
qed

end
