(* ===== verification/Container_Spec.thy ===== *)
theory Container_Spec
  imports Service_Spec
begin

text \<open>
  The declarative side of the container runtime, \<open>crates/ployz-runtime-backends/src/runtime\<close>:
  the labels of managed containers (\<open>labels.rs\<close>), the desired and the observed state of a container
  (\<open>spec.rs\<close>), the comparison of the two (\<open>diff.rs\<close>) and image references (\<open>image_ref.rs\<close>).

  The types of the Docker client that the code reads (the answer of \<open>inspect\<close>, restart policies, port
  maps) are records with the fields the code uses. The parser of IP addresses is an argument.
\<close>

section \<open>Labels\<close>

definition label_managed :: string where "label_managed = ''dev.ployz.managed''"
definition label_kind :: string where "label_kind = ''dev.ployz.kind''"
definition label_key :: string where "label_key = ''dev.ployz.key''"
definition label_parent_id :: string where "label_parent_id = ''dev.ployz.parent-id''"
definition label_namespace :: string where "label_namespace = ''dev.ployz.namespace''"
definition label_service :: string where "label_service = ''dev.ployz.service''"
definition label_revision :: string where "label_revision = ''dev.ployz.revision''"
definition label_deploy :: string where "label_deploy = ''dev.ployz.deploy''"
definition label_instance :: string where "label_instance = ''dev.ployz.instance''"
definition label_slot :: string where "label_slot = ''dev.ployz.slot''"
definition label_machine :: string where "label_machine = ''dev.ployz.machine''"
definition legacy_label_config_hash :: string where "legacy_label_config_hash = ''ployz.config-hash''"
definition legacy_label_parent_id :: string where "legacy_label_parent_id = ''ployz.parent-container-id''"

lemmas label_defs = label_managed_def label_kind_def label_key_def label_parent_id_def label_namespace_def
  label_service_def label_revision_def label_deploy_def label_instance_def label_slot_def label_machine_def
  legacy_label_config_hash_def legacy_label_parent_id_def

type_synonym labels = "(string, string) hash_map"

record workload_meta =
  wm_namespace :: string
  wm_service :: string
  wm_revision :: string
  wm_deploy_id :: string
  wm_instance_id :: string
  wm_slot_id :: string
  wm_machine_id :: string

definition build_system_labels :: "string \<Rightarrow> string option \<Rightarrow> labels" where
  "build_system_labels key parent_id =
    (let labels = hm_insert label_key key
           (hm_insert label_kind ''system'' (hm_insert label_managed ''true'' []))
     in case parent_id of None \<Rightarrow> labels | Some pid \<Rightarrow> hm_insert label_parent_id pid labels)"

definition build_workload_labels :: "string \<Rightarrow> workload_meta \<Rightarrow> (string, string) btree_map \<Rightarrow> labels" where
  "build_workload_labels key meta extra =
    fold (\<lambda>(k, v). hm_insert k v)
      ([(label_managed, ''true''), (label_kind, ''workload''), (label_key, key),
        (label_namespace, wm_namespace meta), (label_service, wm_service meta),
        (label_revision, wm_revision meta), (label_deploy, wm_deploy_id meta),
        (label_instance, wm_instance_id meta), (label_slot, wm_slot_id meta),
        (label_machine, wm_machine_id meta)] @ extra) []"

definition parse_key :: "labels \<Rightarrow> string option" where
  "parse_key labels = hm_get labels label_key"

record workload_labels =
  wl_instance_id :: string
  wl_service :: string
  wl_slot_id :: string
  wl_machine_id :: string
  wl_revision_hash :: string
  wl_deploy_id :: string

definition extract_workload_labels :: "labels \<Rightarrow> workload_labels option" where
  "extract_workload_labels labels =
    Option.bind (hm_get labels label_instance) (\<lambda>i.
    Option.bind (hm_get labels label_service) (\<lambda>service.
    Option.bind (hm_get labels label_slot) (\<lambda>slot.
    Option.bind (hm_get labels label_machine) (\<lambda>machine.
    Option.bind (hm_get labels label_revision) (\<lambda>revision.
    Option.bind (hm_get labels label_deploy) (\<lambda>deploy.
    Some \<lparr> wl_instance_id = i, wl_service = service, wl_slot_id = slot, wl_machine_id = machine,
           wl_revision_hash = revision, wl_deploy_id = deploy \<rparr>))))))"

section \<open>Desired and observed state\<close>

datatype restart_policy_name = Name_No | Name_Always | Name_UnlessStopped | Name_OnFailure | Name_Empty

record docker_restart_policy =
  drp_name :: "restart_policy_name option"
  drp_maximum_retry_count :: "int option"

record port_binding =
  pb_host_ip :: "string option"
  pb_host_port :: "string option"

type_synonym port_map = "(string, port_binding list option) hash_map"

record runtime_container_spec =
  ru_key :: string
  ru_container_name :: string
  ru_image :: string
  ru_pull_policy :: pull_policy
  ru_cmd :: "string list option"
  ru_entrypoint :: "string list option"
  ru_env :: "(string \<times> string) list"
  ru_labels :: labels
  ru_binds :: "string list"
  ru_tmpfs :: "(string, string) hash_map"
  ru_dns_servers :: "string list"
  ru_network_mode :: "string option"
  ru_port_bindings :: "port_map option"
  ru_exposed_ports :: "string list option"
  ru_cap_add :: "string list"
  ru_cap_drop :: "string list"
  ru_privileged :: bool
  ru_user :: "string option"
  ru_restart_policy :: "docker_restart_policy option"
  ru_memory_bytes :: "int option"
  ru_nano_cpus :: "int option"
  ru_sysctls :: "(string, string) hash_map"
  ru_stop_timeout :: "int option"
  ru_pid_mode :: "string option"

definition runtime_container_spec_default :: runtime_container_spec where
  "runtime_container_spec_default =
    \<lparr> ru_key = [], ru_container_name = [], ru_image = [], ru_pull_policy = Pull_IfNotPresent,
      ru_cmd = None, ru_entrypoint = None, ru_env = [], ru_labels = [], ru_binds = [], ru_tmpfs = [],
      ru_dns_servers = [], ru_network_mode = None, ru_port_bindings = None, ru_exposed_ports = None,
      ru_cap_add = [], ru_cap_drop = [], ru_privileged = False, ru_user = None,
      ru_restart_policy = None, ru_memory_bytes = None, ru_nano_cpus = None, ru_sysctls = [],
      ru_stop_timeout = None, ru_pid_mode = None \<rparr>"

datatype ip_addr = Ip_V4 ipv4_addr | Ip_V6 ipv6_addr

record observed_container =
  ob_container_id :: string
  ob_container_name :: string
  ob_running :: bool
  ob_image :: string
  ob_cmd :: "string list option"
  ob_entrypoint :: "string list option"
  ob_env :: "(string \<times> string) list"
  ob_labels :: labels
  ob_binds :: "string list"
  ob_tmpfs :: "(string, string) hash_map"
  ob_dns_servers :: "string list"
  ob_network_mode :: "string option"
  ob_port_bindings :: "port_map option"
  ob_cap_add :: "string list"
  ob_cap_drop :: "string list"
  ob_privileged :: bool
  ob_user :: "string option"
  ob_restart_policy :: "docker_restart_policy option"
  ob_memory_bytes :: "int option"
  ob_nano_cpus :: "int option"
  ob_sysctls :: "(string, string) hash_map"
  ob_stop_timeout :: "int option"
  ob_pid_mode :: "string option"
  ob_ip_address :: "ip_addr option"
  ob_networks :: "(string, string) hash_map"

text \<open>The parts of an inspect answer that the code reads.\<close>

record container_config =
  cc_labels :: "labels option"
  cc_env :: "string list option"
  cc_user :: "string option"
  cc_stop_timeout :: "int option"
  cc_image :: "string option"
  cc_cmd :: "string list option"
  cc_entrypoint :: "string list option"

record host_config =
  hc_binds :: "string list option"
  hc_tmpfs :: "(string, string) hash_map option"
  hc_dns :: "string list option"
  hc_network_mode :: "string option"
  hc_port_bindings :: "port_map option"
  hc_cap_add :: "string list option"
  hc_cap_drop :: "string list option"
  hc_privileged :: "bool option"
  hc_restart_policy :: "docker_restart_policy option"
  hc_memory :: "int option"
  hc_nano_cpus :: "int option"
  hc_sysctls :: "(string, string) hash_map option"
  hc_pid_mode :: "string option"

record inspect_response =
  in_id :: "string option"
  in_name :: "string option"
  in_config :: "container_config option"
  in_host_config :: "host_config option"
  in_running :: "bool option"
  in_networks :: "(string, string option) hash_map option"

definition parse_env_pair :: "string \<Rightarrow> string \<times> string" where
  "parse_env_pair s = (case split_once (CHR ''='') s of Some (k, v) \<Rightarrow> (k, v) | None \<Rightarrow> (s, []))"

definition option_filter :: "('a \<Rightarrow> bool) \<Rightarrow> 'a option \<Rightarrow> 'a option" where
  "option_filter p x = (case x of Some a \<Rightarrow> if p a then Some a else None | None \<Rightarrow> None)"

fun trim_start_matches :: "char \<Rightarrow> string \<Rightarrow> string" where
  "trim_start_matches c [] = []"
| "trim_start_matches c (a # s) = (if a = c then trim_start_matches c s else a # s)"

definition observe_network ::
    "(string \<Rightarrow> ip_addr option) \<Rightarrow> string \<times> string option \<Rightarrow>
     ip_addr option \<times> (string, string) hash_map \<Rightarrow> ip_addr option \<times> (string, string) hash_map" where
  "observe_network parse_ip entry acc =
    (case entry of (name, endpoint_ip) \<Rightarrow> case acc of (ip_address, networks) \<Rightarrow>
      case endpoint_ip of
        None \<Rightarrow> acc
      | Some ip \<Rightarrow>
          if ip = [] then acc
          else (case parse_ip ip of
                  None \<Rightarrow> acc
                | Some addr \<Rightarrow>
                    ((case ip_address of None \<Rightarrow> Some addr | Some a \<Rightarrow> Some a), hm_insert name ip networks)))"

definition observe :: "(string \<Rightarrow> ip_addr option) \<Rightarrow> inspect_response \<Rightarrow> observed_container" where
  "observe parse_ip info =
    (let config = in_config info;
         host = in_host_config info;
         nets = fold (observe_network parse_ip) (unwrap_or (in_networks info) []) (None, [])
     in \<lparr> ob_container_id = unwrap_or (in_id info) [],
          ob_container_name = unwrap_or (map_option (trim_start_matches (CHR ''/'')) (in_name info)) [],
          ob_running = unwrap_or (in_running info) False,
          ob_image = unwrap_or (Option.bind config cc_image) [],
          ob_cmd = Option.bind config cc_cmd,
          ob_entrypoint = Option.bind config cc_entrypoint,
          ob_env = unwrap_or (map_option (map parse_env_pair) (Option.bind config cc_env)) [],
          ob_labels = unwrap_or (Option.bind config cc_labels) [],
          ob_binds = unwrap_or (Option.bind host hc_binds) [],
          ob_tmpfs = unwrap_or (Option.bind host hc_tmpfs) [],
          ob_dns_servers = unwrap_or (Option.bind host hc_dns) [],
          ob_network_mode = Option.bind host hc_network_mode,
          ob_port_bindings = Option.bind host hc_port_bindings,
          ob_cap_add = unwrap_or (Option.bind host hc_cap_add) [],
          ob_cap_drop = unwrap_or (Option.bind host hc_cap_drop) [],
          ob_privileged = unwrap_or (Option.bind host hc_privileged) False,
          ob_user = option_filter (\<lambda>u. u \<noteq> []) (Option.bind config cc_user),
          ob_restart_policy = Option.bind host hc_restart_policy,
          ob_memory_bytes = option_filter (\<lambda>m. m > 0) (Option.bind host hc_memory),
          ob_nano_cpus = option_filter (\<lambda>c. c > 0) (Option.bind host hc_nano_cpus),
          ob_sysctls = unwrap_or (Option.bind host hc_sysctls) [],
          ob_stop_timeout = Option.bind config cc_stop_timeout,
          ob_pid_mode = Option.bind host hc_pid_mode,
          ob_ip_address = fst nets,
          ob_networks = snd nets \<rparr>)"

section \<open>Comparing the two\<close>

datatype changed_field = Field_Image | Field_Cmd | Field_Entrypoint | Field_Env | Field_Binds | Field_Tmpfs
  | Field_DnsServers | Field_NetworkMode | Field_PortBindings | Field_CapAdd | Field_CapDrop
  | Field_Privileged | Field_User | Field_RestartPolicy | Field_MemoryBytes | Field_NanoCpus
  | Field_Sysctls | Field_StopTimeout | Field_PidMode

datatype spec_change = In_Sync | Spec_Missing | Drifted "changed_field list"

definition is_in_sync :: "spec_change \<Rightarrow> bool" where
  "is_in_sync c \<longleftrightarrow> c = In_Sync"

text \<open>Equality of hash maps: as many entries, and every entry of the one is in the other.\<close>

definition hm_eq :: "('k, 'v) hash_map \<Rightarrow> ('k, 'v) hash_map \<Rightarrow> bool" where
  "hm_eq m n \<longleftrightarrow> length m = length n \<and> (\<forall>(k, v)\<in>set m. hm_get n k = Some v)"

fun option_eq :: "('a \<Rightarrow> 'a \<Rightarrow> bool) \<Rightarrow> 'a option \<Rightarrow> 'a option \<Rightarrow> bool" where
  "option_eq eq None None = True"
| "option_eq eq (Some a) (Some b) = eq a b"
| "option_eq eq _ _ = False"

definition sorted_eq :: "string list \<Rightarrow> string list \<Rightarrow> bool" where
  "sorted_eq a b = (if length a \<noteq> length b then False else sort_by cmp a = sort_by cmp b)"

definition entrypoint_equal :: "string list option \<Rightarrow> string list option \<Rightarrow> bool" where
  "entrypoint_equal observed desired = (case desired of None \<Rightarrow> True | Some d \<Rightarrow> observed = Some d)"

definition env_equal :: "(string \<times> string) list \<Rightarrow> (string \<times> string) list \<Rightarrow> bool" where
  "env_equal observed desired =
    (let ignore_path = (\<not> (\<exists>(key, _)\<in>set desired. key = ''PATH''));
         observed' = filter (\<lambda>(key, _). \<not> (ignore_path \<and> key = ''PATH'')) observed
     in sort_by cmp observed' = sort_by cmp desired)"

definition starts_with :: "string \<Rightarrow> string \<Rightarrow> bool" where
  "starts_with p s = (take (length p) s = p)"

definition network_mode_equal :: "string option \<Rightarrow> string option \<Rightarrow> bool" where
  "network_mode_equal observed desired =
    (if observed = desired then True
     else case (observed, desired) of
       (Some o', Some d) \<Rightarrow> starts_with ''container:'' o' \<and> starts_with ''container:'' d
     | _ \<Rightarrow> False)"

definition normalize_restart_policy :: "docker_restart_policy option \<Rightarrow> docker_restart_policy option" where
  "normalize_restart_policy policy =
    (case policy of
       None \<Rightarrow> None
     | Some p \<Rightarrow>
         if drp_name p = Some Name_No \<and> unwrap_or (drp_maximum_retry_count p) 0 = 0 then None else Some p)"

definition restart_policy_equal :: "docker_restart_policy option \<Rightarrow> docker_restart_policy option \<Rightarrow> bool" where
  "restart_policy_equal observed desired = (normalize_restart_policy observed = desired)"

definition normalize_optional_string :: "string option \<Rightarrow> string option" where
  "normalize_optional_string v = (if v = Some [] then None else v)"

definition pid_mode_equal :: "string option \<Rightarrow> string option \<Rightarrow> bool" where
  "pid_mode_equal observed desired =
    (normalize_optional_string observed = normalize_optional_string desired)"

definition push_unless :: "bool \<Rightarrow> 'a \<Rightarrow> 'a list \<Rightarrow> 'a list" where
  "push_unless ok x xs = (if ok then xs else xs @ [x])"

definition changed_fields :: "observed_container \<Rightarrow> runtime_container_spec \<Rightarrow> changed_field list" where
  "changed_fields obs spec =
    (let f = push_unless (ob_image obs = ru_image spec) Field_Image [];
         f = push_unless (ob_cmd obs = ru_cmd spec) Field_Cmd f;
         f = push_unless (entrypoint_equal (ob_entrypoint obs) (ru_entrypoint spec)) Field_Entrypoint f;
         f = push_unless (env_equal (ob_env obs) (ru_env spec)) Field_Env f;
         f = push_unless (sorted_eq (ob_binds obs) (ru_binds spec)) Field_Binds f;
         f = push_unless (hm_eq (ob_tmpfs obs) (ru_tmpfs spec)) Field_Tmpfs f;
         f = push_unless (sorted_eq (ob_dns_servers obs) (ru_dns_servers spec)) Field_DnsServers f;
         f = push_unless (network_mode_equal (ob_network_mode obs) (ru_network_mode spec)) Field_NetworkMode f;
         f = push_unless (option_eq hm_eq (ob_port_bindings obs) (ru_port_bindings spec)) Field_PortBindings f;
         f = push_unless (sorted_eq (ob_cap_add obs) (ru_cap_add spec)) Field_CapAdd f;
         f = push_unless (sorted_eq (ob_cap_drop obs) (ru_cap_drop spec)) Field_CapDrop f;
         f = push_unless (ob_privileged obs = ru_privileged spec) Field_Privileged f;
         f = push_unless (ob_user obs = ru_user spec) Field_User f;
         f = push_unless (restart_policy_equal (ob_restart_policy obs) (ru_restart_policy spec)) Field_RestartPolicy f;
         f = push_unless (ob_memory_bytes obs = ru_memory_bytes spec) Field_MemoryBytes f;
         f = push_unless (ob_nano_cpus obs = ru_nano_cpus spec) Field_NanoCpus f;
         f = push_unless (hm_eq (ob_sysctls obs) (ru_sysctls spec)) Field_Sysctls f;
         f = push_unless (ob_stop_timeout obs = ru_stop_timeout spec) Field_StopTimeout f
     in push_unless (pid_mode_equal (ob_pid_mode obs) (ru_pid_mode spec)) Field_PidMode f)"

definition eval_spec_change :: "observed_container option \<Rightarrow> runtime_container_spec \<Rightarrow> spec_change" where
  "eval_spec_change observed desired =
    (case observed of
       None \<Rightarrow> Spec_Missing
     | Some obs \<Rightarrow>
         if \<not> ob_running obs then Spec_Missing
         else let fields = changed_fields obs desired
              in if fields = [] then In_Sync else Drifted fields)"

definition is_legacy_container :: "observed_container \<Rightarrow> bool" where
  "is_legacy_container obs =
    (let has_new_key = hm_contains (ob_labels obs) label_key;
         has_legacy = (hm_contains (ob_labels obs) legacy_label_config_hash \<or>
           hm_contains (ob_labels obs) label_managed \<or> hm_contains (ob_labels obs) label_kind)
     in \<not> has_new_key \<and> (has_legacy \<or> ob_labels obs \<noteq> []))"

definition has_new_labels :: "observed_container \<Rightarrow> bool" where
  "has_new_labels obs \<longleftrightarrow> hm_contains (ob_labels obs) label_key \<and>
    hm_contains (ob_labels obs) label_managed \<and> hm_contains (ob_labels obs) label_kind"

definition parent_id_matches :: "observed_container \<Rightarrow> string option \<Rightarrow> bool" where
  "parent_id_matches obs desired =
    (case desired of
       None \<Rightarrow> True
     | Some expected \<Rightarrow>
         unwrap_or (map_option (\<lambda>stored. stored = expected)
           (opt_or_else (hm_get (ob_labels obs) label_parent_id)
             (hm_get (ob_labels obs) legacy_label_parent_id))) False)"

section \<open>Image references\<close>

record docker_image_ref =
  im_from_image :: string
  im_tag :: "string option"

definition rfind :: "char \<Rightarrow> string \<Rightarrow> nat option" where
  "rfind c s = map_option (\<lambda>i. length s - 1 - i) (position (\<lambda>x. x = c) (rev s))"

definition parse_docker_image_ref :: "string \<Rightarrow> docker_image_ref" where
  "parse_docker_image_ref img =
    (if CHR ''@'' \<in> set img then \<lparr> im_from_image = img, im_tag = None \<rparr>
     else
       let last_slash = rfind (CHR ''/'') img; last_colon = rfind (CHR '':'') img in
       case last_colon of
         Some colon \<Rightarrow>
           if (case last_slash of None \<Rightarrow> True | Some slash \<Rightarrow> slash < colon)
           then \<lparr> im_from_image = take colon img, im_tag = Some (drop (colon + 1) img) \<rparr>
           else \<lparr> im_from_image = img, im_tag = Some ''latest'' \<rparr>
       | None \<Rightarrow> \<lparr> im_from_image = img, im_tag = Some ''latest'' \<rparr>)"

section \<open>Specification of the comparison\<close>

text \<open>A container agrees with a specification: lists count as multisets, maps as functions.\<close>

definition conforms :: "observed_container \<Rightarrow> runtime_container_spec \<Rightarrow> bool" where
  "conforms obs spec \<longleftrightarrow>
    ob_image obs = ru_image spec \<and> ob_cmd obs = ru_cmd spec \<and>
    (ru_entrypoint spec = None \<or> ob_entrypoint obs = ru_entrypoint spec) \<and>
    mset (if ''PATH'' \<in> fst ` set (ru_env spec) then ob_env obs else filter (\<lambda>e. fst e \<noteq> ''PATH'') (ob_env obs)) =
      mset (ru_env spec) \<and>
    mset (ob_binds obs) = mset (ru_binds spec) \<and> hm_get (ob_tmpfs obs) = hm_get (ru_tmpfs spec) \<and>
    mset (ob_dns_servers obs) = mset (ru_dns_servers spec) \<and>
    network_mode_equal (ob_network_mode obs) (ru_network_mode spec) \<and>
    map_option hm_get (ob_port_bindings obs) = map_option hm_get (ru_port_bindings spec) \<and>
    mset (ob_cap_add obs) = mset (ru_cap_add spec) \<and> mset (ob_cap_drop obs) = mset (ru_cap_drop spec) \<and>
    ob_privileged obs = ru_privileged spec \<and> ob_user obs = ru_user spec \<and>
    normalize_restart_policy (ob_restart_policy obs) = ru_restart_policy spec \<and>
    ob_memory_bytes obs = ru_memory_bytes spec \<and> ob_nano_cpus obs = ru_nano_cpus spec \<and>
    hm_get (ob_sysctls obs) = hm_get (ru_sysctls spec) \<and> ob_stop_timeout obs = ru_stop_timeout spec \<and>
    normalize_optional_string (ob_pid_mode obs) = normalize_optional_string (ru_pid_mode spec)"

definition maps_wf :: "observed_container \<Rightarrow> runtime_container_spec \<Rightarrow> bool" where
  "maps_wf obs spec \<longleftrightarrow>
    hm_wf (ob_tmpfs obs) \<and> hm_wf (ru_tmpfs spec) \<and> hm_wf (ob_sysctls obs) \<and> hm_wf (ru_sysctls spec) \<and>
    (\<forall>m. ob_port_bindings obs = Some m \<longrightarrow> hm_wf m) \<and> (\<forall>m. ru_port_bindings spec = Some m \<longrightarrow> hm_wf m)"

definition workload_labels_of :: "workload_meta \<Rightarrow> workload_labels" where
  "workload_labels_of meta =
    \<lparr> wl_instance_id = wm_instance_id meta, wl_service = wm_service meta, wl_slot_id = wm_slot_id meta,
      wl_machine_id = wm_machine_id meta, wl_revision_hash = wm_revision meta, wl_deploy_id = wm_deploy_id meta \<rparr>"

section \<open>The comparison decides conformance\<close>

lemma sort_by_cmp_eq: "sort_by cmp a = sort_by cmp b \<longleftrightarrow> mset a = mset (b :: 'a::linorder list)"
proof
  assume "sort_by cmp a = sort_by cmp b"
  then show "mset a = mset b" by (metis linorder_cmp.mset_sort_by)
next
  assume "mset a = mset b"
  then show "sort_by cmp a = sort_by cmp b"
    by (rule linorder_cmp.sort_by_permutation) (auto simp: cmp_def split: if_splits)
qed

lemma sorted_eq_iff: "sorted_eq a b \<longleftrightarrow> mset a = mset b"
  by (auto simp: sorted_eq_def sort_by_cmp_eq dest: mset_eq_length)

lemma env_equal_iff:
  "env_equal observed desired \<longleftrightarrow>
    mset (if ''PATH'' \<in> fst ` set desired then observed else filter (\<lambda>e. fst e \<noteq> ''PATH'') observed) = mset desired"
proof (cases "''PATH'' \<in> fst ` set desired")
  case True
  then have "\<exists>(key, _)\<in>set desired. key = ''PATH''" by force
  then show ?thesis using True by (simp add: env_equal_def Let_def sort_by_cmp_eq case_prod_unfold)
next
  case False
  then have "\<not> (\<exists>(key, _)\<in>set desired. key = ''PATH'')" by force
  then show ?thesis using False by (simp add: env_equal_def Let_def sort_by_cmp_eq case_prod_unfold)
qed

lemma hm_eq_iff:
  assumes "hm_wf m" and "hm_wf n"
  shows "hm_eq m n \<longleftrightarrow> hm_get m = hm_get n"
proof
  assume eq: "hm_get m = hm_get n"
  then have "set m = set n" using assms map_of_inject_set unfolding hm_wf_def by blast
  moreover have "distinct m" "distinct n" using assms by (simp_all add: hm_wf_def distinct_map)
  ultimately have "length m = length n" by (metis distinct_card)
  moreover have "hm_get n k = Some v" if "(k, v) \<in> set m" for k v
    using that assms(1) by (simp add: eq[symmetric] hm_wf_def)
  ultimately show "hm_eq m n" by (auto simp: hm_eq_def)
next
  assume eq: "hm_eq m n"
  then have sub: "set m \<subseteq> set n" by (auto simp: hm_eq_def dest: map_of_SomeD)
  have "distinct m" "distinct n" using assms by (simp_all add: hm_wf_def distinct_map)
  then have "card (set m) = card (set n)" using eq by (simp add: hm_eq_def distinct_card)
  then have "set m = set n" using sub by (simp add: card_subset_eq)
  then show "hm_get m = hm_get n" using assms map_of_inject_set unfolding hm_wf_def by blast
qed

lemma option_hm_eq_iff:
  assumes "\<And>m. x = Some m \<Longrightarrow> hm_wf m" and "\<And>m. y = Some m \<Longrightarrow> hm_wf m"
  shows "option_eq hm_eq x y \<longleftrightarrow> map_option hm_get x = map_option hm_get y"
  using assms by (cases x; cases y) (auto simp: hm_eq_iff)

lemma push_unless_Nil [simp]: "push_unless ok x xs = [] \<longleftrightarrow> ok \<and> xs = []"
  by (simp add: push_unless_def)

lemma changed_fields_Nil:
  assumes "maps_wf obs spec"
  shows "changed_fields obs spec = [] \<longleftrightarrow> conforms obs spec"
proof -
  have entry: "entrypoint_equal o' d \<longleftrightarrow> d = None \<or> o' = d" for o' d
    by (cases d) (auto simp: entrypoint_equal_def)
  have maps: "hm_eq (ob_tmpfs obs) (ru_tmpfs spec) \<longleftrightarrow> hm_get (ob_tmpfs obs) = hm_get (ru_tmpfs spec)"
    "hm_eq (ob_sysctls obs) (ru_sysctls spec) \<longleftrightarrow> hm_get (ob_sysctls obs) = hm_get (ru_sysctls spec)"
    "option_eq hm_eq (ob_port_bindings obs) (ru_port_bindings spec) \<longleftrightarrow>
      map_option hm_get (ob_port_bindings obs) = map_option hm_get (ru_port_bindings spec)"
    using assms by (simp_all add: maps_wf_def hm_eq_iff option_hm_eq_iff)
  show ?thesis
    unfolding changed_fields_def Let_def push_unless_Nil conforms_def
      entry maps sorted_eq_iff env_equal_iff restart_policy_equal_def pid_mode_equal_def
    by (simp only: simp_thms conj_ac)
qed


definition example_observed :: observed_container where
  "example_observed =
    \<lparr> ob_container_id = ''abc'', ob_container_name = ''test'', ob_running = True, ob_image = ''img'',
      ob_cmd = None, ob_entrypoint = Some [''init''], ob_env = [(''PATH'', ''/bin''), (''B'', ''2''), (''A'', ''1'')],
      ob_labels = [], ob_binds = [''/h:/c'', ''/a:/b''], ob_tmpfs = [], ob_dns_servers = [],
      ob_network_mode = Some ''container:x'', ob_port_bindings = None, ob_cap_add = [], ob_cap_drop = [],
      ob_privileged = False, ob_user = None,
      ob_restart_policy = Some \<lparr> drp_name = Some Name_No, drp_maximum_retry_count = Some 0 \<rparr>,
      ob_memory_bytes = None, ob_nano_cpus = None, ob_sysctls = [], ob_stop_timeout = None,
      ob_pid_mode = Some [], ob_ip_address = None, ob_networks = [] \<rparr>"

definition example_runtime_spec :: runtime_container_spec where
  "example_runtime_spec =
    runtime_container_spec_default\<lparr> ru_image := ''img'', ru_env := [(''A'', ''1''), (''B'', ''2'')],
      ru_binds := [''/a:/b'', ''/h:/c''], ru_network_mode := Some ''container:y'' \<rparr>"


section \<open>Labels\<close>

text \<open>
  The labels of a workload give back its identity, except that a label of the service specification
  with the name of an identity label takes its place.
\<close>

lemma workload_labels_roundtrip:
  "extract_workload_labels (build_workload_labels key meta extra) =
    Some \<lparr> wl_instance_id = unwrap_or (map_of (rev extra) label_instance) (wm_instance_id meta),
           wl_service = unwrap_or (map_of (rev extra) label_service) (wm_service meta),
           wl_slot_id = unwrap_or (map_of (rev extra) label_slot) (wm_slot_id meta),
           wl_machine_id = unwrap_or (map_of (rev extra) label_machine) (wm_machine_id meta),
           wl_revision_hash = unwrap_or (map_of (rev extra) label_revision) (wm_revision meta),
           wl_deploy_id = unwrap_or (map_of (rev extra) label_deploy) (wm_deploy_id meta) \<rparr>"
proof -
  have get: "hm_get (build_workload_labels key meta extra) l =
      (case map_of (rev extra) l of Some v \<Rightarrow> Some v
       | None \<Rightarrow> map_of [(label_machine, wm_machine_id meta), (label_slot, wm_slot_id meta),
          (label_instance, wm_instance_id meta), (label_deploy, wm_deploy_id meta),
          (label_revision, wm_revision meta), (label_service, wm_service meta),
          (label_namespace, wm_namespace meta), (label_key, key), (label_kind, ''workload''),
          (label_managed, ''true'')] l)" for l
    unfolding build_workload_labels_def hm.get_collect by (simp add: map_add_def split: option.split)
  have field: "hm_get (build_workload_labels key meta extra) l = Some (unwrap_or (map_of (rev extra) l) v)"
    if "map_of [(label_machine, wm_machine_id meta), (label_slot, wm_slot_id meta),
          (label_instance, wm_instance_id meta), (label_deploy, wm_deploy_id meta),
          (label_revision, wm_revision meta), (label_service, wm_service meta),
          (label_namespace, wm_namespace meta), (label_key, key), (label_kind, ''workload''),
          (label_managed, ''true'')] l = Some v" for l v
    using that by (cases "map_of (rev extra) l") (simp_all add: get)
  have fields: "hm_get (build_workload_labels key meta extra) label_instance = Some (unwrap_or (map_of (rev extra) label_instance) (wm_instance_id meta))"
    "hm_get (build_workload_labels key meta extra) label_service = Some (unwrap_or (map_of (rev extra) label_service) (wm_service meta))"
    "hm_get (build_workload_labels key meta extra) label_slot = Some (unwrap_or (map_of (rev extra) label_slot) (wm_slot_id meta))"
    "hm_get (build_workload_labels key meta extra) label_machine = Some (unwrap_or (map_of (rev extra) label_machine) (wm_machine_id meta))"
    "hm_get (build_workload_labels key meta extra) label_revision = Some (unwrap_or (map_of (rev extra) label_revision) (wm_revision meta))"
    "hm_get (build_workload_labels key meta extra) label_deploy = Some (unwrap_or (map_of (rev extra) label_deploy) (wm_deploy_id meta))"
    by (rule field, simp add: label_defs)+
  show ?thesis by (simp add: extract_workload_labels_def fields)
qed

section \<open>Image references\<close>

lemma rfind_None: "rfind c s = None \<longleftrightarrow> c \<notin> set s"
  by (auto simp: rfind_def position_None)

lemma rfind_Some:
  assumes "rfind c s = Some i"
  shows "i < length s" "s = take i s @ c # drop (i + 1) s" "c \<notin> set (drop (i + 1) s)"
proof -
  obtain k where k: "position (\<lambda>x. x = c) (rev s) = Some k" and i: "i = length s - 1 - k"
    using assms by (auto simp: rfind_def)
  have len: "k < length s" and at: "rev s ! k = c" and before: "\<And>j. j < k \<Longrightarrow> rev s ! j \<noteq> c"
    using position_Some[OF k] by auto
  show i_len: "i < length s" using len i by simp
  have "s ! i = c" using at len i by (simp add: rev_nth)
  then show "s = take i s @ c # drop (i + 1) s" using id_take_nth_drop[OF i_len] by simp
  show "c \<notin> set (drop (i + 1) s)"
  proof
    assume "c \<in> set (drop (i + 1) s)"
    then obtain m where m: "m < length s - (i + 1)" "s ! (i + 1 + m) = c"
      by (auto simp: in_set_conv_nth)
    have "length s - 1 - (i + 1 + m) < k" using m len i by linarith
    moreover have "rev s ! (length s - 1 - (i + 1 + m)) = s ! (i + 1 + m)"
      using m by (subst rev_nth) auto
    ultimately show False using before m(2) by metis
  qed
qed

lemma rfind_order:
  assumes "rfind c s = Some i" and "rfind d s = Some j" and "c \<noteq> d"
  shows "j < i \<longleftrightarrow> d \<notin> set (drop (i + 1) s)"
proof
  assume "j < i"
  then have "set (drop (i + 1) s) \<subseteq> set (drop (j + 1) s)" by (intro set_drop_subset_set_drop) simp
  then show "d \<notin> set (drop (i + 1) s)" using rfind_Some(3)[OF assms(2)] by blast
next
  assume no: "d \<notin> set (drop (i + 1) s)"
  have at: "s ! i = c" "s ! j = d"
    using rfind_Some(1,2)[OF assms(1)] rfind_Some(1,2)[OF assms(2)]
    by (metis length_take min.absorb4 nth_append_length)+
  show "j < i"
  proof (rule ccontr)
    assume "\<not> j < i"
    then have "i < j" using at assms(3) by (metis linorder_neqE_nat)
    then have "d \<in> set (drop (i + 1) s)"
      using rfind_Some(1)[OF assms(2)] at(2) by (auto simp: in_set_conv_nth intro!: exI[of _ "j - (i + 1)"])
    then show False using no by contradiction
  qed
qed

text \<open>
  Parsing an image reference loses nothing. A reference with a digest is kept whole; otherwise the
  image and the tag are the two sides of the last colon when no slash follows it, and the tag is
  \<open>latest\<close> when the reference has no tag (a colon before the last slash is that of a port).
\<close>

theorem image_ref_correct:
  "case im_tag (parse_docker_image_ref img) of
     None \<Rightarrow> CHR ''@'' \<in> set img \<and> im_from_image (parse_docker_image_ref img) = img
   | Some tag \<Rightarrow> CHR ''@'' \<notin> set img \<and>
       (if \<exists>name t. img = name @ CHR '':'' # t \<and> CHR ''/'' \<notin> set t
        then img = im_from_image (parse_docker_image_ref img) @ CHR '':'' # tag \<and>
          CHR ''/'' \<notin> set tag \<and> CHR '':'' \<notin> set tag
        else im_from_image (parse_docker_image_ref img) = img \<and> tag = ''latest'')"
proof (cases "CHR ''@'' \<in> set img")
  case True
  then show ?thesis by (simp add: parse_docker_image_ref_def)
next
  case no_digest: False
  show ?thesis
  proof (cases "rfind (CHR '':'') img")
    case None
    then have "CHR '':'' \<notin> set img" by (simp add: rfind_None)
    then show ?thesis using no_digest None by (auto simp: parse_docker_image_ref_def)
  next
    case (Some i)
    note colon = rfind_Some[OF Some]
    have tag: "(\<exists>name t. img = name @ CHR '':'' # t \<and> CHR ''/'' \<notin> set t) \<longleftrightarrow> CHR ''/'' \<notin> set (drop (i + 1) img)"
    proof
      assume "\<exists>name t. img = name @ CHR '':'' # t \<and> CHR ''/'' \<notin> set t"
      then obtain name t where img: "img = name @ CHR '':'' # t" and t: "CHR ''/'' \<notin> set t" by blast
      have "length name \<le> i"
      proof (rule ccontr)
        assume "\<not> length name \<le> i"
        then have "CHR '':'' \<in> set (drop (i + 1) img)" unfolding img by auto
        then show False using colon(3) by contradiction
      qed
      then have "drop (i + 1) img = drop (i - length name) t" unfolding img by (simp add: Suc_diff_le)
      then have "set (drop (i + 1) img) \<subseteq> set t" by (simp add: set_drop_subset)
      then show "CHR ''/'' \<notin> set (drop (i + 1) img)" using t by blast
    next
      assume "CHR ''/'' \<notin> set (drop (i + 1) img)"
      then show "\<exists>name t. img = name @ CHR '':'' # t \<and> CHR ''/'' \<notin> set t" using colon(2) by blast
    qed
    have cond: "(case rfind (CHR ''/'') img of None \<Rightarrow> True | Some slash \<Rightarrow> slash < i) \<longleftrightarrow> CHR ''/'' \<notin> set (drop (i + 1) img)"
      using rfind_order[OF Some] rfind_None[of "CHR ''/''" img]
      by (cases "rfind (CHR ''/'') img") (auto dest: in_set_dropD)
    show ?thesis
    proof (cases "CHR ''/'' \<in> set (drop (i + 1) img)")
      case True
      then show ?thesis using no_digest Some cond tag by (simp add: parse_docker_image_ref_def Let_def)
    next
      case False
      then show ?thesis using no_digest Some cond tag colon by (simp add: parse_docker_image_ref_def Let_def)
    qed
  qed
qed

end
