(* ===== verification/Container_Engine.thy ===== *)
theory Container_Engine
  imports Container_Spec
begin

text \<open>
  The container engine, \<open>engine.rs\<close> and \<open>probe.rs\<close> of \<open>crates/ployz-runtime-backends/src/runtime\<close>:
  bringing a container to its specification, removing, listing, pulling, and waiting for readiness.

  The Docker daemon is the record \<open>docker\<close> of calls on a state \<open>'d\<close>; \<open>docker_laws\<close> states the
  documented behaviour that the properties rely on. Log messages are left out.
\<close>

section \<open>The Docker client\<close>

datatype docker_error = Docker_Status nat string | Docker_Other string

datatype ployz_error = Operation string string

primrec docker_error_str :: "docker_error \<Rightarrow> string" where
  "docker_error_str (Docker_Status _ m) = m"
| "docker_error_str (Docker_Other m) = m"

record create_body =
  cb_config :: container_config
  cb_host :: host_config
  cb_exposed_ports :: "string list option"

record 'd docker =
  dk_inspect :: "string \<Rightarrow> ('d, docker_error, inspect_response) action"
  dk_create :: "string \<Rightarrow> create_body \<Rightarrow> ('d, docker_error, unit) action"
  dk_start :: "string \<Rightarrow> ('d, docker_error, unit) action"
  dk_stop :: "string \<Rightarrow> nat \<Rightarrow> ('d, docker_error, unit) action"
  dk_remove :: "string \<Rightarrow> bool \<Rightarrow> ('d, docker_error, unit) action"
  dk_list :: "string list \<Rightarrow> ('d, docker_error, string option list) action"
  dk_inspect_image :: "string \<Rightarrow> ('d, docker_error, unit) action"
  dk_pull :: "docker_image_ref \<Rightarrow> 'd \<Rightarrow> 'd"
  dk_parse_ip :: "string \<Rightarrow> ip_addr option"

type_synonym ('d, 'a) engine_op = "('d, ployz_error, 'a) action"

section \<open>The engine\<close>

datatype ensure_action = Adopted | Created | Recreated "changed_field list"

record ensure_result =
  er_container_id :: string
  er_container_name :: string
  er_action :: ensure_action
  er_ip_address :: "ip_addr option"
  er_networks :: "(string, string) hash_map"

definition none_if_empty :: "'a list \<Rightarrow> 'a list option" where
  "none_if_empty v = (if v = [] then None else Some v)"

definition engine_stop :: "'d docker \<Rightarrow> string \<Rightarrow> nat \<Rightarrow> ('d, unit) engine_op" where
  "engine_stop dk name grace_secs d =
    (case dk_stop dk name grace_secs d of
       (Inr _, d') \<Rightarrow> (Inr (), d')
     | (Inl e, d') \<Rightarrow>
         (case e of
            Docker_Status code _ \<Rightarrow>
              if code = 304 \<or> code = 404 then (Inr (), d')
              else (Inl (Operation ''docker stop'' (docker_error_str e)), d')
          | Docker_Other _ \<Rightarrow> (Inl (Operation ''docker stop'' (docker_error_str e)), d')))"

definition engine_remove :: "'d docker \<Rightarrow> string \<Rightarrow> nat \<Rightarrow> ('d, unit) engine_op" where
  "engine_remove dk name grace_secs =
    bind_act (engine_stop dk name grace_secs) (\<lambda>_ d.
      case dk_remove dk name False d of
        (Inr _, d') \<Rightarrow> (Inr (), d')
      | (Inl e, d') \<Rightarrow>
          (case e of
             Docker_Status code _ \<Rightarrow>
               if code = 404 then (Inr (), d') else (Inl (Operation ''docker remove'' (docker_error_str e)), d')
           | Docker_Other _ \<Rightarrow> (Inl (Operation ''docker remove'' (docker_error_str e)), d')))"

definition engine_start :: "'d docker \<Rightarrow> string \<Rightarrow> ('d, unit) engine_op" where
  "engine_start dk name d =
    (case dk_start dk name d of
       (Inr _, d') \<Rightarrow> (Inr (), d')
     | (Inl e, d') \<Rightarrow>
         (case e of
            Docker_Status code _ \<Rightarrow>
              if code = 304 then (Inr (), d') else (Inl (Operation ''docker start'' (docker_error_str e)), d')
          | Docker_Other _ \<Rightarrow> (Inl (Operation ''docker start'' (docker_error_str e)), d')))"

definition engine_inspect :: "'d docker \<Rightarrow> string \<Rightarrow> ('d, observed_container option) engine_op" where
  "engine_inspect dk name d =
    (case dk_inspect dk name d of
       (Inr info, d') \<Rightarrow> (Inr (Some (observe (dk_parse_ip dk) info)), d')
     | (Inl e, d') \<Rightarrow>
         (case e of
            Docker_Status code _ \<Rightarrow>
              if code = 404 then (Inr None, d') else (Inl (Operation ''docker inspect'' (docker_error_str e)), d')
          | Docker_Other _ \<Rightarrow> (Inl (Operation ''docker inspect'' (docker_error_str e)), d')))"

definition engine_is_running :: "'d docker \<Rightarrow> string \<Rightarrow> ('d, bool) engine_op" where
  "engine_is_running dk name =
    bind_act (engine_inspect dk name) (\<lambda>obs.
      ret_act (case obs of None \<Rightarrow> False | Some o' \<Rightarrow> ob_running o'))"

definition inspect_summary ::
    "'d docker \<Rightarrow> string option \<Rightarrow> observed_container list \<Rightarrow> ('d, observed_container list) engine_op" where
  "inspect_summary dk summary_id result d =
    (case summary_id of
       None \<Rightarrow> (Inr result, d)
     | Some i \<Rightarrow>
         (case dk_inspect dk i d of
            (Inr info, d') \<Rightarrow> (Inr (result @ [observe (dk_parse_ip dk) info]), d')
          | (Inl _, d') \<Rightarrow> (Inr result, d')))"

definition engine_list_by_labels ::
    "'d docker \<Rightarrow> (string \<times> string) list \<Rightarrow> ('d, observed_container list) engine_op" where
  "engine_list_by_labels dk filters =
    bind_act (map_err_act (\<lambda>e. Operation ''list_containers'' (docker_error_str e))
      (dk_list dk (map (\<lambda>(k, v). k @ ''='' @ v) filters))) (\<lambda>ids.
      fold_act (inspect_summary dk) ids [])"

definition engine_pull_image :: "'d docker \<Rightarrow> string \<Rightarrow> pull_policy \<Rightarrow> ('d, unit) engine_op" where
  "engine_pull_image dk img policy d =
    (case policy of
       Pull_Never \<Rightarrow> (Inr (), d)
     | Pull_IfNotPresent \<Rightarrow>
         (case dk_inspect_image dk img d of
            (Inr _, d') \<Rightarrow> (Inr (), d')
          | (Inl _, d') \<Rightarrow> (Inr (), dk_pull dk (parse_docker_image_ref img) d'))
     | Pull_Always \<Rightarrow> (Inr (), dk_pull dk (parse_docker_image_ref img) d))"

definition resolve_parent_id :: "'d docker \<Rightarrow> runtime_container_spec \<Rightarrow> ('d, string option) engine_op" where
  "resolve_parent_id dk spec d =
    (case ru_network_mode spec of
       None \<Rightarrow> (Inr None, d)
     | Some mode \<Rightarrow>
         (case strip_prefix ''container:'' mode of
            None \<Rightarrow> (Inr None, d)
          | Some parent_name \<Rightarrow>
              (case dk_inspect dk parent_name d of
                 (Inr info, d') \<Rightarrow> (Inr (in_id info), d')
               | (Inl e, d') \<Rightarrow>
                   (case e of
                      Docker_Status code _ \<Rightarrow>
                        if code = 404 then (Inr None, d')
                        else (Inl (Operation ''resolve_parent_id''
                               (''inspect parent '' @ parent_name @ '': '' @ docker_error_str e)), d')
                    | Docker_Other _ \<Rightarrow>
                        (Inl (Operation ''resolve_parent_id''
                           (''inspect parent '' @ parent_name @ '': '' @ docker_error_str e)), d')))))"

definition force_remove :: "'d docker \<Rightarrow> string \<Rightarrow> 'd \<Rightarrow> 'd" where
  "force_remove dk name d = snd (dk_remove dk name True d)"

definition container_body :: "runtime_container_spec \<Rightarrow> string option \<Rightarrow> create_body" where
  "container_body spec parent_id =
    (let labels = (case parent_id of
             None \<Rightarrow> ru_labels spec | Some pid \<Rightarrow> hm_insert label_parent_id pid (ru_labels spec));
         env = map (\<lambda>(k, v). k @ ''='' @ v) (ru_env spec)
     in \<lparr> cb_config =
            \<lparr> cc_labels = Some labels, cc_env = none_if_empty env, cc_user = ru_user spec,
              cc_stop_timeout = ru_stop_timeout spec, cc_image = Some (ru_image spec),
              cc_cmd = ru_cmd spec, cc_entrypoint = ru_entrypoint spec \<rparr>,
          cb_host =
            \<lparr> hc_binds = none_if_empty (ru_binds spec), hc_tmpfs = none_if_empty (ru_tmpfs spec),
              hc_dns = none_if_empty (ru_dns_servers spec), hc_network_mode = ru_network_mode spec,
              hc_port_bindings = ru_port_bindings spec, hc_cap_add = none_if_empty (ru_cap_add spec),
              hc_cap_drop = none_if_empty (ru_cap_drop spec), hc_privileged = Some (ru_privileged spec),
              hc_restart_policy = ru_restart_policy spec, hc_memory = ru_memory_bytes spec,
              hc_nano_cpus = ru_nano_cpus spec, hc_sysctls = none_if_empty (ru_sysctls spec),
              hc_pid_mode = ru_pid_mode spec \<rparr>,
          cb_exposed_ports = ru_exposed_ports spec \<rparr>)"

definition docker_op :: "string \<Rightarrow> ('d, docker_error, 'a) action \<Rightarrow> ('d, 'a) engine_op" where
  "docker_op op m = map_err_act (\<lambda>e. Operation op (docker_error_str e)) m"

definition create_and_start ::
    "'d docker \<Rightarrow> runtime_container_spec \<Rightarrow> string option \<Rightarrow> ('d, observed_container) engine_op" where
  "create_and_start dk spec parent_id d =
    bind_act (docker_op ''docker create'' (dk_create dk (ru_container_name spec) (container_body spec parent_id))) (\<lambda>_.
    bind_act (docker_op ''docker start'' (dk_start dk (ru_container_name spec))) (\<lambda>_.
    bind_act (docker_op ''docker inspect'' (dk_inspect dk (ru_container_name spec))) (\<lambda>info.
    ret_act (observe (dk_parse_ip dk) info)))) (force_remove dk (ru_container_name spec) d)"

definition ensured :: "runtime_container_spec \<Rightarrow> ensure_action \<Rightarrow> observed_container \<Rightarrow> ensure_result" where
  "ensured spec act obs =
    \<lparr> er_container_id = ob_container_id obs, er_container_name = ru_container_name spec,
      er_action = act, er_ip_address = ob_ip_address obs, er_networks = ob_networks obs \<rparr>"

definition engine_ensure :: "'d docker \<Rightarrow> runtime_container_spec \<Rightarrow> ('d, ensure_result) engine_op" where
  "engine_ensure dk spec =
    bind_act (engine_inspect dk (ru_container_name spec)) (\<lambda>observed.
    bind_act (resolve_parent_id dk spec) (\<lambda>parent_id.
    let change = (case observed of
          Some obs \<Rightarrow>
            if \<not> parent_id_matches obs parent_id then Drifted [Field_NetworkMode]
            else eval_spec_change (Some obs) spec
        | None \<Rightarrow> Spec_Missing)
    in case change of
         In_Sync \<Rightarrow>
           (case observed of
              None \<Rightarrow> fail_act (Operation ''ensure'' ''InSync but no observed container'')
            | Some obs \<Rightarrow> ret_act (ensured spec Adopted obs))
       | Spec_Missing \<Rightarrow>
           bind_act (engine_pull_image dk (ru_image spec) (ru_pull_policy spec)) (\<lambda>_.
           bind_act (create_and_start dk spec parent_id) (\<lambda>obs.
           ret_act (ensured spec Created obs)))
       | Drifted changed \<Rightarrow>
           bind_act (engine_pull_image dk (ru_image spec) (ru_pull_policy spec)) (\<lambda>_ d.
           bind_act (create_and_start dk spec parent_id) (\<lambda>obs.
             ret_act (ensured spec (Recreated changed) obs)) (force_remove dk (ru_container_name spec) d))))"

section \<open>Readiness probes\<close>

datatype probe = Probe_Tcp ip_addr u16 | Probe_Http ip_addr u16 string | Probe_Exec string "string list"

text \<open>The calls of the probe runner. Time is in milliseconds, as in \<open>Service_Spec\<close>.\<close>

record 'd probe_ops =
  pr_tcp_connect :: "ip_addr \<Rightarrow> u16 \<Rightarrow> 'd \<Rightarrow> bool \<times> 'd"
  pr_http_get :: "string \<Rightarrow> ('d, unit, nat) action"
  pr_create_exec :: "string \<Rightarrow> string list \<Rightarrow> ('d, docker_error, string) action"
  pr_start_exec :: "string \<Rightarrow> ('d, docker_error, unit) action"
  pr_inspect_exec :: "string \<Rightarrow> ('d, docker_error, int option) action"
  pr_ip_str :: "ip_addr \<Rightarrow> string"
  pr_timeout :: "nat \<Rightarrow> ('d, ployz_error, bool) action \<Rightarrow> 'd \<Rightarrow> (ployz_error, bool) result option \<times> 'd"
  pr_now :: "'d \<Rightarrow> nat"
  pr_sleep :: "nat \<Rightarrow> 'd \<Rightarrow> 'd"

definition probe_exec :: "'d probe_ops \<Rightarrow> string \<Rightarrow> string list \<Rightarrow> ('d, bool) engine_op" where
  "probe_exec pr container_id command =
    bind_act (map_err_act (\<lambda>e. Operation ''probe_exec'' (''create exec: '' @ docker_error_str e))
      (pr_create_exec pr container_id command)) (\<lambda>exec.
    bind_act (map_err_act (\<lambda>e. Operation ''probe_exec'' (''start exec: '' @ docker_error_str e))
      (pr_start_exec pr exec)) (\<lambda>_.
    bind_act (map_err_act (\<lambda>e. Operation ''probe_exec'' (''inspect exec: '' @ docker_error_str e))
      (pr_inspect_exec pr exec)) (\<lambda>exit_code.
    ret_act (exit_code = Some 0))))"

definition probe_check :: "'d probe_ops \<Rightarrow> probe \<Rightarrow> ('d, bool) engine_op" where
  "probe_check pr p d =
    (case p of
       Probe_Tcp host port \<Rightarrow> (case pr_tcp_connect pr host port d of (ok, d') \<Rightarrow> (Inr ok, d'))
     | Probe_Http host port path \<Rightarrow>
         (case pr_http_get pr (''http://'' @ pr_ip_str pr host @ '':'' @ fmt_dec (unat port) @ path) d of
            (Inr status, d') \<Rightarrow> (Inr (status = 200), d')
          | (Inl _, d') \<Rightarrow> (Inr False, d'))
     | Probe_Exec container_id command \<Rightarrow> probe_exec pr container_id command d)"

definition check_with_timeout :: "'d probe_ops \<Rightarrow> probe \<Rightarrow> nat \<Rightarrow> ('d, bool) engine_op" where
  "check_with_timeout pr p probe_timeout d =
    (case pr_timeout pr probe_timeout (probe_check pr p) d of
       (Some r, d') \<Rightarrow> (r, d')
     | (None, d') \<Rightarrow> (Inr False, d'))"

text \<open>The first loop runs until the start period is over; it is partial, since it waits for the clock.\<close>

partial_function (option) wait_start_period ::
    "('d, bool) engine_op \<Rightarrow> ('d \<Rightarrow> nat) \<Rightarrow> (nat \<Rightarrow> 'd \<Rightarrow> 'd) \<Rightarrow> nat \<Rightarrow> nat \<Rightarrow> 'd \<Rightarrow>
     ((ployz_error, bool) result \<times> 'd) option" where
  "wait_start_period check now sleep deadline interval d =
    (case check d of
       (Inl e, d') \<Rightarrow> Some (Inl e, d')
     | (Inr ok, d') \<Rightarrow>
         if ok then Some (Inr True, d')
         else if deadline \<le> now d' then Some (Inr False, d')
         else wait_start_period check now sleep deadline interval (sleep interval d'))"

declare wait_start_period.simps [code]

function wait_retries ::
    "('d, bool) engine_op \<Rightarrow> (nat \<Rightarrow> 'd \<Rightarrow> 'd) \<Rightarrow> nat \<Rightarrow> nat \<Rightarrow> nat \<Rightarrow> ('d, unit) engine_op" where
  "wait_retries check sleep interval max_retries failures d =
    (case check d of
       (Inl e, d') \<Rightarrow> (Inl e, d')
     | (Inr ok, d') \<Rightarrow>
         if ok then (Inr (), d')
         else if max_retries \<le> failures + 1
         then (Inl (Operation ''wait_ready'' ''probe did not become ready before retries were exhausted''), d')
         else wait_retries check sleep interval max_retries (failures + 1) (sleep interval d'))"
  by pat_completeness auto
termination
  by (relation "measure (\<lambda>(_, _, _, max_retries, failures, _). max_retries - failures)") auto

declare wait_retries.simps [simp del]

definition probe_wait_ready ::
    "'d probe_ops \<Rightarrow> probe \<Rightarrow> nat \<Rightarrow> nat \<Rightarrow> nat \<Rightarrow> 32 word \<Rightarrow> 'd \<Rightarrow> ((ployz_error, unit) result \<times> 'd) option" where
  "probe_wait_ready pr p start_period interval attempt_timeout max_retries d =
    (let check = check_with_timeout pr p attempt_timeout in
     case wait_start_period check (pr_now pr) (pr_sleep pr) (pr_now pr d + start_period) interval d of
       None \<Rightarrow> None
     | Some (Inl e, d') \<Rightarrow> Some (Inl e, d')
     | Some (Inr ok, d') \<Rightarrow>
         if ok then Some (Inr (), d')
         else Some (wait_retries check (pr_sleep pr) interval (unat max_retries) 0 d'))"

section \<open>Specification\<close>

text \<open>
  The documented behaviour of the Docker daemon. \<open>cs d\<close> is the table of containers by name. A created
  container keeps the given configuration, where the command and the environment of the image stand in
  for those that are not given; starting it makes it run; inspecting changes nothing.
\<close>

definition env_key :: "string \<Rightarrow> string" where
  "env_key e = fst (parse_env_pair e)"

definition merge_env :: "string list \<Rightarrow> string list \<Rightarrow> string list" where
  "merge_env given from_image = given @ filter (\<lambda>e. env_key e \<notin> env_key ` set given) from_image"

definition docker_laws ::
    "'d docker \<Rightarrow> ('d \<Rightarrow> string \<Rightarrow> inspect_response option) \<Rightarrow> (string \<Rightarrow> string list option) \<Rightarrow>
     (string \<Rightarrow> string list) \<Rightarrow> bool" where
  "docker_laws dk cs image_cmd image_env \<longleftrightarrow>
    (\<forall>n d info d'. dk_inspect dk n d = (Inr info, d') \<longrightarrow> cs d n = Some info \<and> cs d' = cs d) \<and>
    (\<forall>n d e d'. dk_inspect dk n d = (Inl e, d') \<longrightarrow> cs d' = cs d) \<and>
    (\<forall>n b d d'. dk_create dk n b d = (Inr (), d') \<longrightarrow>
      (\<exists>i nets. cs d' = (cs d)(n \<mapsto>
        \<lparr> in_id = Some i, in_name = Some (CHR ''/'' # n),
          in_config = Some ((cb_config b)
            \<lparr> cc_cmd := (case cc_cmd (cb_config b) of
                Some c \<Rightarrow> Some c | None \<Rightarrow> Option.bind (cc_image (cb_config b)) image_cmd),
              cc_env := none_if_empty (merge_env (unwrap_or (cc_env (cb_config b)) [])
                (unwrap_or (map_option image_env (cc_image (cb_config b))) [])) \<rparr>),
          in_host_config = Some (cb_host b), in_running = Some False, in_networks = nets \<rparr>))) \<and>
    (\<forall>n d d'. dk_start dk n d = (Inr (), d') \<longrightarrow>
      (\<exists>info nets. cs d n = Some info \<and> cs d' = (cs d)(n \<mapsto> info\<lparr>in_running := Some True, in_networks := nets\<rparr>)))"

text \<open>
  The specifications that a container can be seen to satisfy: the normal forms of what \<open>observe\<close> reads
  back, a command and an environment that the image does not add to.
\<close>

definition spec_canonical :: "(string \<Rightarrow> string list option) \<Rightarrow> (string \<Rightarrow> string list) \<Rightarrow> runtime_container_spec \<Rightarrow> bool" where
  "spec_canonical image_cmd image_env spec \<longleftrightarrow>
    (ru_cmd spec = None \<longrightarrow> image_cmd (ru_image spec) = None) \<and>
    (\<forall>e\<in>set (image_env (ru_image spec)). env_key e = ''PATH'') \<and>
    (\<forall>(k, _)\<in>set (ru_env spec). CHR ''='' \<notin> set k) \<and>
    ru_user spec \<noteq> Some [] \<and> (\<forall>m. ru_memory_bytes spec = Some m \<longrightarrow> 0 < m) \<and>
    (\<forall>c. ru_nano_cpus spec = Some c \<longrightarrow> 0 < c) \<and>
    normalize_restart_policy (ru_restart_policy spec) = ru_restart_policy spec \<and>
    hm_wf (ru_tmpfs spec) \<and> hm_wf (ru_sysctls spec) \<and> (\<forall>m. ru_port_bindings spec = Some m \<longrightarrow> hm_wf m)"

section \<open>A created container satisfies its specification\<close>

lemma unwrap_none_if_empty [simp]: "unwrap_or (none_if_empty v) [] = v"
  by (simp add: none_if_empty_def)

lemma parse_env_pair_fmt: "CHR ''='' \<notin> set k \<Longrightarrow> parse_env_pair (k @ CHR ''='' # v) = (k, v)"
  using split_once_append[of "CHR ''=''" k v] by (simp add: parse_env_pair_def)

lemma parse_env_given:
  assumes "\<forall>(k, _)\<in>set env. CHR ''='' \<notin> set k"
  shows "map parse_env_pair (map (\<lambda>(k, v). k @ ''='' @ v) env) = env"
  using assms by (induction env) (auto simp: parse_env_pair_fmt)

lemma merged_env:
  assumes given: "\<forall>(k, _)\<in>set env. CHR ''='' \<notin> set k"
    and img: "\<forall>e\<in>set from_image. env_key e = ''PATH''"
  defines "observed \<equiv> map parse_env_pair (merge_env (map (\<lambda>(k, v). k @ ''='' @ v) env) from_image)"
  shows "(if ''PATH'' \<in> fst ` set env then observed else filter (\<lambda>e. fst e \<noteq> ''PATH'') observed) = env"
proof -
  have "env_key ` set (map (\<lambda>(k, v). k @ ''='' @ v) env) = fst ` set (map parse_env_pair (map (\<lambda>(k, v). k @ ''='' @ v) env))"
    by (simp add: env_key_def image_image)
  then have keys: "env_key ` set (map (\<lambda>(k, v). k @ ''='' @ v) env) = fst ` set env"
    by (simp only: parse_env_given[OF given])
  have obs: "observed = env @ map parse_env_pair (filter (\<lambda>e. env_key e \<notin> fst ` set env) from_image)"
    unfolding observed_def merge_env_def keys map_append parse_env_given[OF given] ..
  show ?thesis
  proof (cases "''PATH'' \<in> fst ` set env")
    case True
    then have "filter (\<lambda>e. env_key e \<notin> fst ` set env) from_image = []" using img by (simp add: filter_empty_conv)
    then show ?thesis using True obs by simp
  next
    case False
    have "filter (\<lambda>e. fst e \<noteq> ''PATH'') env = env" using False by (force simp: filter_id_conv)
    moreover have "filter (\<lambda>e. fst e \<noteq> ''PATH'') (map parse_env_pair (filter (\<lambda>e. env_key e \<notin> fst ` set env) from_image)) = []"
      using img by (auto simp: filter_empty_conv env_key_def)
    ultimately show ?thesis using False obs by simp
  qed
qed

lemma created_conforms:
  assumes canon: "spec_canonical image_cmd image_env spec"
    and config: "in_config info = Some ((cb_config (container_body spec pid))
            \<lparr> cc_cmd := (case ru_cmd spec of Some c \<Rightarrow> Some c | None \<Rightarrow> image_cmd (ru_image spec)),
              cc_env := none_if_empty (merge_env (map (\<lambda>(k, v). k @ ''='' @ v) (ru_env spec)) (image_env (ru_image spec))) \<rparr>)"
    and host: "in_host_config info = Some (cb_host (container_body spec pid))"
    and running: "in_running info = Some True"
  shows "eval_spec_change (Some (observe parse_ip info)) spec = In_Sync \<and> parent_id_matches (observe parse_ip info) pid \<and>
    (\<forall>l. l \<noteq> label_parent_id \<longrightarrow> hm_get (ob_labels (observe parse_ip info)) l = hm_get (ru_labels spec) l)"
proof -
  let ?obs = "observe parse_ip info"
  have labels: "\<forall>l. l \<noteq> label_parent_id \<longrightarrow> hm_get (ob_labels ?obs) l = hm_get (ru_labels spec) l"
    using config by (cases pid) (simp_all add: observe_def Let_def container_body_def update_conv')
  have env: "ob_env ?obs = map parse_env_pair (merge_env (map (\<lambda>(k, v). k @ ''='' @ v) (ru_env spec)) (image_env (ru_image spec)))"
    using config by (simp add: observe_def Let_def container_body_def none_if_empty_def)
  have merged: "(if ''PATH'' \<in> fst ` set (ru_env spec) then ob_env ?obs else filter (\<lambda>e. fst e \<noteq> ''PATH'') (ob_env ?obs)) = ru_env spec"
    unfolding env by (rule merged_env) (use canon in \<open>auto simp: spec_canonical_def\<close>)
  have user: "option_filter (\<lambda>u. u \<noteq> []) (ru_user spec) = ru_user spec"
    using canon by (cases "ru_user spec") (auto simp: spec_canonical_def option_filter_def)
  have mem: "option_filter (\<lambda>m. m > 0) (ru_memory_bytes spec) = ru_memory_bytes spec"
    "option_filter (\<lambda>m. m > 0) (ru_nano_cpus spec) = ru_nano_cpus spec"
    using canon by (cases "ru_memory_bytes spec"; cases "ru_nano_cpus spec"; auto simp: spec_canonical_def option_filter_def)+
  have cmd: "(case ru_cmd spec of Some c \<Rightarrow> Some c | None \<Rightarrow> image_cmd (ru_image spec)) = ru_cmd spec"
    using canon by (cases "ru_cmd spec") (auto simp: spec_canonical_def)
  have fields: "ob_image ?obs = ru_image spec" "ob_cmd ?obs = ru_cmd spec" "ob_entrypoint ?obs = ru_entrypoint spec"
    "ob_binds ?obs = ru_binds spec" "ob_tmpfs ?obs = ru_tmpfs spec" "ob_dns_servers ?obs = ru_dns_servers spec"
    "ob_network_mode ?obs = ru_network_mode spec" "ob_port_bindings ?obs = ru_port_bindings spec"
    "ob_cap_add ?obs = ru_cap_add spec" "ob_cap_drop ?obs = ru_cap_drop spec" "ob_privileged ?obs = ru_privileged spec"
    "ob_user ?obs = ru_user spec" "ob_restart_policy ?obs = ru_restart_policy spec"
    "ob_memory_bytes ?obs = ru_memory_bytes spec" "ob_nano_cpus ?obs = ru_nano_cpus spec"
    "ob_sysctls ?obs = ru_sysctls spec" "ob_stop_timeout ?obs = ru_stop_timeout spec" "ob_pid_mode ?obs = ru_pid_mode spec"
    "ob_running ?obs"
    using config host running cmd user mem by (simp_all add: observe_def Let_def container_body_def)
  have "conforms ?obs spec"
    unfolding conforms_def merged using canon
    by (simp add: fields network_mode_equal_def spec_canonical_def)
  moreover have "maps_wf ?obs spec"
    using canon by (simp add: maps_wf_def fields spec_canonical_def)
  moreover have "parent_id_matches ?obs pid"
    using config by (cases pid) (simp_all add: parent_id_matches_def observe_def Let_def container_body_def update_conv')
  ultimately show ?thesis using changed_fields_Nil labels by (simp add: eval_spec_change_def fields Let_def)
qed

lemma docker_lawsD:
  assumes "docker_laws dk cs image_cmd image_env"
  shows "dk_inspect dk n d = (r, d') \<Longrightarrow> cs d' = cs d"
    "dk_inspect dk n d = (Inr info, d') \<Longrightarrow> cs d n = Some info"
    "dk_create dk n b d = (Inr (), d') \<Longrightarrow> \<exists>i nets. cs d' = (cs d)(n \<mapsto>
        \<lparr> in_id = Some i, in_name = Some (CHR ''/'' # n),
          in_config = Some ((cb_config b)
            \<lparr> cc_cmd := (case cc_cmd (cb_config b) of
                Some c \<Rightarrow> Some c | None \<Rightarrow> Option.bind (cc_image (cb_config b)) image_cmd),
              cc_env := none_if_empty (merge_env (unwrap_or (cc_env (cb_config b)) [])
                (unwrap_or (map_option image_env (cc_image (cb_config b))) [])) \<rparr>),
          in_host_config = Some (cb_host b), in_running = Some False, in_networks = nets \<rparr>)"
    "dk_start dk n d = (Inr (), d') \<Longrightarrow>
      \<exists>info nets. cs d n = Some info \<and> cs d' = (cs d)(n \<mapsto> info\<lparr>in_running := Some True, in_networks := nets\<rparr>)"
  using assms unfolding docker_laws_def by (cases r; blast)+

lemma create_and_start_ok:
  assumes laws: "docker_laws dk cs image_cmd image_env" and canon: "spec_canonical image_cmd image_env spec"
    and run: "create_and_start dk spec pid d = (Inr obs, d')"
  shows "\<exists>info. cs d' (ru_container_name spec) = Some info \<and> obs = observe (dk_parse_ip dk) info \<and>
    eval_spec_change (Some obs) spec = In_Sync \<and> parent_id_matches obs pid \<and>
    (\<forall>l. l \<noteq> label_parent_id \<longrightarrow> hm_get (ob_labels obs) l = hm_get (ru_labels spec) l)"
proof -
  let ?n = "ru_container_name spec" and ?b = "container_body spec pid"
  have body: "cc_cmd (cb_config ?b) = ru_cmd spec" "Option.bind (cc_image (cb_config ?b)) image_cmd = image_cmd (ru_image spec)"
    "unwrap_or (cc_env (cb_config ?b)) [] = map (\<lambda>(k, v). k @ ''='' @ v) (ru_env spec)"
    "unwrap_or (map_option image_env (cc_image (cb_config ?b))) [] = image_env (ru_image spec)"
    by (simp_all add: container_body_def Let_def)
  obtain d1 d2 info where create: "dk_create dk ?n ?b (force_remove dk ?n d) = (Inr (), d1)"
    and start: "dk_start dk ?n d1 = (Inr (), d2)" and insp: "dk_inspect dk ?n d2 = (Inr info, d')"
    and obs: "obs = observe (dk_parse_ip dk) info"
    using run by (auto simp: create_and_start_def docker_op_def bind_act_Inr map_err_act_Inr ret_act_def)
  obtain i nets where c1: "cs d1 ?n = Some \<lparr> in_id = Some i, in_name = Some (CHR ''/'' # ?n),
      in_config = Some ((cb_config ?b)
        \<lparr> cc_cmd := (case ru_cmd spec of Some c \<Rightarrow> Some c | None \<Rightarrow> image_cmd (ru_image spec)),
          cc_env := none_if_empty (merge_env (map (\<lambda>(k, v). k @ ''='' @ v) (ru_env spec)) (image_env (ru_image spec))) \<rparr>),
      in_host_config = Some (cb_host ?b), in_running = Some False, in_networks = nets \<rparr>"
    using docker_lawsD(3)[OF laws create] unfolding body by auto
  obtain nets' where c2: "cs d2 ?n = Some ((the (cs d1 ?n))\<lparr>in_running := Some True, in_networks := nets'\<rparr>)"
    using docker_lawsD(4)[OF laws start] by auto
  have c3: "cs d2 ?n = Some info" "cs d' = cs d2"
    using docker_lawsD(1,2)[OF laws insp] by simp_all
  then have "in_config info = in_config (the (cs d1 ?n))" "in_host_config info = Some (cb_host ?b)" "in_running info = Some True"
    using c1 c2 by auto
  then have "eval_spec_change (Some (observe (dk_parse_ip dk) info)) spec = In_Sync \<and>
      parent_id_matches (observe (dk_parse_ip dk) info) pid \<and>
      (\<forall>l. l \<noteq> label_parent_id \<longrightarrow> hm_get (ob_labels (observe (dk_parse_ip dk) info)) l = hm_get (ru_labels spec) l)"
    using c1 by (intro created_conforms[OF canon]) simp_all
  then show ?thesis using c3 obs by auto
qed

lemma engine_inspect_Some:
  assumes "docker_laws dk cs image_cmd image_env" and "engine_inspect dk n d = (Inr (Some obs), d')"
  shows "cs d' = cs d \<and> (\<exists>info. cs d n = Some info \<and> obs = observe (dk_parse_ip dk) info)"
  using assms(2) docker_lawsD(1,2)[OF assms(1)]
  by (auto simp: engine_inspect_def split: prod.splits sum.splits docker_error.splits if_splits)

lemma engine_ensure_missing:
  assumes laws: "docker_laws dk cs image_cmd image_env" and canon: "spec_canonical image_cmd image_env spec"
    and missing: "cs d (ru_container_name spec) = None" and run: "engine_ensure dk spec d = (Inr res, d')"
  shows "\<exists>info. cs d' (ru_container_name spec) = Some info \<and>
    res = ensured spec Created (observe (dk_parse_ip dk) info) \<and>
    (\<forall>l. l \<noteq> label_parent_id \<longrightarrow> hm_get (ob_labels (observe (dk_parse_ip dk) info)) l = hm_get (ru_labels spec) l)"
proof -
  have "engine_inspect dk (ru_container_name spec) d \<noteq> (Inr (Some obs), d1)" for obs d1
    using engine_inspect_Some[OF laws] missing by fastforce
  then obtain pid obs d3 where "create_and_start dk spec pid d3 = (Inr obs, d')" "res = ensured spec Created obs"
    using run by (auto simp: engine_ensure_def Let_def bind_act_Inr ret_act_def fail_act_def
      split: option.splits)
  then show ?thesis using create_and_start_ok[OF laws canon] by blast
qed

lemma resolve_parent_id_keeps:
  assumes "docker_laws dk cs image_cmd image_env" and "resolve_parent_id dk spec d = (Inr pid, d')"
  shows "cs d' = cs d"
  using assms(2) docker_lawsD(1)[OF assms(1)]
  by (auto simp: resolve_parent_id_def split: option.splits prod.splits sum.splits docker_error.splits if_splits)


text \<open>A daemon that keeps the table of containers as a function, on a machine with a clock.\<close>

type_synonym table_state = "(string \<Rightarrow> inspect_response option) \<times> nat"

definition table_docker :: "table_state docker" where
  "table_docker =
    \<lparr> dk_inspect = \<lambda>n d. (case fst d n of Some info \<Rightarrow> (Inr info, d) | None \<Rightarrow> (Inl (Docker_Status 404 ''no such container''), d)),
      dk_create = \<lambda>n b (t, now). (Inr (), (t(n \<mapsto>
        \<lparr> in_id = Some (''id-'' @ n), in_name = Some (CHR ''/'' # n),
          in_config = Some ((cb_config b)\<lparr> cc_env := none_if_empty (merge_env (unwrap_or (cc_env (cb_config b)) []) []) \<rparr>),
          in_host_config = Some (cb_host b), in_running = Some False, in_networks = None \<rparr>), now)),
      dk_start = \<lambda>n (t, now). (case t n of
          Some info \<Rightarrow> (Inr (), (t(n \<mapsto> info\<lparr>in_running := Some True,
            in_networks := Some [(''ployz'', Some ''10.210.0.9'')]\<rparr>), now))
        | None \<Rightarrow> (Inl (Docker_Status 404 ''no such container''), (t, now))),
      dk_stop = \<lambda>_ _ d. (Inr (), d), dk_remove = \<lambda>n _ (t, now). (Inr (), (t(n := None), now)),
      dk_list = \<lambda>_ d. (Inr [], d), dk_inspect_image = \<lambda>_ d. (Inr (), d), dk_pull = \<lambda>_ d. d,
      dk_parse_ip = \<lambda>_. Some (Ip_V4 0x0AD20009) \<rparr>"

lemma table_docker_laws: "docker_laws table_docker fst (\<lambda>_. None) (\<lambda>_. [])"
proof -
  have upd: "c\<lparr>cc_cmd := case cc_cmd c of None \<Rightarrow> Option.bind (cc_image c) (\<lambda>_. None) | Some x \<Rightarrow> Some x,
      cc_env := e\<rparr> = c\<lparr>cc_env := e\<rparr>" for c :: container_config and e
    by (cases c; cases "cc_cmd c"; cases "cc_image c"; simp)
  have none: "unwrap_or (map_option (\<lambda>_. []) x) [] = []" for x :: "string option"
    by (cases x) simp_all
  show ?thesis
    unfolding docker_laws_def table_docker_def upd none by (auto split: option.splits)
qed


section \<open>The probe loop returns\<close>

text \<open>What the loop relies on: no attempt moves the monotonic clock back and a sleep lasts as long as asked.\<close>

definition probe_clock :: "'d probe_ops \<Rightarrow> probe \<Rightarrow> bool" where
  "probe_clock pr p \<longleftrightarrow>
    (\<forall>limit d. pr_now pr d \<le> pr_now pr (snd (pr_timeout pr limit (probe_check pr p) d))) \<and>
    (\<forall>i d. pr_now pr d + i \<le> pr_now pr (pr_sleep pr i d))"

lemma check_with_timeout_clock:
  assumes "probe_clock pr p"
  shows "pr_now pr d \<le> pr_now pr (snd (check_with_timeout pr p limit d))"
proof -
  have "snd (check_with_timeout pr p limit d) = snd (pr_timeout pr limit (probe_check pr p) d)"
    by (simp add: check_with_timeout_def split: prod.splits option.splits)
  then show ?thesis using assms by (simp add: probe_clock_def)
qed

lemma wait_start_period_returns:
  assumes mono: "\<And>d. now d \<le> now (snd (check d))" and sleeps: "\<And>i d. now d + i \<le> now (sleep i d)"
    and pos: "0 < interval"
  shows "\<exists>r d'. wait_start_period check now sleep deadline interval d = Some (r, d') \<and>
    (r = Inr True \<longrightarrow> (\<exists>d0. check d0 = (Inr True, d')))"
proof (induction "deadline - now d" arbitrary: d rule: less_induct)
  case less
  obtain x d1 where c: "check d = (x, d1)" by (cases "check d")
  show ?case
  proof (cases "x = Inr False \<and> now d1 < deadline")
    case True
    have "now d \<le> now d1" "now d1 + interval \<le> now (sleep interval d1)"
      using mono[of d] sleeps[of d1 interval] c by simp_all
    then have "deadline - now (sleep interval d1) < deadline - now d" using True pos by linarith
    from less[OF this] show ?thesis
      using c True by (subst wait_start_period.simps) auto
  next
    case False
    then show ?thesis using c by (subst wait_start_period.simps) (cases x; force)
  qed
qed

lemma wait_retries_ok:
  "wait_retries check sleep interval n k d = (Inr (), d') \<Longrightarrow> \<exists>d0. check d0 = (Inr True, d')"
proof (induction check sleep interval n k d rule: wait_retries.induct)
  case (1 check sleep interval n k d)
  show ?case
    using 1(2) unfolding wait_retries.simps[of check sleep interval n k d]
    by (auto split: prod.splits sum.splits if_splits intro: 1(1))
qed

text \<open>
  With a positive interval, on a clock that advances by every sleep, the first loop leaves its start
  period and the second ends after at most the given number of failures.
\<close>

lemma probe_wait_ready_returns:
  assumes clock: "probe_clock pr p" and pos: "0 < interval"
  shows "\<exists>r d'. probe_wait_ready pr p start_period interval attempt_timeout max_retries d = Some (r, d') \<and>
    (r = Inr () \<longrightarrow> (\<exists>d0. check_with_timeout pr p attempt_timeout d0 = (Inr True, d')))"
proof -
  let ?check = "check_with_timeout pr p attempt_timeout"
  have "\<And>i d. pr_now pr d + i \<le> pr_now pr (pr_sleep pr i d)" using clock by (simp add: probe_clock_def)
  from wait_start_period_returns[of "pr_now pr" ?check "pr_sleep pr", OF check_with_timeout_clock[OF clock] this pos]
  obtain r d' where "wait_start_period ?check (pr_now pr) (pr_sleep pr) (pr_now pr d + start_period) interval d = Some (r, d')"
    and "r = Inr True \<longrightarrow> (\<exists>d0. ?check d0 = (Inr True, d'))" by blast
  then show ?thesis
    by (cases r; cases "wait_retries ?check (pr_sleep pr) interval (unat max_retries) 0 d'")
      (auto simp: probe_wait_ready_def dest: wait_retries_ok)
qed

text \<open>A service that listens from the third second on.\<close>

definition clock_probe_ops :: "table_state probe_ops" where
  "clock_probe_ops =
    \<lparr> pr_tcp_connect = \<lambda>_ _ d. (3000 \<le> snd d, d), pr_http_get = \<lambda>_ d. (Inl (), d),
      pr_create_exec = \<lambda>_ _ d. (Inl (Docker_Status 500 []), d), pr_start_exec = \<lambda>_ d. (Inr (), d),
      pr_inspect_exec = \<lambda>_ d. (Inr None, d), pr_ip_str = \<lambda>_. [],
      pr_timeout = \<lambda>_ f d. (case f d of (r, d') \<Rightarrow> (Some r, d')), pr_now = snd,
      pr_sleep = \<lambda>i (t, now). (t, now + i) \<rparr>"

lemma clock_probe_clock: "probe_clock clock_probe_ops p"
  by (cases p) (auto simp: probe_clock_def clock_probe_ops_def probe_check_def probe_exec_def bind_act_def map_err_act_def)

end
