(* ===== verification/Deploy_Local.thy ===== *)
theory Deploy_Local
  imports Container_Engine
begin

text \<open>
  The deploy runtime of one machine, \<open>crates/ployz-runtime-backends/src/deploy/local.rs\<close>: the container
  of a candidate from the service specification, the wait for its readiness, the list of the managed
  instances and their removal, on the engine of \<open>Container_Engine\<close>.

  \<open>host\<close> holds the calls of one machine: the connection to the Docker daemon, its client, the probe
  runner and the system clock, on the state \<open>'d\<close> of the machine.
\<close>

section \<open>Data\<close>

record 'd host =
  ho_connect :: "('d, docker_error, unit) action"
  ho_docker :: "'d docker"
  ho_probe :: "'d probe_ops"
  ho_now :: "'d \<Rightarrow> timestamp \<times> 'd"

record managed_instance =
  mi_instance_id :: instance_id
  mi_service :: string
  mi_slot_id :: slot_id
  mi_machine_id :: machine_id
  mi_revision_hash :: string
  mi_deploy_id :: deploy_id
  mi_docker_container_id :: string
  mi_ip_address :: "ip_addr option"
  mi_backend_ports :: "(string, u16) btree_map"

definition ipv4_only :: "ip_addr \<Rightarrow> ipv4_addr option" where
  "ipv4_only ip = (case ip of Ip_V4 v4 \<Rightarrow> Some v4 | Ip_V6 _ \<Rightarrow> None)"

definition to_status_record ::
    "'d host \<Rightarrow> managed_instance \<Rightarrow> namespace \<Rightarrow> instance_phase \<Rightarrow> bool \<Rightarrow> drain_state \<Rightarrow> string option \<Rightarrow>
     'd \<Rightarrow> instance_status_record \<times> 'd" where
  "to_status_record host inst ns phase ready drain error d =
    (case ho_now host d of (started, d1) \<Rightarrow> case ho_now host d1 of (updated, d2) \<Rightarrow>
      (\<lparr> is_instance_id = mi_instance_id inst, is_namespace = ns, is_service = mi_service inst,
         is_slot_id = mi_slot_id inst, is_machine_id = mi_machine_id inst,
         is_revision_hash = mi_revision_hash inst, is_deploy_id = mi_deploy_id inst,
         is_docker_container_id = mi_docker_container_id inst,
         is_overlay_ip = Option.bind (mi_ip_address inst) ipv4_only,
         is_backend_ports = mi_backend_ports inst, is_phase = phase, is_ready = ready,
         is_drain_state = drain, is_error = error, is_started_at = started, is_updated_at = updated \<rparr>, d2))"

record start_candidate =
  ca_namespace :: namespace
  ca_spec :: service_spec
  ca_deploy_id :: deploy_id
  ca_instance_id :: instance_id
  ca_slot_id :: slot_id
  ca_machine_id :: machine_id
  ca_revision_hash :: string

record local_deploy_runtime =
  lr_overlay_network :: "string option"
  lr_overlay_dns_server :: "ipv4_addr option"

definition local_deploy_runtime_new ::
    "'d host \<Rightarrow> string option \<Rightarrow> ipv4_addr option \<Rightarrow> ('d, local_deploy_runtime) engine_op" where
  "local_deploy_runtime_new host network dns =
    bind_act (docker_op ''docker connect'' (ho_connect host)) (\<lambda>_.
      ret_act \<lparr> lr_overlay_network = network, lr_overlay_dns_server = dns \<rparr>)"

section \<open>The container of a candidate\<close>

definition service_port_map :: "service_port list \<Rightarrow> (string, u16) btree_map" where
  "service_port_map ports = bt_collect (map (\<lambda>p. (svp_name p, svp_container_port p)) ports)"

definition resolve_service_port :: "service_spec \<Rightarrow> string \<Rightarrow> (ployz_error, u16) result" where
  "resolve_service_port spec name =
    ok_or (map_option svp_container_port (find (\<lambda>p. svp_name p = name) (ss_service_ports spec)))
      (Operation ''resolve_service_port''
        (''service '' @ quoted (ss_name spec) @ '' has no service port named '' @ quoted name))"

definition bind_of :: "volume_mount \<Rightarrow> string option" where
  "bind_of m =
    (let ro = (if vm_readonly m then '':ro'' else [])
     in case vm_source m of
          Volume_Bind source \<Rightarrow> Some (source @ '':'' @ vm_target m @ ro)
        | Volume_Managed volume \<Rightarrow> Some (mv_name volume @ '':'' @ vm_target m @ ro)
        | Volume_Tmpfs \<Rightarrow> None)"

definition build_binds :: "container_spec \<Rightarrow> string list" where
  "build_binds c = List.map_filter bind_of (cs_volumes c)"

definition build_tmpfs :: "container_spec \<Rightarrow> (string, string) hash_map" where
  "build_tmpfs c =
    hm_collect (map (\<lambda>m. (vm_target m, [])) (filter (\<lambda>m. vm_source m = Volume_Tmpfs) (cs_volumes c)))"

definition protocol_str :: "port_protocol \<Rightarrow> string" where
  "protocol_str p = (case p of Proto_Tcp \<Rightarrow> ''tcp'' | Proto_Udp \<Rightarrow> ''udp'')"

definition port_key :: "service_port \<Rightarrow> string" where
  "port_key p = fmt_dec (unat (svp_container_port p)) @ ''/'' @ protocol_str (svp_protocol p)"

definition host_binding :: "published_port \<Rightarrow> port_binding" where
  "host_binding p = \<lparr> pb_host_ip = pp_host_ip p, pb_host_port = Some (fmt_dec (unat (pp_host_port p))) \<rparr>"

definition add_port_binding :: "service_spec \<Rightarrow> published_port \<Rightarrow> port_map \<Rightarrow> (ployz_error, port_map) result" where
  "add_port_binding spec published bindings =
    bind_res (ok_or (find (\<lambda>p. svp_name p = pp_service_port published) (ss_service_ports spec))
      (Operation ''build_port_bindings''
        (''service '' @ quoted (ss_name spec) @ '' publishes unknown port '' @ quoted (pp_service_port published)))) (\<lambda>port.
    let key = port_key port in
    case unwrap_or (hm_get bindings key) (Some []) of
      None \<Rightarrow> Inl (Operation ''build_port_bindings'' ''port binding entry did not contain a binding list'')
    | Some items \<Rightarrow> Inr (hm_insert key (Some (items @ [host_binding published])) bindings))"

definition build_port_bindings :: "service_spec \<Rightarrow> (ployz_error, port_map option) result" where
  "build_port_bindings spec =
    (if ss_publish spec = [] then Inr None
     else bind_res (fold_res (add_port_binding spec) (ss_publish spec) []) (\<lambda>bindings. Inr (Some bindings)))"

definition workload_dns_servers :: "network_mode \<Rightarrow> ipv4_addr option \<Rightarrow> string list" where
  "workload_dns_servers network dns =
    (case network of
       Net_Overlay \<Rightarrow> (case dns of Some ip \<Rightarrow> [ipv4_str ip] | None \<Rightarrow> [])
     | Net_Host \<Rightarrow> [] | Net_None \<Rightarrow> [] | Net_Service _ \<Rightarrow> [])"

definition build_restart_policy :: "restart_policy \<Rightarrow> docker_restart_policy" where
  "build_restart_policy policy =
    \<lparr> drp_name = Some (case policy of
          Restart_No \<Rightarrow> Name_No | Restart_Always \<Rightarrow> Name_Always
        | Restart_OnFailure \<Rightarrow> Name_OnFailure | Restart_UnlessStopped \<Rightarrow> Name_UnlessStopped),
      drp_maximum_retry_count = Some 0 \<rparr>"

text \<open>The product of minutes and 60 is one of \<open>i64\<close>, which wraps.\<close>

definition parse_duration_secs :: "string \<Rightarrow> int option" where
  "parse_duration_secs value =
    (let trimmed = trim value in
     case strip_suffix ''s'' trimmed of
       Some rest \<Rightarrow> parse_sint 64 (trim rest)
     | None \<Rightarrow>
         (case strip_suffix ''m'' trimmed of
            Some rest \<Rightarrow> map_option (\<lambda>minutes. sint (word_of_int (minutes * 60) :: 64 word)) (parse_sint 64 (trim rest))
          | None \<Rightarrow> parse_sint 64 trimmed))"

definition container_name_of :: "namespace \<Rightarrow> string \<Rightarrow> instance_id \<Rightarrow> string" where
  "container_name_of ns service i =
    ''ployz-'' @ namespace_str ns @ ''-'' @ service @ ''-'' @ instance_id_str i"

definition candidate_labels :: "start_candidate \<Rightarrow> string \<Rightarrow> labels" where
  "candidate_labels ca key =
    build_workload_labels key
      \<lparr> wm_namespace = namespace_str (ca_namespace ca), wm_service = ss_name (ca_spec ca),
        wm_revision = ca_revision_hash ca, wm_deploy_id = deploy_id_str (ca_deploy_id ca),
        wm_instance_id = instance_id_str (ca_instance_id ca), wm_slot_id = slot_id_str (ca_slot_id ca),
        wm_machine_id = machine_id_str (ca_machine_id ca) \<rparr> (ss_labels (ca_spec ca))"

definition candidate_network :: "local_deploy_runtime \<Rightarrow> start_candidate \<Rightarrow> string option" where
  "candidate_network rt ca =
    (case ss_network (ca_spec ca) of
       Net_Host \<Rightarrow> Some ''host''
     | Net_None \<Rightarrow> Some ''none''
     | Net_Service service \<Rightarrow> Some (''container:ployz-'' @ namespace_str (ca_namespace ca) @ ''-'' @ service)
     | Net_Overlay \<Rightarrow> lr_overlay_network rt)"

definition candidate_runtime_spec ::
    "local_deploy_runtime \<Rightarrow> start_candidate \<Rightarrow> (ployz_error, runtime_container_spec) result" where
  "candidate_runtime_spec rt ca =
    (let spec = ca_spec ca;
         container = ss_template spec;
         key = namespace_str (ca_namespace ca) @ ''/'' @ ss_name spec @ ''/'' @
           slot_id_str (ca_slot_id ca) @ ''/'' @ instance_id_str (ca_instance_id ca)
     in bind_res (build_port_bindings spec) (\<lambda>port_bindings.
        Inr \<lparr> ru_key = key,
              ru_container_name = container_name_of (ca_namespace ca) (ss_name spec) (ca_instance_id ca),
              ru_image = cs_image container, ru_pull_policy = cs_pull_policy container,
              ru_cmd = cs_command container, ru_entrypoint = cs_entrypoint container,
              ru_env = cs_env container, ru_labels = candidate_labels ca key,
              ru_binds = build_binds container, ru_tmpfs = build_tmpfs container,
              ru_dns_servers = workload_dns_servers (ss_network spec) (lr_overlay_dns_server rt),
              ru_network_mode = candidate_network rt ca, ru_port_bindings = port_bindings,
              ru_exposed_ports = None, ru_cap_add = cs_cap_add container, ru_cap_drop = cs_cap_drop container,
              ru_privileged = cs_privileged container, ru_user = cs_user container,
              ru_restart_policy = Some (build_restart_policy (ss_restart spec)),
              ru_memory_bytes = map_option sint (rc_memory_bytes (cs_resources container)),
              ru_nano_cpus = cpu_nano (cs_resources container),
              ru_sysctls = hm_collect (cs_sysctls container),
              ru_stop_timeout = Option.bind (ss_stop_grace_period spec) parse_duration_secs,
              ru_pid_mode = None \<rparr>))"

section \<open>Operations\<close>

definition managed_of :: "observed_container \<Rightarrow> managed_instance option" where
  "managed_of obs =
    map_option (\<lambda>wl.
      \<lparr> mi_instance_id = InstanceId (wl_instance_id wl), mi_service = wl_service wl,
        mi_slot_id = SlotId (wl_slot_id wl), mi_machine_id = MachineId (wl_machine_id wl),
        mi_revision_hash = wl_revision_hash wl, mi_deploy_id = DeployId (wl_deploy_id wl),
        mi_docker_container_id = ob_container_id obs, mi_ip_address = ob_ip_address obs,
        mi_backend_ports = [] \<rparr>) (extract_workload_labels (ob_labels obs))"

definition list_instances :: "'d host \<Rightarrow> namespace \<Rightarrow> ('d, managed_instance list) engine_op" where
  "list_instances host ns =
    bind_act (engine_list_by_labels (ho_docker host) [(label_managed, ''true''), (label_namespace, namespace_str ns)])
      (\<lambda>observed. ret_act (List.map_filter managed_of observed))"

definition runtime_start_candidate ::
    "'d host \<Rightarrow> local_deploy_runtime \<Rightarrow> start_candidate \<Rightarrow> ('d, managed_instance) engine_op" where
  "runtime_start_candidate host rt ca =
    bind_act (lift_res (candidate_runtime_spec rt ca)) (\<lambda>runtime_spec.
    bind_act (engine_ensure (ho_docker host) runtime_spec) (\<lambda>res.
    ret_act
      \<lparr> mi_instance_id = ca_instance_id ca, mi_service = ss_name (ca_spec ca), mi_slot_id = ca_slot_id ca,
        mi_machine_id = ca_machine_id ca, mi_revision_hash = ca_revision_hash ca,
        mi_deploy_id = ca_deploy_id ca, mi_docker_container_id = er_container_id res,
        mi_ip_address = er_ip_address res,
        mi_backend_ports = service_port_map (ss_service_ports (ca_spec ca)) \<rparr>))"

definition readiness_target ::
    "service_spec \<Rightarrow> managed_instance \<Rightarrow> ip_addr \<Rightarrow> readiness_check \<Rightarrow> (ployz_error, probe) result" where
  "readiness_target spec inst ip check =
    (case check of
       Check_Tcp port \<Rightarrow> bind_res (resolve_service_port spec port) (\<lambda>n. Inr (Probe_Tcp ip n))
     | Check_Http port path \<Rightarrow> bind_res (resolve_service_port spec port) (\<lambda>n. Inr (Probe_Http ip n path))
     | Check_Exec command \<Rightarrow> Inr (Probe_Exec (mi_docker_container_id inst) command))"



definition runtime_wait_ready ::
    "'d host \<Rightarrow> (duration_error \<Rightarrow> string) \<Rightarrow> service_spec \<Rightarrow> managed_instance \<Rightarrow> 'd \<Rightarrow>
     ((ployz_error, unit) result \<times> 'd) option" where
  "runtime_wait_ready host str spec inst d =
    (case ss_readiness spec of
       None \<Rightarrow> Some (Inr (), d)
     | Some readiness \<Rightarrow>
         (case mi_ip_address inst of
            None \<Rightarrow> Some (Inl (Operation ''wait_ready''
              (''instance '' @ quoted (instance_id_str (mi_instance_id inst)) @ '' for service '' @
               quoted (ss_name spec) @ '' has no reachable IP address'')), d)
          | Some ip \<Rightarrow>
              (case bind_res (readiness_target spec inst ip (rp_check readiness)) (\<lambda>p.
                  bind_res (map_err (\<lambda>e. Operation ''wait_ready'' (str e)) (interval_duration readiness)) (\<lambda>interval.
                  bind_res (map_err (\<lambda>e. Operation ''wait_ready'' (str e)) (timeout_duration readiness)) (\<lambda>limit.
                  bind_res (map_err (\<lambda>e. Operation ''wait_ready'' (str e)) (start_period_duration readiness)) (\<lambda>start_period.
                  Inr (p, interval, limit, start_period))))) of
                 Inl e \<Rightarrow> Some (Inl e, d)
               | Inr (p, interval, limit, start_period) \<Rightarrow>
                   map_option (\<lambda>(r, d').
                     (map_err (\<lambda>_. Operation ''wait_ready''
                       (''instance '' @ quoted (instance_id_str (mi_instance_id inst)) @ '' for service '' @
                        quoted (ss_name spec) @ '' did not become ready before timeout'')) r, d'))
                     (probe_wait_ready (ho_probe host) p start_period interval limit (retries readiness) d))))"

definition runtime_remove_instance ::
    "'d host \<Rightarrow> instance_id \<Rightarrow> namespace \<Rightarrow> string \<Rightarrow> ('d, unit) engine_op" where
  "runtime_remove_instance host i ns service =
    engine_remove (ho_docker host) (container_name_of ns service i) 10"

section \<open>Published ports\<close>

definition published_key :: "service_spec \<Rightarrow> published_port \<Rightarrow> string option" where
  "published_key spec p =
    map_option port_key (find (\<lambda>port. svp_name port = pp_service_port p) (ss_service_ports spec))"

definition bindings_for :: "service_spec \<Rightarrow> published_port list \<Rightarrow> string \<Rightarrow> port_binding list" where
  "bindings_for spec ps key = map host_binding (filter (\<lambda>p. published_key spec p = Some key) ps)"

definition port_table :: "service_spec \<Rightarrow> published_port list \<Rightarrow> port_map \<Rightarrow> bool" where
  "port_table spec ps m \<longleftrightarrow>
    (\<forall>key. hm_get m key = (if bindings_for spec ps key = [] then None else Some (Some (bindings_for spec ps key))))"

lemma add_port_binding_table:
  assumes "port_table spec ps m" and "pp_service_port p \<in> service_port_names spec"
  shows "\<exists>m'. add_port_binding spec p m = Inr m' \<and> port_table spec (ps @ [p]) m'"
proof -
  obtain port where port: "find (\<lambda>port. svp_name port = pp_service_port p) (ss_service_ports spec) = Some port"
    using assms(2) by (cases "find (\<lambda>port. svp_name port = pp_service_port p) (ss_service_ports spec)")
      (auto simp: service_port_names_def find_None_iff)
  then have key: "published_key spec p = Some (port_key port)" by (simp add: published_key_def)
  have "unwrap_or (hm_get m (port_key port)) (Some []) = Some (bindings_for spec ps (port_key port))"
    using assms(1) by (simp add: port_table_def)
  then show ?thesis
    using assms(1) port key by (auto simp: add_port_binding_def Let_def port_table_def bindings_for_def update_conv')
qed

lemma fold_port_bindings_table:
  assumes "port_table spec ps m" and "\<forall>p\<in>set qs. pp_service_port p \<in> service_port_names spec"
  shows "\<exists>m'. fold_res (add_port_binding spec) qs m = Inr m' \<and> port_table spec (ps @ qs) m'"
  using assms
proof (induction qs arbitrary: ps m)
  case (Cons q qs)
  then obtain m1 where m1: "add_port_binding spec q m = Inr m1" "port_table spec (ps @ [q]) m1"
    using add_port_binding_table[of spec ps m q] by auto
  with Cons.IH[of "ps @ [q]" m1] Cons.prems show ?case by auto
qed auto

text \<open>
  For a service that passed validation the port bindings are built, and they are exactly the
  published ports: the container port of a service port has the bindings of the publications that
  name it, in their order, and no other container port is bound.
\<close>

theorem build_port_bindings_correct:
  assumes "service_validate spec = Inr ()" and "ss_publish spec \<noteq> []"
  shows "\<exists>m. build_port_bindings spec = Inr (Some m) \<and>
    (\<forall>key. hm_get m key = (if bindings_for spec (ss_publish spec) key = [] then None
      else Some (Some (bindings_for spec (ss_publish spec) key))))"
proof -
  have "port_table spec [] []" by (simp add: port_table_def bindings_for_def)
  moreover have "\<forall>p\<in>set (ss_publish spec). pp_service_port p \<in> service_port_names spec"
    using assms(1) by (simp add: service_validate_iff service_ok_def)
  ultimately obtain m where "fold_res (add_port_binding spec) (ss_publish spec) [] = Inr m"
    "port_table spec (ss_publish spec) m"
    using fold_port_bindings_table[of spec "[]" "[]" "ss_publish spec"] by auto
  then show ?thesis using assms(2) by (auto simp: build_port_bindings_def port_table_def)
qed

definition example_service :: service_spec where
  "example_service =
    \<lparr> ss_name = ''web'', ss_placement = Replicated 1,
      ss_template =
        \<lparr> cs_image = ''nginx'', cs_command = None, cs_entrypoint = None, cs_env = [], cs_volumes = [],
          cs_cap_add = [], cs_cap_drop = [], cs_privileged = False, cs_user = None,
          cs_pull_policy = Pull_IfNotPresent, cs_resources = \<lparr> rc_cpu_millicores = None, rc_memory_bytes = None \<rparr>,
          cs_sysctls = [] \<rparr>,
      ss_network = Net_Overlay,
      ss_service_ports = [\<lparr> svp_name = ''http'', svp_container_port = 80, svp_protocol = Proto_Tcp \<rparr>],
      ss_publish = [\<lparr> pp_service_port = ''http'', pp_host_port = 8080, pp_host_ip = None \<rparr>],
      ss_routes = [],
      ss_readiness = Some \<lparr> rp_check = Check_Tcp ''http'', rp_interval = None, rp_timeout = None,
        rp_retries = None, rp_start_period = None \<rparr>,
      ss_rollout = Rollout_Recreate, ss_labels = [], ss_stop_grace_period = None,
      ss_restart = Restart_UnlessStopped \<rparr>"

lemma example_service_valid: "service_validate example_service = Inr ()"
proof -
  have "trim ''web'' = ''web''" by (rule trim_id) (simp_all add: white_space_def)
  moreover have "trim ''http'' = ''http''" by (rule trim_id) (simp_all add: white_space_def)
  ultimately show ?thesis
    by (simp add: service_validate_iff service_ok_def readiness_ok_def duration_ok_def service_port_names_def example_service_def)
qed

theorem build_port_bindings_correct_witness:
  "\<exists>m. build_port_bindings example_service = Inr (Some m) \<and>
    hm_get m ''80/tcp'' = Some (Some [\<lparr> pb_host_ip = None, pb_host_port = Some ''8080'' \<rparr>])"
proof -
  have "fmt_dec 80 = ''80''" "fmt_dec 8080 = ''8080''"
    by (simp_all add: fmt_dec_def fmt_radix.simps digit_char_def char_of_def bit_Suc_0_iff)
  then have "bindings_for example_service (ss_publish example_service) ''80/tcp'' =
      [\<lparr> pb_host_ip = None, pb_host_port = Some ''8080'' \<rparr>]"
    by (simp add: bindings_for_def published_key_def example_service_def port_key_def protocol_str_def host_binding_def)
  moreover have "ss_publish example_service \<noteq> []" by (simp add: example_service_def)
  from build_port_bindings_correct[OF example_service_valid this] obtain m where
    "build_port_bindings example_service = Inr (Some m)"
    "hm_get m ''80/tcp'' = (if bindings_for example_service (ss_publish example_service) ''80/tcp'' = [] then None
      else Some (Some (bindings_for example_service (ss_publish example_service) ''80/tcp'')))" by blast
  ultimately show ?thesis by simp
qed

section \<open>Readiness\<close>

lemma readiness_interval_positive: "readiness_validate service p = Inr () \<Longrightarrow> interval_duration p = Inr i \<Longrightarrow> 0 < i"
  by (auto simp: readiness_validate_def)

lemma service_readiness_validate:
  "service_validate spec = Inr () \<Longrightarrow> ss_readiness spec = Some p \<Longrightarrow> readiness_validate (ss_name spec) p = Inr ()"
  by (auto simp: service_validate_def)

text \<open>
  C36. The wait for the readiness of an instance returns, for every service that passed validation and on
  a clock that every sleep advances. It succeeds only when the service asks for no probe, or when the
  instance has an address and an attempt of the probe that the service describes succeeded.
\<close>

theorem runtime_wait_ready_returns:
  assumes valid: "service_validate spec = Inr ()" and clock: "\<And>p. probe_clock (ho_probe host) p"
  shows "\<exists>r d'. runtime_wait_ready host str spec inst d = Some (r, d') \<and>
    (\<forall>readiness. r = Inr () \<longrightarrow> ss_readiness spec = Some readiness \<longrightarrow>
      (\<exists>ip p limit d0. mi_ip_address inst = Some ip \<and>
        readiness_target spec inst ip (rp_check readiness) = Inr p \<and> timeout_duration readiness = Inr limit \<and>
        check_with_timeout (ho_probe host) p limit d0 = (Inr True, d')))"
proof (cases "ss_readiness spec")
  case None
  then show ?thesis by (simp add: runtime_wait_ready_def)
next
  case (Some readiness)
  show ?thesis
  proof (cases "\<exists>ip p interval limit start_period. mi_ip_address inst = Some ip \<and>
      readiness_target spec inst ip (rp_check readiness) = Inr p \<and> interval_duration readiness = Inr interval \<and>
      timeout_duration readiness = Inr limit \<and> start_period_duration readiness = Inr start_period")
    case True
    then obtain ip p interval limit start_period where facts: "mi_ip_address inst = Some ip"
      "readiness_target spec inst ip (rp_check readiness) = Inr p" "interval_duration readiness = Inr interval"
      "timeout_duration readiness = Inr limit" "start_period_duration readiness = Inr start_period" by blast
    have "0 < interval" using readiness_interval_positive service_readiness_validate[OF valid Some] facts(3) by blast
    from probe_wait_ready_returns[OF clock this] obtain r d' where
      "probe_wait_ready (ho_probe host) p start_period interval limit (retries readiness) d = Some (r, d')"
      "r = Inr () \<longrightarrow> (\<exists>d0. check_with_timeout (ho_probe host) p limit d0 = (Inr True, d'))" by blast
    then show ?thesis using Some facts by (cases r) (auto simp: runtime_wait_ready_def)
  next
    case False
    then have "\<exists>e. runtime_wait_ready host str spec inst d = Some (Inl e, d)"
      using Some by (auto simp: runtime_wait_ready_def split: option.split sum.split)
    then show ?thesis by auto
  qed
qed

definition table_host :: "table_state host" where
  "table_host =
    \<lparr> ho_connect = \<lambda>d. (Inr (), d), ho_docker = table_docker, ho_probe = clock_probe_ops,
      ho_now = \<lambda>d. (snd d, d) \<rparr>"

definition example_candidate :: start_candidate where
  "example_candidate =
    \<lparr> ca_namespace = Namespace ''prod'', ca_spec = example_service, ca_deploy_id = DeployId ''d'',
      ca_instance_id = InstanceId ''i'', ca_slot_id = SlotId ''slot-0001'', ca_machine_id = MachineId ''m'',
      ca_revision_hash = ''h'' \<rparr>"

definition example_runtime :: local_deploy_runtime where
  "example_runtime = \<lparr> lr_overlay_network = Some ''ployz'', lr_overlay_dns_server = None \<rparr>"

definition example_instance :: managed_instance where
  "example_instance =
    \<lparr> mi_instance_id = InstanceId ''i'', mi_service = ''web'', mi_slot_id = SlotId ''slot-0001'',
      mi_machine_id = MachineId ''m'', mi_revision_hash = ''h'', mi_deploy_id = DeployId ''d'',
      mi_docker_container_id = ''c'', mi_ip_address = Some (Ip_V4 1), mi_backend_ports = [] \<rparr>"

theorem runtime_wait_ready_returns_witness:
  "\<exists>r d'. runtime_wait_ready table_host (\<lambda>_. []) example_service example_instance (\<lambda>_. None, 0) = Some (r, d')"
proof -
  have "\<And>p. probe_clock (ho_probe table_host) p" by (simp add: table_host_def clock_probe_clock)
  from runtime_wait_ready_returns[OF example_service_valid this, of "\<lambda>_. []" example_instance "(\<lambda>_. None, 0)"]
  show ?thesis by blast
qed

section \<open>A started candidate can be found again\<close>

definition identity_labels :: "string set" where
  "identity_labels = {label_instance, label_service, label_slot, label_machine, label_revision, label_deploy}"

lemma extract_workload_labels_cong:
  assumes "\<And>l. l \<noteq> label_parent_id \<Longrightarrow> hm_get a l = hm_get b l"
  shows "extract_workload_labels a = extract_workload_labels b"
proof -
  have "label_instance \<noteq> label_parent_id" "label_service \<noteq> label_parent_id" "label_slot \<noteq> label_parent_id"
    "label_machine \<noteq> label_parent_id" "label_revision \<noteq> label_parent_id" "label_deploy \<noteq> label_parent_id"
    by (simp_all add: label_defs)
  then show ?thesis using assms by (simp add: extract_workload_labels_def)
qed

lemma candidate_labels_extract:
  assumes "\<And>k. k \<in> fst ` set (ss_labels (ca_spec ca)) \<Longrightarrow> k \<notin> identity_labels"
  shows "extract_workload_labels (candidate_labels ca key) =
    Some \<lparr> wl_instance_id = instance_id_str (ca_instance_id ca), wl_service = ss_name (ca_spec ca),
           wl_slot_id = slot_id_str (ca_slot_id ca), wl_machine_id = machine_id_str (ca_machine_id ca),
           wl_revision_hash = ca_revision_hash ca, wl_deploy_id = deploy_id_str (ca_deploy_id ca) \<rparr>"
proof -
  have "map_of (rev (ss_labels (ca_spec ca))) l = None" if "l \<in> identity_labels" for l
    using assms that by (auto simp: map_of_eq_None_iff)
  then show ?thesis
    by (simp add: candidate_labels_def workload_labels_roundtrip identity_labels_def)
qed



section \<open>Restart policies\<close>

text \<open>
  A service that is not restarted never compares equal to its container: \<open>build_restart_policy\<close> asks
  for the policy \<open>no\<close>, which the comparison removes from what it observes.
\<close>

lemma restart_no_drifts:
  assumes "candidate_runtime_spec rt ca = Inr rspec" and "ss_restart (ca_spec ca) = Restart_No"
  shows "eval_spec_change (Some obs) rspec \<noteq> In_Sync"
proof -
  have "\<not> restart_policy_equal (ob_restart_policy obs) (ru_restart_policy rspec)"
    using assms by (auto simp: candidate_runtime_spec_def Let_def build_restart_policy_def restart_policy_equal_def
      normalize_restart_policy_def split: option.splits if_splits)
  then have "changed_fields obs rspec \<noteq> []"
    by (simp add: changed_fields_def Let_def push_unless_Nil)
  then show ?thesis by (simp add: eval_spec_change_def Let_def)
qed

text \<open>A grace period in milliseconds or hours is a duration elsewhere and ignored here.\<close>

lemma parse_duration_secs_units:
  "parse_duration_secs ''500ms'' = None \<and> parse_duration ''500ms'' = Inr 500"
proof -
  have trims: "trim ''500ms'' = ''500ms''" "trim ''500m'' = ''500m''" "trim ''500'' = ''500''"
    by (rule trim_id; simp add: white_space_def)+
  have strips: "strip_suffix ''s'' ''500ms'' = Some ''500m''" "strip_suffix ''ms'' ''500ms'' = Some ''500''"
    by (simp_all add: strip_suffix_def suffix_def)
  have "parse_sint 64 ''500m'' = None" "parse_uint 64 ''500'' = Some 500"
    by (simp_all add: parse_sint_def parse_uint_def digit_value_def is_ascii_digit_def less_eq_char_def Let_def)
  then show ?thesis
    by (simp add: parse_duration_secs_def parse_duration_def duration_units_def trims strips Let_def)
qed

end
