(* ===== verification/Deploy_Agent.thy ===== *)
theory Deploy_Agent
  imports Deploy_Apply Deploy_Local
begin

text \<open>
  The deploy agents and their sessions, \<open>crates/ployzd/src/daemon/deploy_control\<close>: namespace locks
  (\<open>locks.rs\<close>), the agent and the frames of a remote session (\<open>remote.rs\<close>), sessions in the same
  process and the session factory (\<open>session.rs\<close>).

  The world is a cluster: the store that all machines share, and for each machine its held locks and the
  state of its host. The deploy coordinator of \<open>Deploy_Apply\<close> runs on it through \<open>cluster_deploy_env\<close>.
  A frame is passed as a value, since reading inverts writing, and a connection that was accepted
  stays up. Where the wait for readiness does not return, neither does the call (\<open>None\<close>).
\<close>

section \<open>Namespace locks\<close>

type_synonym held_locks = "(string, deploy_id) hash_map"

definition try_acquire :: "namespace \<Rightarrow> deploy_id \<Rightarrow> (held_locks, ployz_error, unit) action" where
  "try_acquire ns deploy_id held =
    (case hm_get held (namespace_str ns) of
       Some current \<Rightarrow>
         (Inl (Operation ''namespace_lock''
           (''namespace '' @ quoted (namespace_str ns) @ '' is already locked by deploy '' @
            quoted (deploy_id_str current))), held)
     | None \<Rightarrow> (Inr (), hm_insert (namespace_str ns) deploy_id held))"

definition lock_drop :: "namespace \<Rightarrow> held_locks \<Rightarrow> held_locks" where
  "lock_drop ns held = hm_remove (namespace_str ns) held"

section \<open>The cluster\<close>

record ('c, 'q, 'd) cluster =
  cl_store :: "('c, 'q) store_inner"
  cl_locks :: "machine_id \<Rightarrow> held_locks"
  cl_hosts :: "machine_id \<Rightarrow> 'd"
  cl_draws :: nat

text \<open>Frames of a remote session.\<close>

datatype deploy_frame =
    Frame_Open string string string
  | Frame_InspectNamespace
  | Frame_StartCandidate string string string string
  | Frame_DrainInstance string
  | Frame_RemoveInstance string
  | Frame_Close
  | Frame_Opened "instance_status_record list"
  | Frame_NamespaceSnapshot "instance_status_record list"
  | Frame_CandidateStarted instance_status_record
  | Frame_Ack string
  | Frame_Error string string

text \<open>
  What the agents are given: the calls of every host, their overlay configuration, the channel of the
  routing subscribers, new identifiers (the number of the draw and the identifiers in use are those of the
  world), JSON, the text of errors and frames, and which agent listens at an address.
\<close>

record ('q, 'd) cluster_env =
  ce_host :: "machine_id \<Rightarrow> 'd host"
  ce_overlay_network :: "machine_id \<Rightarrow> string option"
  ce_overlay_dns :: "machine_id \<Rightarrow> ipv4_addr option"
  ce_notify :: "('q, unit) sender"
  ce_uuid :: "nat \<Rightarrow> instance_id list \<Rightarrow> string"
  ce_parse_spec :: "string \<Rightarrow> (string, service_spec) result"
  ce_spec_json :: "service_spec \<Rightarrow> (string, string) result"
  ce_manifest_json :: "deploy_manifest \<Rightarrow> (string, string) result"
  ce_preview_json :: "deploy_preview \<Rightarrow> (string, string) result"
  ce_duration_str :: "duration_error \<Rightarrow> string"
  ce_frame_debug :: "deploy_frame \<Rightarrow> string"
  ce_connect :: "overlay_ip \<Rightarrow> (string, machine_id) result"

type_synonym ('c, 'q, 'd, 'a) cluster_op = "(('c, 'q, 'd) cluster, ployz_error, 'a) action"

definition error_str :: "ployz_error \<Rightarrow> string" where
  "error_str e = (case e of Operation op message \<Rightarrow> op @ '': '' @ message)"

definition store_fault :: "store_error \<Rightarrow> ployz_error" where
  "store_fault e =
    (case e of
       Invite_Exists i \<Rightarrow> Operation ''invite_exists'' (''invite '' @ quoted i @ '' already exists'')
     | Invite_Not_Found i \<Rightarrow> Operation ''invite_not_found'' (''invite '' @ quoted i @ '' not found'')
     | Invite_Expired i \<Rightarrow> Operation ''invite_expired'' (''invite '' @ quoted i @ '' is expired''))"

definition on_store :: "('c, 'q, 'a) store_op \<Rightarrow> ('c, 'q, 'd, 'a) cluster_op" where
  "on_store m w = (case m (cl_store w) of (r, s) \<Rightarrow> (map_err store_fault r, w\<lparr>cl_store := s\<rparr>))"

definition set_host :: "machine_id \<Rightarrow> 'd \<Rightarrow> ('c, 'q, 'd) cluster \<Rightarrow> ('c, 'q, 'd) cluster" where
  "set_host m d w = w\<lparr>cl_hosts := (cl_hosts w)(m := d)\<rparr>"

definition on_host :: "machine_id \<Rightarrow> ('d, 'e, 'a) action \<Rightarrow> (('c, 'q, 'd) cluster, 'e, 'a) action" where
  "on_host m f w = (case f (cl_hosts w m) of (r, d) \<Rightarrow> (r, set_host m d w))"

definition drop_lock :: "machine_id \<Rightarrow> namespace \<Rightarrow> ('c, 'q, 'd) cluster \<Rightarrow> ('c, 'q, 'd) cluster" where
  "drop_lock m ns w = w\<lparr>cl_locks := (cl_locks w)(m := lock_drop ns (cl_locks w m))\<rparr>"

definition acquire_lock :: "machine_id \<Rightarrow> namespace \<Rightarrow> deploy_id \<Rightarrow> ('c, 'q, 'd, unit) cluster_op" where
  "acquire_lock m ns deploy_id w =
    (case try_acquire ns deploy_id (cl_locks w m) of (r, held) \<Rightarrow> (r, w\<lparr>cl_locks := (cl_locks w)(m := held)\<rparr>))"

section \<open>The agent\<close>

record session_state =
  se_namespace :: namespace
  se_deploy_id :: deploy_id

definition new_runtime :: "('q, 'd) cluster_env \<Rightarrow> machine_id \<Rightarrow> ('c, 'q, 'd, local_deploy_runtime) cluster_op" where
  "new_runtime ce m =
    on_host m (local_deploy_runtime_new (ce_host ce m) (ce_overlay_network ce m) (ce_overlay_dns ce m))"

definition status_record ::
    "('q, 'd) cluster_env \<Rightarrow> machine_id \<Rightarrow> managed_instance \<Rightarrow> namespace \<Rightarrow> instance_phase \<Rightarrow> bool \<Rightarrow>
     drain_state \<Rightarrow> string option \<Rightarrow> ('c, 'q, 'd, instance_status_record) cluster_op" where
  "status_record ce m inst ns phase ready drain error =
    on_host m (\<lambda>d. case to_status_record (ce_host ce m) inst ns phase ready drain error d of (st, d') \<Rightarrow> (Inr st, d'))"

definition adopt_instance ::
    "('q, 'd) cluster_env \<Rightarrow> machine_id \<Rightarrow> namespace \<Rightarrow> string list \<Rightarrow> managed_instance \<Rightarrow> ('c, 'q, 'd, unit) cluster_op" where
  "adopt_instance ce m ns known inst =
    (if instance_id_str (mi_instance_id inst) \<in> set known then ret_act ()
     else bind_act (status_record ce m inst ns Instance_Ready True Drain_None None) (\<lambda>status.
       on_store (upsert_instance_status (ce_notify ce) status)))"

definition adopt_instances ::
    "('q, 'd) cluster_env \<Rightarrow> machine_id \<Rightarrow> namespace \<Rightarrow> ('c, 'q, 'd, unit) cluster_op" where
  "adopt_instances ce m ns =
    bind_act (on_store (list_instance_status ns)) (\<lambda>existing.
    let known = bs_of_list (map (\<lambda>st. instance_id_str (is_instance_id st)) existing) in
    bind_act (on_host m (list_instances (ce_host ce m) ns)) (\<lambda>instances.
    for_each (adopt_instance ce m ns known) instances))"

definition list_local_instance_status ::
    "machine_id \<Rightarrow> namespace \<Rightarrow> ('c, 'q, 'd, instance_status_record list) cluster_op" where
  "list_local_instance_status m ns =
    bind_act (on_store (list_instance_status ns)) (\<lambda>statuses.
      ret_act (filter (\<lambda>st. is_machine_id st = m) statuses))"

definition find_local_instance_status ::
    "machine_id \<Rightarrow> namespace \<Rightarrow> instance_id \<Rightarrow> ('c, 'q, 'd, instance_status_record option) cluster_op" where
  "find_local_instance_status m ns i =
    bind_act (list_local_instance_status m ns) (\<lambda>statuses.
      ret_act (find (\<lambda>st. is_instance_id st = i) statuses))"

definition agent_inspect_namespace ::
    "('q, 'd) cluster_env \<Rightarrow> machine_id \<Rightarrow> namespace \<Rightarrow> ('c, 'q, 'd, instance_status_record list) cluster_op" where
  "agent_inspect_namespace ce m ns w =
    (case new_runtime ce m w of
       (Inr _, w') \<Rightarrow> bind_act (adopt_instances ce m ns) (\<lambda>_. list_local_instance_status m ns) w'
     | (Inl _, w') \<Rightarrow> list_local_instance_status m ns w')"

text \<open>The lock is dropped when the session cannot be opened.\<close>

definition agent_open_session ::
    "('q, 'd) cluster_env \<Rightarrow> machine_id \<Rightarrow> namespace \<Rightarrow> deploy_id \<Rightarrow>
     ('c, 'q, 'd, session_state \<times> instance_status_record list) cluster_op" where
  "agent_open_session ce m ns deploy_id =
    bind_act (acquire_lock m ns deploy_id) (\<lambda>_ w.
      case agent_inspect_namespace ce m ns w of
        (Inl e, w') \<Rightarrow> (Inl e, drop_lock m ns w')
      | (Inr instances, w') \<Rightarrow>
          (Inr (\<lparr> se_namespace = ns, se_deploy_id = deploy_id \<rparr>, instances), w'))"

definition decode_candidate ::
    "('q, 'd) cluster_env \<Rightarrow> string \<Rightarrow> string \<Rightarrow> (ployz_error, service_spec \<times> string) result" where
  "decode_candidate ce service spec_json =
    bind_res (map_err (\<lambda>e. Operation ''start_candidate'' (''decode spec: '' @ e)) (ce_parse_spec ce spec_json)) (\<lambda>spec.
    bind_res (guard_res (ss_name spec = service)
      (Operation ''start_candidate''
        (''spec service '' @ quoted (ss_name spec) @ '' did not match request service '' @ quoted service))) (\<lambda>_.
    bind_res (map_err (\<lambda>e. Operation ''start_candidate'' e) (revision_hash (ce_spec_json ce) spec)) (\<lambda>hash.
    Inr (spec, hash))))"

definition agent_start_candidate ::
    "('q, 'd) cluster_env \<Rightarrow> machine_id \<Rightarrow> session_state \<Rightarrow> string \<Rightarrow> slot_id \<Rightarrow> instance_id \<Rightarrow> deploy_id \<Rightarrow> string \<Rightarrow>
     ('c, 'q, 'd) cluster \<Rightarrow> ((ployz_error, instance_status_record) result \<times> ('c, 'q, 'd) cluster) option" where
  "agent_start_candidate ce m session service slot_id i deploy_id spec_json w =
    (case find_local_instance_status m (se_namespace session) i w of
       (Inl e, w1) \<Rightarrow> Some (Inl e, w1)
     | (Inr (Some existing), w1) \<Rightarrow> Some (Inr existing, w1)
     | (Inr None, w1) \<Rightarrow>
         (case decode_candidate ce service spec_json of
            Inl e \<Rightarrow> Some (Inl e, w1)
          | Inr (spec, hash) \<Rightarrow>
              (case bind_act (new_runtime ce m) (\<lambda>rt. on_host m (runtime_start_candidate (ce_host ce m) rt
                  \<lparr> ca_namespace = se_namespace session, ca_spec = spec, ca_deploy_id = deploy_id,
                    ca_instance_id = i, ca_slot_id = slot_id, ca_machine_id = m, ca_revision_hash = hash \<rparr>)) w1 of
                 (Inl e, w2) \<Rightarrow> Some (Inl e, w2)
               | (Inr inst, w2) \<Rightarrow>
                   (case runtime_wait_ready (ce_host ce m) (ce_duration_str ce) spec inst (cl_hosts w2 m) of
                      None \<Rightarrow> None
                    | Some (Inl e, d) \<Rightarrow> Some (Inl e, set_host m d w2)
                    | Some (Inr _, d) \<Rightarrow>
                        Some (bind_act (status_record ce m inst (se_namespace session) Instance_Ready True Drain_None None) (\<lambda>status.
                          bind_act (on_store (upsert_instance_status (ce_notify ce) status)) (\<lambda>_.
                          ret_act status)) (set_host m d w2))))))"

definition drain_status :: "timestamp \<Rightarrow> instance_status_record \<Rightarrow> instance_status_record" where
  "drain_status now status =
    status\<lparr>is_phase := Instance_Draining, is_ready := False, is_drain_state := Drain_Requested, is_updated_at := now\<rparr>"

definition agent_drain_instance ::
    "('q, 'd) cluster_env \<Rightarrow> machine_id \<Rightarrow> session_state \<Rightarrow> instance_id \<Rightarrow> ('c, 'q, 'd, unit) cluster_op" where
  "agent_drain_instance ce m session i =
    bind_act (find_local_instance_status m (se_namespace session) i) (\<lambda>found.
      case found of
        None \<Rightarrow> ret_act ()
      | Some status \<Rightarrow>
          if is_phase status = Instance_Draining then ret_act ()
          else bind_act (on_host m (\<lambda>d. case ho_now (ce_host ce m) d of (t, d') \<Rightarrow> (Inr t, d'))) (\<lambda>now.
            on_store (upsert_instance_status (ce_notify ce) (drain_status now status))))"

definition agent_remove_instance ::
    "('q, 'd) cluster_env \<Rightarrow> machine_id \<Rightarrow> session_state \<Rightarrow> instance_id \<Rightarrow> ('c, 'q, 'd, unit) cluster_op" where
  "agent_remove_instance ce m session i =
    bind_act (find_local_instance_status m (se_namespace session) i) (\<lambda>found.
      case found of
        None \<Rightarrow> ret_act ()
      | Some status \<Rightarrow>
          bind_act (new_runtime ce m) (\<lambda>_.
          bind_act (on_host m (runtime_remove_instance (ce_host ce m) (is_instance_id status)
            (se_namespace session) (is_service status))) (\<lambda>_.
          on_store (delete_instance_status (ce_notify ce) (is_instance_id status)))))"

section \<open>Remote sessions\<close>

definition map_ok :: "('a \<Rightarrow> 'b) \<Rightarrow> ('e, 'a) result \<times> 'w \<Rightarrow> ('e, 'b) result \<times> 'w" where
  "map_ok f rw = (case rw of (r, w) \<Rightarrow> (map_sum id f r, w))"

definition handle_session_frame_inner ::
    "('q, 'd) cluster_env \<Rightarrow> machine_id \<Rightarrow> session_state \<Rightarrow> deploy_frame \<Rightarrow> ('c, 'q, 'd) cluster \<Rightarrow>
     ((ployz_error, deploy_frame) result \<times> ('c, 'q, 'd) cluster) option" where
  "handle_session_frame_inner ce m session frame w =
    (case frame of
       Frame_Open _ _ _ \<Rightarrow>
         Some (Inl (Operation ''deploy_session'' ''duplicate Open frame on an already-open session''), w)
     | Frame_InspectNamespace \<Rightarrow>
         Some (map_ok Frame_NamespaceSnapshot (agent_inspect_namespace ce m (se_namespace session) w))
     | Frame_StartCandidate service slot i spec_json \<Rightarrow>
         map_option (map_ok Frame_CandidateStarted)
           (agent_start_candidate ce m session service (SlotId slot) (InstanceId i) (se_deploy_id session) spec_json w)
     | Frame_DrainInstance i \<Rightarrow>
         Some (map_ok (\<lambda>_. Frame_Ack ''drained'') (agent_drain_instance ce m session (InstanceId i) w))
     | Frame_RemoveInstance i \<Rightarrow>
         Some (map_ok (\<lambda>_. Frame_Ack ''removed'') (agent_remove_instance ce m session (InstanceId i) w))
     | Frame_Close \<Rightarrow> Some (Inr (Frame_Ack ''session closed''), w)
     | _ \<Rightarrow> Some (Inl (Operation ''deploy_session''
             (''unexpected frame from client: '' @ ce_frame_debug ce frame)), w))"

definition handle_session_frame ::
    "('q, 'd) cluster_env \<Rightarrow> machine_id \<Rightarrow> session_state \<Rightarrow> deploy_frame \<Rightarrow> ('c, 'q, 'd) cluster \<Rightarrow>
     (deploy_frame \<times> ('c, 'q, 'd) cluster) option" where
  "handle_session_frame ce m session frame w =
    map_option (\<lambda>(r, w').
      (case r of Inr response \<Rightarrow> response | Inl e \<Rightarrow> Frame_Error ''DEPLOY_FAILED'' (error_str e), w'))
      (handle_session_frame_inner ce m session frame w)"

text \<open>
  \<open>handle_connection\<close> in two parts: the answer to the first frame, and one turn of the loop. The session
  ends, and its lock is dropped, after the acknowledgement of a close.
\<close>

definition handle_open ::
    "('q, 'd) cluster_env \<Rightarrow> machine_id \<Rightarrow> deploy_frame \<Rightarrow> ('c, 'q, 'd) cluster \<Rightarrow>
     (deploy_frame \<times> session_state option) \<times> ('c, 'q, 'd) cluster" where
  "handle_open ce m frame w =
    (case frame of
       Frame_Open ns deploy_id coordinator \<Rightarrow>
         (case agent_open_session ce m (Namespace ns) (DeployId deploy_id) w of
            (Inr (session, instances), w') \<Rightarrow> ((Frame_Opened instances, Some session), w')
          | (Inl e, w') \<Rightarrow>
              ((Frame_Error ''LOCK_FAILED''
                 (''failed to acquire lock for '' @ quoted ns @ '' from coordinator '' @ quoted coordinator @
                  '': '' @ error_str e), None), w'))
     | _ \<Rightarrow> ((Frame_Error ''PROTOCOL_ERROR'' ''first frame must be Open'', None), w))"

definition closes_session :: "deploy_frame \<Rightarrow> bool" where
  "closes_session response =
    (case response of Frame_Ack message \<Rightarrow> starts_with ''session closed'' message | _ \<Rightarrow> False)"

definition session_turn ::
    "('q, 'd) cluster_env \<Rightarrow> machine_id \<Rightarrow> session_state \<Rightarrow> deploy_frame \<Rightarrow> ('c, 'q, 'd) cluster \<Rightarrow>
     (deploy_frame \<times> ('c, 'q, 'd) cluster) option" where
  "session_turn ce m session frame w =
    map_option (\<lambda>(response, w').
      (response, if closes_session response then drop_lock m (se_namespace session) w' else w'))
      (handle_session_frame ce m session frame w)"

text \<open>The client of a remote session: the machine it was opened for, and the agent that answered.\<close>

datatype deploy_session =
    In_Process_Session machine_id session_state
  | Tcp_Session machine_id machine_id session_state

definition unexpected_response :: "('q, 'd) cluster_env \<Rightarrow> string \<Rightarrow> deploy_frame \<Rightarrow> ployz_error" where
  "unexpected_response ce op response = Operation op (''unexpected response: '' @ ce_frame_debug ce response)"

definition tcp_connect ::
    "('q, 'd) cluster_env \<Rightarrow> machine_record \<Rightarrow> namespace \<Rightarrow> deploy_id \<Rightarrow> machine_id \<Rightarrow>
     ('c, 'q, 'd, deploy_session \<times> instance_status_record list) cluster_op" where
  "tcp_connect ce machine ns deploy_id coordinator w =
    (case ce_connect ce (mr_overlay_ip machine) of
       Inl e \<Rightarrow> (Inl (Operation ''deploy_connect'' e), w)
     | Inr agent \<Rightarrow>
         (case handle_open ce agent
             (Frame_Open (namespace_str ns) (deploy_id_str deploy_id) (machine_id_str coordinator)) w of
            ((Frame_Opened instances, Some session), w') \<Rightarrow>
              (Inr (Tcp_Session (mr_id machine) agent session, instances), w')
          | ((response, _), w') \<Rightarrow>
              (Inl (Operation ''deploy_connect'' (''expected Opened response, got: '' @ ce_frame_debug ce response)), w')))"

definition send_and_recv ::
    "('q, 'd) cluster_env \<Rightarrow> machine_id \<Rightarrow> session_state \<Rightarrow> deploy_frame \<Rightarrow> ('c, 'q, 'd) cluster \<Rightarrow>
     ((ployz_error, deploy_frame) result \<times> ('c, 'q, 'd) cluster) option" where
  "send_and_recv ce agent session frame w =
    map_option (\<lambda>(response, w').
      (case response of
         Frame_Error code message \<Rightarrow> (Inl (Operation ''deploy_session'' (code @ '': '' @ message)), w')
       | _ \<Rightarrow> (Inr response, w'))) (session_turn ce agent session frame w)"

definition expect_ack :: "('q, 'd) cluster_env \<Rightarrow> string \<Rightarrow> deploy_frame \<Rightarrow> (ployz_error, unit) result" where
  "expect_ack ce op response =
    (case response of Frame_Ack _ \<Rightarrow> Inr () | _ \<Rightarrow> Inl (unexpected_response ce op response))"

definition expect_started :: "('q, 'd) cluster_env \<Rightarrow> deploy_frame \<Rightarrow> (ployz_error, instance_status_record) result" where
  "expect_started ce response =
    (case response of
       Frame_CandidateStarted status \<Rightarrow> Inr status
     | _ \<Rightarrow> Inl (unexpected_response ce ''start_candidate'' response))"

definition expect_snapshot :: "('q, 'd) cluster_env \<Rightarrow> deploy_frame \<Rightarrow> (ployz_error, instance_status_record list) result" where
  "expect_snapshot ce response =
    (case response of
       Frame_NamespaceSnapshot instances \<Rightarrow> Inr instances
     | _ \<Rightarrow> Inl (unexpected_response ce ''inspect_namespace'' response))"

definition tcp_request ::
    "('q, 'd) cluster_env \<Rightarrow> machine_id \<Rightarrow> session_state \<Rightarrow> (deploy_frame \<Rightarrow> (ployz_error, 'a) result) \<Rightarrow> deploy_frame \<Rightarrow>
     ('c, 'q, 'd) cluster \<Rightarrow> ((ployz_error, 'a) result \<times> ('c, 'q, 'd) cluster) option" where
  "tcp_request ce agent session expect frame w =
    map_option (\<lambda>(r, w'). (bind_res r expect, w')) (send_and_recv ce agent session frame w)"

section \<open>Sessions\<close>

definition session_open ::
    "('q, 'd) cluster_env \<Rightarrow> machine_id \<Rightarrow> machine_record \<Rightarrow> namespace \<Rightarrow> deploy_id \<Rightarrow> machine_id \<Rightarrow>
     ('c, 'q, 'd, deploy_session \<times> instance_status_record list) cluster_op" where
  "session_open ce local machine ns deploy_id coordinator =
    (if mr_id machine = local
     then bind_act (agent_open_session ce local ns deploy_id) (\<lambda>(state, instances).
       ret_act (In_Process_Session (mr_id machine) state, instances))
     else tcp_connect ce machine ns deploy_id coordinator)"

definition session_inspect ::
    "('q, 'd) cluster_env \<Rightarrow> deploy_session \<Rightarrow> ('c, 'q, 'd) cluster \<Rightarrow>
     ((ployz_error, instance_status_record list) result \<times> ('c, 'q, 'd) cluster) option" where
  "session_inspect ce s w =
    (case s of
       In_Process_Session m state \<Rightarrow> Some (agent_inspect_namespace ce m (se_namespace state) w)
     | Tcp_Session _ agent state \<Rightarrow> tcp_request ce agent state (expect_snapshot ce) Frame_InspectNamespace w)"

definition session_start ::
    "('q, 'd) cluster_env \<Rightarrow> deploy_session \<Rightarrow> start_candidate_request \<Rightarrow> ('c, 'q, 'd) cluster \<Rightarrow>
     ((ployz_error, instance_status_record) result \<times> ('c, 'q, 'd) cluster) option" where
  "session_start ce s rq w =
    (case s of
       In_Process_Session m state \<Rightarrow>
         agent_start_candidate ce m state (sc_service rq) (sc_slot_id rq) (sc_instance_id rq)
           (se_deploy_id state) (sc_spec_json rq) w
     | Tcp_Session _ agent state \<Rightarrow>
         tcp_request ce agent state (expect_started ce)
           (Frame_StartCandidate (sc_service rq) (slot_id_str (sc_slot_id rq))
             (instance_id_str (sc_instance_id rq)) (sc_spec_json rq)) w)"

definition session_drain ::
    "('q, 'd) cluster_env \<Rightarrow> deploy_session \<Rightarrow> instance_id \<Rightarrow> ('c, 'q, 'd) cluster \<Rightarrow>
     ((ployz_error, unit) result \<times> ('c, 'q, 'd) cluster) option" where
  "session_drain ce s i w =
    (case s of
       In_Process_Session m state \<Rightarrow> Some (agent_drain_instance ce m state i w)
     | Tcp_Session _ agent state \<Rightarrow>
         tcp_request ce agent state (expect_ack ce ''drain_instance'') (Frame_DrainInstance (instance_id_str i)) w)"

definition session_remove ::
    "('q, 'd) cluster_env \<Rightarrow> deploy_session \<Rightarrow> instance_id \<Rightarrow> ('c, 'q, 'd) cluster \<Rightarrow>
     ((ployz_error, unit) result \<times> ('c, 'q, 'd) cluster) option" where
  "session_remove ce s i w =
    (case s of
       In_Process_Session m state \<Rightarrow> Some (agent_remove_instance ce m state i w)
     | Tcp_Session _ agent state \<Rightarrow>
         tcp_request ce agent state (expect_ack ce ''remove_instance'') (Frame_RemoveInstance (instance_id_str i)) w)"

text \<open>Dropping a session drops its lock: in the process, or in the agent that sees the end of the stream.\<close>

definition session_drop :: "deploy_session \<Rightarrow> ('c, 'q, 'd) cluster \<Rightarrow> ('c, 'q, 'd) cluster" where
  "session_drop s w =
    (case s of
       In_Process_Session m state \<Rightarrow> drop_lock m (se_namespace state) w
     | Tcp_Session _ agent state \<Rightarrow> drop_lock agent (se_namespace state) w)"

definition session_close ::
    "('q, 'd) cluster_env \<Rightarrow> deploy_session \<Rightarrow> ('c, 'q, 'd) cluster \<Rightarrow>
     ((ployz_error, unit) result \<times> ('c, 'q, 'd) cluster) option" where
  "session_close ce s w =
    (case s of
       In_Process_Session m state \<Rightarrow> Some (Inr (), session_drop s w)
     | Tcp_Session _ agent state \<Rightarrow>
         map_option (\<lambda>(_, w'). (Inr (), w')) (send_and_recv ce agent state Frame_Close w))"

section \<open>The environment of the coordinator\<close>

text \<open>A call that does not return is a failure of the session here; nothing of the coordinator follows it.\<close>

definition returned :: "('w \<Rightarrow> ((ployz_error, 'a) result \<times> 'w) option) \<Rightarrow> ('w, ployz_error, 'a) action" where
  "returned m w = (case m w of Some rw \<Rightarrow> rw | None \<Rightarrow> (Inl (Operation ''deploy_session'' ''no response''), w))"

definition draw_uuid :: "('q, 'd) cluster_env \<Rightarrow> ('c, 'q, 'd) cluster \<Rightarrow> string \<times> ('c, 'q, 'd) cluster" where
  "draw_uuid ce w =
    (ce_uuid ce (cl_draws w) (hm_keys (st_instance_status (cl_store w))), w\<lparr>cl_draws := Suc (cl_draws w)\<rparr>)"

definition cluster_now :: "('q, 'd) cluster_env \<Rightarrow> machine_id \<Rightarrow> ('c, 'q, 'd) cluster \<Rightarrow> timestamp \<times> ('c, 'q, 'd) cluster" where
  "cluster_now ce m w = (case ho_now (ce_host ce m) (cl_hosts w m) of (t, d) \<Rightarrow> (t, set_host m d w))"

definition cluster_deploy_env ::
    "('q, 'd) cluster_env \<Rightarrow> machine_id \<Rightarrow> (('c, 'q, 'd) cluster, deploy_session, ployz_error) deploy_env" where
  "cluster_deploy_env ce local =
    \<lparr> env_now = cluster_now ce local,
      env_new_uuid = draw_uuid ce,
      env_list_machines = on_store list_machines,
      env_list_service_releases = (\<lambda>ns. on_store (list_service_releases ns)),
      env_list_instance_status = (\<lambda>ns. on_store (list_instance_status ns)),
      env_upsert_service_revision = (\<lambda>r. on_store (upsert_service_revision (ce_notify ce) r)),
      env_upsert_instance_status = (\<lambda>r. on_store (upsert_instance_status (ce_notify ce) r)),
      env_upsert_deploy = (\<lambda>r. on_store (upsert_deploy r)),
      env_apply_deploy_commit = (\<lambda>c. on_store (apply_deploy_commit (ce_notify ce) c)),
      env_open = session_open ce local,
      env_start_candidate = (\<lambda>s rq. returned (session_start ce s rq)),
      env_drain_instance = (\<lambda>s i. returned (session_drain ce s i)),
      env_remove_instance = (\<lambda>s i. returned (session_remove ce s i)),
      env_close = (\<lambda>s. returned (session_close ce s)),
      env_drop = session_drop,
      env_error_str = error_str,
      env_manifest_json = ce_manifest_json ce,
      env_spec_json = ce_spec_json ce,
      env_preview_json = ce_preview_json ce \<rparr>"

section \<open>Specification\<close>

definition serving_ids :: "('c, 'q) store_inner \<Rightarrow> instance_id set" where
  "serving_ids s = {i. \<exists>st. hm_get (st_instance_status s) i = Some st \<and> serving_status st}"

definition held :: "('c, 'q, 'd) cluster \<Rightarrow> (machine_id \<times> namespace) set" where
  "held w = {(m, ns). hm_get (cl_locks w m) (namespace_str ns) \<noteq> None}"

text \<open>The table of releases, the held locks, and instances that serve.\<close>

definition cluster_at ::
    "release_table \<Rightarrow> (machine_id \<times> namespace) set \<Rightarrow> instance_id set \<Rightarrow> ('c, 'q, 'd) cluster \<Rightarrow> bool" where
  "cluster_at R L S w \<longleftrightarrow> store_wf (cl_store w) \<and> hm_get (st_service_releases (cl_store w)) = R \<and> held w = L \<and>
    S \<subseteq> serving_ids (cl_store w)"

definition unused_id :: "instance_id \<Rightarrow> ('c, 'q, 'd) cluster \<Rightarrow> bool" where
  "unused_id i w \<longleftrightarrow> hm_get (st_instance_status (cl_store w)) i = None"

primrec session_lock :: "deploy_session \<Rightarrow> machine_id \<times> namespace" where
  "session_lock (In_Process_Session m state) = (m, se_namespace state)"
| "session_lock (Tcp_Session _ agent state) = (agent, se_namespace state)"

definition remote_error :: "ployz_error \<Rightarrow> ployz_error" where
  "remote_error e = Operation ''deploy_session'' (''DEPLOY_FAILED'' @ '': '' @ error_str e)"

section \<open>A remote session does what a local one does\<close>

definition through_wire ::
    "((ployz_error, 'a) result \<times> 'w) option \<Rightarrow> ((ployz_error, 'a) result \<times> 'w) option" where
  "through_wire = map_option (\<lambda>(r, w). (map_err remote_error r, w))"

lemmas wire_defs = tcp_request_def send_and_recv_def session_turn_def handle_session_frame_def
  handle_session_frame_inner_def closes_session_def map_ok_def starts_with_def

lemma session_remote_start:
  "session_start ce (Tcp_Session m agent state) rq w = through_wire (session_start ce (In_Process_Session agent state) rq w)"
proof (cases "session_start ce (In_Process_Session agent state) rq w")
  case None
  then show ?thesis
    by (cases "sc_slot_id rq"; cases "sc_instance_id rq") (simp_all add: session_start_def wire_defs through_wire_def)
next
  case (Some rw)
  then show ?thesis
    by (cases rw; cases "fst rw"; cases "sc_slot_id rq"; cases "sc_instance_id rq")
      (simp_all add: session_start_def wire_defs through_wire_def expect_started_def remote_error_def)
qed

lemma session_remote_inspect:
  "session_inspect ce (Tcp_Session m agent state) w = through_wire (session_inspect ce (In_Process_Session agent state) w)"
  by (cases "agent_inspect_namespace ce agent (se_namespace state) w"; cases "fst (agent_inspect_namespace ce agent (se_namespace state) w)")
    (simp_all add: session_inspect_def wire_defs through_wire_def expect_snapshot_def remote_error_def)

lemma session_remote_drain:
  "session_drain ce (Tcp_Session m agent state) i w = through_wire (session_drain ce (In_Process_Session agent state) i w)"
  by (cases i; cases "agent_drain_instance ce agent state i w"; cases "fst (agent_drain_instance ce agent state i w)")
    (simp_all add: session_drain_def wire_defs through_wire_def expect_ack_def remote_error_def)

lemma session_remote_remove:
  "session_remove ce (Tcp_Session m agent state) i w = through_wire (session_remove ce (In_Process_Session agent state) i w)"
  by (cases i; cases "agent_remove_instance ce agent state i w"; cases "fst (agent_remove_instance ce agent state i w)")
    (simp_all add: session_remove_def wire_defs through_wire_def expect_ack_def remote_error_def)

lemma session_remote_close:
  "session_close ce (Tcp_Session m agent state) w = session_close ce (In_Process_Session agent state) w"
  by (simp add: session_close_def wire_defs session_drop_def)

lemmas session_remote = session_remote_start session_remote_inspect session_remote_drain session_remote_remove
  session_remote_close

lemma session_open_local:
  "session_open ce local machine ns deploy_id coordinator =
    bind_act (agent_open_session ce local ns deploy_id) (\<lambda>(state, instances).
      ret_act (In_Process_Session local state, instances))" if "mr_id machine = local"
  using that by (simp add: session_open_def)

lemma session_open_remote:
  "session_open ce local machine ns deploy_id coordinator w =
    (case ce_connect ce (mr_overlay_ip machine) of
       Inl e \<Rightarrow> (Inl (Operation ''deploy_connect'' e), w)
     | Inr agent \<Rightarrow>
         (case agent_open_session ce agent ns deploy_id w of
            (Inr a, w') \<Rightarrow> (Inr (Tcp_Session (mr_id machine) agent (fst a), snd a), w')
          | (Inl e, w') \<Rightarrow> (Inl (Operation ''deploy_connect'' (''expected Opened response, got: '' @ ce_frame_debug ce
              (Frame_Error ''LOCK_FAILED'' (''failed to acquire lock for '' @ quoted (namespace_str ns) @
                '' from coordinator '' @ quoted (machine_id_str coordinator) @ '': '' @ error_str e)))), w')))"
  if "mr_id machine \<noteq> local"
  using that by (cases ns; cases deploy_id)
    (auto simp: session_open_def tcp_connect_def handle_open_def split: sum.split prod.split)


section \<open>The laws of the cluster\<close>

lemma quiet_bind: "quiet at m \<Longrightarrow> (\<And>a. quiet at (f a)) \<Longrightarrow> quiet at (bind_act m f)"
  unfolding quiet_def by (blast intro: hoare_bind)

lemma quiet_ret: "quiet at (ret_act a)"
  by (simp add: quiet_def hoare_ret)

lemma quiet_for_each: "(\<And>x. quiet at (f x)) \<Longrightarrow> quiet at (for_each f xs)"
  by (induction xs) (simp_all add: quiet_ret quiet_bind)

lemma quietI: "(\<And>R L S w r w'. at R L S w \<Longrightarrow> m w = (r, w') \<Longrightarrow> at R L S w') \<Longrightarrow> quiet at m"
  unfolding quiet_def by (blast intro: hoareI)

lemma quiet_step: "quiet at m \<Longrightarrow> at R L S w \<Longrightarrow> m w = (r, w') \<Longrightarrow> at R L S w'"
  by (cases r) (auto simp: quiet_def dest: hoare_Inr hoare_Inl)

lemma cluster_at_set_host [simp]: "cluster_at R L S (set_host m d w) = cluster_at R L S w"
  by (simp add: cluster_at_def held_def set_host_def)

lemma cluster_at_draw [simp]: "cluster_at R L S (w\<lparr>cl_draws := n\<rparr>) = cluster_at R L S w"
  by (simp add: cluster_at_def held_def)

lemma unused_set_host [simp]: "unused_id i (set_host m d w) = unused_id i w"
  by (simp add: unused_id_def set_host_def)

lemma on_host_run: "on_host m f w = (r, w') \<Longrightarrow> \<exists>d. w' = set_host m d w"
  by (auto simp: on_host_def split: prod.splits)

lemma quiet_on_host: "quiet cluster_at (on_host m f)"
  unfolding quiet_def by (auto intro!: hoareI dest!: on_host_run)

lemma on_store_read: "(\<And>s. snd (m s) = s) \<Longrightarrow> on_store m w = (r, w') \<Longrightarrow> w' = w"
  by (cases "m (cl_store w)") (auto simp: on_store_def, metis cluster.surjective cluster.update_convs(1) snd_conv)

lemma quiet_store_read: "(\<And>s. snd (m s) = s) \<Longrightarrow> quiet cluster_at (on_store m)"
  unfolding quiet_def by (auto intro!: hoareI dest!: on_store_read[rotated])

lemma on_store_update:
  assumes ok: "\<And>s. fst (m s) = Inr ()"
    and eff: "\<And>s. store_wf s \<Longrightarrow> hm_get (st_service_releases s) = R \<Longrightarrow> S \<subseteq> serving_ids s \<Longrightarrow>
      store_wf (snd (m s)) \<and> hm_get (st_service_releases (snd (m s))) = R' \<and> S' \<subseteq> serving_ids (snd (m s))"
  shows "hoare (cluster_at R L S) (on_store m) (\<lambda>_. cluster_at R' L S') E"
proof -
  have run: "on_store m w = (Inr (), w\<lparr>cl_store := snd (m (cl_store w))\<rparr>)" for w
    using ok[of "cl_store w"] by (cases "m (cl_store w)") (simp add: on_store_def)
  show ?thesis using eff by (auto simp: hoare_def run cluster_at_def held_def)
qed

lemma status_ops_releases [simp]:
  "st_service_releases (snd (upsert_instance_status g st s)) = st_service_releases s"
  "st_service_releases (snd (delete_instance_status g i s)) = st_service_releases s"
  "st_service_releases (snd (upsert_service_revision g rv s)) = st_service_releases s"
  "st_service_releases (snd (upsert_deploy d s)) = st_service_releases s"
  "serving_ids (snd (upsert_service_revision g rv s)) = serving_ids s"
  "serving_ids (snd (upsert_deploy d s)) = serving_ids s"
  "serving_ids (snd (apply_deploy_commit g c s)) = serving_ids s"
  by (simp_all add: upsert_instance_status_def delete_instance_status_def upsert_service_revision_def upsert_deploy_def
      apply_deploy_commit_def Let_def serving_ids_def)

lemma deploy_ops_succeed [simp]:
  "fst (upsert_instance_status g st s) = Inr ()" "fst (delete_instance_status g i s) = Inr ()"
  "fst (upsert_service_revision g rv s) = Inr ()" "fst (upsert_deploy d s) = Inr ()"
  "fst (apply_deploy_commit g c s) = Inr ()"
  by (simp_all add: upsert_instance_status_def delete_instance_status_def upsert_service_revision_def upsert_deploy_def
      apply_deploy_commit_def Let_def)

lemma upsert_status_serving_ids:
  "serving_ids (snd (upsert_instance_status g st s)) =
    (if serving_status st then insert (is_instance_id st) (serving_ids s) else serving_ids s - {is_instance_id st})"
  by (auto simp: serving_ids_def upsert_instance_status_def update_conv' split: if_splits)

lemma upsert_status_law:
  "hoare (cluster_at R L S) (on_store (upsert_instance_status g st))
    (\<lambda>_. cluster_at R L (if serving_status st then insert (is_instance_id st) S else S - {is_instance_id st})) E"
  by (rule on_store_update) (auto simp: store_wf_deploy_ops upsert_status_serving_ids)

lemma delete_status_law:
  "hoare (cluster_at R L S) (on_store (delete_instance_status g i)) (\<lambda>_. cluster_at R L (S - {i})) E"
proof (rule on_store_update)
  fix s :: "('a, 'b) store_inner"
  assume "S \<subseteq> serving_ids s" "store_wf s" "hm_get (st_service_releases s) = R"
  moreover have "serving_ids (snd (delete_instance_status g i s)) = serving_ids s - {i}"
    by (auto simp: serving_ids_def delete_instance_status_def delete_conv')
  ultimately show "store_wf (snd (delete_instance_status g i s)) \<and>
      hm_get (st_service_releases (snd (delete_instance_status g i s))) = R \<and>
      S - {i} \<subseteq> serving_ids (snd (delete_instance_status g i s))"
    by (auto simp: store_wf_deploy_ops)
qed simp

lemma quiet_upsert_serving: "serving_status st \<Longrightarrow> quiet cluster_at (on_store (upsert_instance_status g st))"
  unfolding quiet_def by (auto intro!: hoare_post[OF upsert_status_law] simp: cluster_at_def)

lemma quiet_status_record: "quiet cluster_at (status_record ce m inst ns phase ready drain error)"
  unfolding status_record_def by (rule quiet_on_host)

lemma status_record_value:
  "status_record ce m inst ns phase ready drain error w = (r, w') \<Longrightarrow>
    \<exists>st. r = Inr st \<and> is_instance_id st = mi_instance_id inst \<and> is_phase st = phase \<and> is_ready st = ready \<and>
      is_drain_state st = drain"
  by (auto simp: status_record_def on_host_def to_status_record_def split: prod.splits)

lemma status_record_serving:
  "hoare (cluster_at R L S) (status_record ce m inst ns Instance_Ready True Drain_None error)
    (\<lambda>st w. serving_status st \<and> is_instance_id st = mi_instance_id inst \<and> cluster_at R L S w) (cluster_at R L S)"
  using quiet_step[OF quiet_status_record] status_record_value
  by (intro hoareI) (fastforce simp: serving_status_def)+

lemma quiet_list_local: "quiet cluster_at (list_local_instance_status m ns)"
  unfolding list_local_instance_status_def
  by (intro quiet_bind quiet_ret quiet_store_read) (simp add: list_instance_status_def)

lemma quiet_find_local: "quiet cluster_at (find_local_instance_status m ns i)"
  unfolding find_local_instance_status_def by (intro quiet_bind quiet_ret quiet_list_local)

lemma quiet_new_runtime: "quiet cluster_at (new_runtime ce m)"
  unfolding new_runtime_def by (rule quiet_on_host)

lemma quiet_adopt_instance: "quiet cluster_at (adopt_instance ce m ns known inst)"
proof (cases "instance_id_str (mi_instance_id inst) \<in> set known")
  case False
  show ?thesis unfolding quiet_def
  proof (intro allI)
    fix R L S
    show "hoare (cluster_at R L S) (adopt_instance ce m ns known inst) (\<lambda>_. cluster_at R L S) (cluster_at R L S)"
      using False unfolding adopt_instance_def
      by (simp, intro hoare_bind[OF status_record_serving])
        (rule hoare_pure[where C = "serving_status _"], blast,
         rule hoare_pre[OF hoare_quiet[OF quiet_upsert_serving]], auto)
  qed
qed (simp add: adopt_instance_def quiet_ret)

lemma quiet_adopt_instances: "quiet cluster_at (adopt_instances ce m ns)"
  unfolding adopt_instances_def Let_def
  by (intro quiet_bind quiet_on_host quiet_for_each quiet_adopt_instance quiet_store_read)
    (simp add: list_instance_status_def)

lemma quiet_inspect: "quiet cluster_at (agent_inspect_namespace ce m ns)"
proof (rule quietI)
  fix R L S w r w'
  assume at: "cluster_at R L S w" and run: "agent_inspect_namespace ce m ns w = (r, w')"
  obtain q w1 where q: "new_runtime ce m w = (q, w1)" by (cases "new_runtime ce m w")
  have w1: "cluster_at R L S w1" by (rule quiet_step[OF quiet_new_runtime at q])
  have "quiet cluster_at (bind_act (adopt_instances ce m ns) (\<lambda>_. list_local_instance_status m ns))"
    by (intro quiet_bind quiet_adopt_instances quiet_list_local)
  from quiet_step[OF this w1] quiet_step[OF quiet_list_local w1] show "cluster_at R L S w'"
    using run q by (cases q) (auto simp: agent_inspect_namespace_def)
qed

lemma held_drop: "held (drop_lock m ns w) = held w - {(m, ns)}"
proof -
  have "namespace_str a = namespace_str b \<longleftrightarrow> a = b" for a b by (cases a; cases b) simp
  then show ?thesis by (auto simp: held_def drop_lock_def lock_drop_def delete_conv' split: if_splits)
qed

lemma held_acquire:
  "acquire_lock m ns deploy_id w = (Inr (), w') \<Longrightarrow> (m, ns) \<notin> held w \<and> held w' = insert (m, ns) (held w)"
proof -
  have "namespace_str a = namespace_str b \<longleftrightarrow> a = b" for a b by (cases a; cases b) simp
  then show "acquire_lock m ns deploy_id w = (Inr (), w') \<Longrightarrow> (m, ns) \<notin> held w \<and> held w' = insert (m, ns) (held w)"
    by (auto simp: held_def acquire_lock_def try_acquire_def update_conv' split: option.splits if_splits)
qed

lemma acquire_fails: "acquire_lock m ns deploy_id w = (Inl e, w') \<Longrightarrow> w' = w"
  by (auto simp: acquire_lock_def try_acquire_def split: option.splits)

lemma cluster_at_drop: "cluster_at R L S w \<Longrightarrow> cluster_at R (L - {(m, ns)}) S (drop_lock m ns w)"
  using held_drop[of m ns w] by (auto simp: cluster_at_def drop_lock_def)

lemma cluster_at_acquire:
  assumes "cluster_at R L S w" and "acquire_lock m ns deploy_id w = (Inr (), w')"
  shows "(m, ns) \<notin> L \<and> cluster_at R (insert (m, ns) L) S w'"
proof -
  have "cl_store w' = cl_store w"
    using assms(2) by (auto simp: acquire_lock_def split: prod.splits)
  then show ?thesis using assms held_acquire[OF assms(2)] by (simp add: cluster_at_def)
qed

lemma open_session_law:
  "hoare (cluster_at R L S) (agent_open_session ce m ns deploy_id)
    (\<lambda>a w. se_namespace (fst a) = ns \<and> (m, ns) \<notin> L \<and> cluster_at R (insert (m, ns) L) S w) (cluster_at R L S)"
proof (rule hoareI)
  fix w a w'
  assume at: "cluster_at R L S w" and run: "agent_open_session ce m ns deploy_id w = (Inr a, w')"
  then obtain w1 where w1: "acquire_lock m ns deploy_id w = (Inr (), w1)"
    and rest: "(case agent_inspect_namespace ce m ns w1 of
        (Inl e, w') \<Rightarrow> (Inl e, drop_lock m ns w')
      | (Inr instances, w') \<Rightarrow> (Inr (\<lparr> se_namespace = ns, se_deploy_id = deploy_id \<rparr>, instances), w')) = (Inr a, w')"
    unfolding agent_open_session_def bind_act_Inr by auto
  obtain q w2 where q: "agent_inspect_namespace ce m ns w1 = (q, w2)" by (cases "agent_inspect_namespace ce m ns w1")
  then have "\<exists>instances. agent_inspect_namespace ce m ns w1 = (Inr instances, w') \<and>
      a = (\<lparr> se_namespace = ns, se_deploy_id = deploy_id \<rparr>, instances)"
    using rest by (cases q) auto
  with w1 show "se_namespace (fst a) = ns \<and> (m, ns) \<notin> L \<and> cluster_at R (insert (m, ns) L) S w'"
    using cluster_at_acquire[OF at] quiet_step[OF quiet_inspect] by fastforce
next
  fix w e w'
  assume at: "cluster_at R L S w" and run: "agent_open_session ce m ns deploy_id w = (Inl e, w')"
  then consider (locked) "acquire_lock m ns deploy_id w = (Inl e, w')" | (failed) w1 where
    "acquire_lock m ns deploy_id w = (Inr (), w1)" "(case agent_inspect_namespace ce m ns w1 of
        (Inl e, w') \<Rightarrow> (Inl e, drop_lock m ns w')
      | (Inr instances, w') \<Rightarrow> (Inr (\<lparr> se_namespace = ns, se_deploy_id = deploy_id \<rparr>, instances), w')) = (Inl e, w')"
    unfolding agent_open_session_def bind_act_Inl by auto
  then show "cluster_at R L S w'"
  proof cases
    case locked
    then show ?thesis using at acquire_fails by metis
  next
    case failed
    obtain q w2 where q: "agent_inspect_namespace ce m ns w1 = (q, w2)" by (cases "agent_inspect_namespace ce m ns w1")
    then have "w' = drop_lock m ns w2" using failed(2) by (cases q) auto
    moreover have "(m, ns) \<notin> L" "cluster_at R (insert (m, ns) L) S w2"
      using cluster_at_acquire[OF at failed(1)] quiet_step[OF quiet_inspect _ q] by blast+
    ultimately show ?thesis using cluster_at_drop[of R "insert (m, ns) L" S w2 m ns] by simp
  qed
qed

lemma find_local_None:
  assumes at: "cluster_at R L S w" and unused: "unused_id i w" and run: "find_local_instance_status m ns i w = (r, w')"
  shows "r = Inr None \<and> w' = w"
proof -
  have "hm_keyed is_instance_id (st_instance_status (cl_store w))" using at by (simp add: cluster_at_def store_wf_def)
  then have "is_instance_id st \<noteq> i" if "st \<in> set (hm_values (st_instance_status (cl_store w)))" for st
    using hm_keyed_values[of is_instance_id "st_instance_status (cl_store w)" st] that unused by (auto simp: unused_id_def)
  then have "find (\<lambda>st. is_instance_id st = i) (filter p (filter q (hm_values (st_instance_status (cl_store w))))) = None" for p q
    by (auto simp: find_None_iff)
  then show ?thesis using run
    by (auto simp: find_local_instance_status_def list_local_instance_status_def on_store_def list_instance_status_def
      bind_act_def ret_act_def)
qed

lemma find_local_Some:
  "find_local_instance_status m ns i w = (Inr (Some st), w') \<Longrightarrow> is_instance_id st = i"
  by (auto simp: find_local_instance_status_def bind_act_Inr ret_act_def find_Some_iff)

lemma runtime_start_instance:
  "runtime_start_candidate host rt ca d = (Inr inst, d') \<Longrightarrow> mi_instance_id inst = ca_instance_id ca"
  by (auto simp: runtime_start_candidate_def bind_act_Inr lift_res_def ret_act_def)

lemma start_law:
  fixes w :: "('c, 'q, 'd) cluster"
  assumes at: "cluster_at R L S w" and unused: "unused_id i w"
    and run: "agent_start_candidate ce m session service slot i did json w = Some (r, w')"
  shows "case r of Inl _ \<Rightarrow> cluster_at R L S w'
    | Inr st \<Rightarrow> serving_status st \<and> cluster_at R L (insert (is_instance_id st) S) w'"
proof -
  have find: "find_local_instance_status m (se_namespace session) i w = (Inr None, w)"
    using find_local_None[OF at unused] by (metis surj_pair)
  show ?thesis
  proof (cases "decode_candidate ce service json")
    case (Inl e)
    then show ?thesis using run find at by (auto simp: agent_start_candidate_def)
  next
    case (Inr sh)
    define start :: "('c, 'q, 'd, managed_instance) cluster_op" where "start = bind_act (new_runtime ce m) (\<lambda>rt. on_host m (runtime_start_candidate (ce_host ce m) rt
      \<lparr> ca_namespace = se_namespace session, ca_spec = fst sh, ca_deploy_id = did,
        ca_instance_id = i, ca_slot_id = slot, ca_machine_id = m, ca_revision_hash = snd sh \<rparr>))"
    obtain q w2 where q: "start w = (q, w2)" by (cases "start w")
    have "quiet cluster_at start" unfolding start_def by (intro quiet_bind quiet_new_runtime quiet_on_host)
    from quiet_step[OF this at q] have w2: "cluster_at R L S w2" .
    show ?thesis
    proof (cases q)
      case (Inl e)
      then show ?thesis using run find Inr q w2
        by (cases sh) (auto simp: agent_start_candidate_def start_def)
    next
      case (Inr inst)
      obtain r' d where wait: "runtime_wait_ready (ce_host ce m) (ce_duration_str ce) (fst sh) inst (cl_hosts w2 m) = Some (r', d)"
        and rest: "(case r' of Inl e \<Rightarrow> (Inl e, set_host m d w2)
          | Inr _ \<Rightarrow> bind_act (status_record ce m inst (se_namespace session) Instance_Ready True Drain_None None) (\<lambda>status.
              bind_act (on_store (upsert_instance_status (ce_notify ce) status)) (\<lambda>_. ret_act status)) (set_host m d w2)) = (r, w')"
        using run find \<open>decode_candidate ce service json = Inr sh\<close> q[unfolded start_def] Inr
        by (cases sh) (auto simp: agent_start_candidate_def split: option.splits prod.splits sum.splits)
      define finish :: "('c, 'q, 'd, instance_status_record) cluster_op" where "finish = bind_act (status_record ce m inst (se_namespace session) Instance_Ready True Drain_None None) (\<lambda>status.
              bind_act (on_store (upsert_instance_status (ce_notify ce) status)) (\<lambda>_. ret_act status))"
      have "hoare (cluster_at R L S) finish (\<lambda>st w. serving_status st \<and> cluster_at R L (insert (is_instance_id st) S) w) (cluster_at R L S)"
        unfolding finish_def
        by (rule hoare_bind[OF status_record_serving], rule hoare_pure[where C = "serving_status _"], blast,
          rule hoare_bind[OF hoare_pre[OF upsert_status_law]], auto intro: hoare_ret)
      from hoare_Inr[OF this, of "set_host m d w2"] hoare_Inl[OF this, of "set_host m d w2"] show ?thesis
        using rest w2 by (cases r; cases r') (auto simp: finish_def)
    qed
  qed
qed

lemma cluster_at_mono: "cluster_at R L S w \<Longrightarrow> S' \<subseteq> S \<Longrightarrow> cluster_at R L S' w"
  by (auto simp: cluster_at_def)

lemma quiet_weaken: "quiet cluster_at m \<Longrightarrow> hoare (cluster_at R L S) m (\<lambda>_. cluster_at R L (S - X)) (cluster_at R L (S - X))"
  by (rule hoare_conseq[OF hoare_quiet]) (auto intro: cluster_at_mono)

lemma find_local_law:
  "hoare (cluster_at R L S) (find_local_instance_status m ns i)
    (\<lambda>found w. (\<forall>st. found = Some st \<longrightarrow> is_instance_id st = i) \<and> cluster_at R L S w) (cluster_at R L S)"
  using quiet_step[OF quiet_find_local] find_local_Some by (intro hoareI) blast+

lemma found_law:
  assumes "\<And>st. is_instance_id st = i \<Longrightarrow>
      hoare (cluster_at R L S) (f st) (\<lambda>_. cluster_at R L (S - {i})) (cluster_at R L (S - {i}))"
  shows "hoare (cluster_at R L S)
    (bind_act (find_local_instance_status m ns i) (\<lambda>found. case found of None \<Rightarrow> ret_act () | Some st \<Rightarrow> f st))
    (\<lambda>_. cluster_at R L (S - {i})) (cluster_at R L (S - {i}))"
proof (rule hoare_bind_weak[OF find_local_law])
  fix found
  show "hoare (\<lambda>w. (\<forall>st. found = Some st \<longrightarrow> is_instance_id st = i) \<and> cluster_at R L S w)
      (case found of None \<Rightarrow> ret_act () | Some st \<Rightarrow> f st) (\<lambda>_. cluster_at R L (S - {i})) (cluster_at R L (S - {i}))"
  proof (cases found)
    case None
    then show ?thesis by (auto intro!: hoare_ret elim: cluster_at_mono)
  next
    case (Some st)
    show ?thesis
    proof (rule hoare_pure[where C = "is_instance_id st = i"])
      assume "is_instance_id st = i"
      from assms[OF this] show "hoare (\<lambda>w. (\<forall>st. found = Some st \<longrightarrow> is_instance_id st = i) \<and> cluster_at R L S w)
          (case found of None \<Rightarrow> ret_act () | Some st \<Rightarrow> f st) (\<lambda>_. cluster_at R L (S - {i})) (cluster_at R L (S - {i}))"
        unfolding Some by (auto elim: hoare_pre)
    qed (simp add: Some)
  qed
qed (auto elim: cluster_at_mono)

lemma drain_law:
  "hoare (cluster_at R L S) (agent_drain_instance ce m session i)
    (\<lambda>_. cluster_at R L (S - {i})) (cluster_at R L (S - {i}))"
  unfolding agent_drain_instance_def
proof (rule found_law)
  fix st :: instance_status_record
  assume i: "is_instance_id st = i"
  have "hoare (cluster_at R L S) (on_store (upsert_instance_status (ce_notify ce) (drain_status now st)))
      (\<lambda>_. cluster_at R L (S - {i})) (cluster_at R L (S - {i}))" for now
    using upsert_status_law[of R L S "ce_notify ce" "drain_status now st"] i
    by (simp add: drain_status_def serving_status_def)
  then have "hoare (cluster_at R L S)
      (bind_act (on_host m (\<lambda>d. case ho_now (ce_host ce m) d of (t, d') \<Rightarrow> (Inr t, d'))) (\<lambda>now.
        on_store (upsert_instance_status (ce_notify ce) (drain_status now st))))
      (\<lambda>_. cluster_at R L (S - {i})) (cluster_at R L (S - {i}))"
    by (rule hoare_bind_quiet[OF quiet_on_host]) (auto elim: cluster_at_mono)
  then show "hoare (cluster_at R L S)
      (if is_phase st = Instance_Draining then ret_act ()
       else bind_act (on_host m (\<lambda>d. case ho_now (ce_host ce m) d of (t, d') \<Rightarrow> (Inr t, d'))) (\<lambda>now.
         on_store (upsert_instance_status (ce_notify ce) (drain_status now st))))
      (\<lambda>_. cluster_at R L (S - {i})) (cluster_at R L (S - {i}))"
    by (auto intro!: hoare_ret elim: cluster_at_mono)
qed

lemma remove_law:
  "hoare (cluster_at R L S) (agent_remove_instance ce m session i)
    (\<lambda>_. cluster_at R L (S - {i})) (cluster_at R L (S - {i}))"
  unfolding agent_remove_instance_def
proof (rule found_law)
  fix st :: instance_status_record
  assume "is_instance_id st = i"
  then show "hoare (cluster_at R L S)
      (bind_act (new_runtime ce m) (\<lambda>_.
       bind_act (on_host m (runtime_remove_instance (ce_host ce m) (is_instance_id st) (se_namespace session) (is_service st))) (\<lambda>_.
       on_store (delete_instance_status (ce_notify ce) (is_instance_id st)))))
      (\<lambda>_. cluster_at R L (S - {i})) (cluster_at R L (S - {i}))"
    by (simp, intro hoare_bind_quiet quiet_new_runtime quiet_on_host delete_status_law) (auto elim: cluster_at_mono)
qed

section \<open>The coordinator on the cluster\<close>

text \<open>Session calls of either kind: the outcome of the call in the process of the agent.\<close>

lemma returned_wire:
  "returned (\<lambda>w. through_wire (m w)) w = (r, w') \<Longrightarrow>
    (\<exists>r'. m w = Some (r', w') \<and> r = map_err remote_error r') \<or> (m w = None \<and> w' = w \<and> (\<exists>e. r = Inl e))"
  by (auto simp: returned_def through_wire_def split: option.splits)

lemma returned_run:
  "returned m w = (r, w') \<Longrightarrow> m w = Some (r, w') \<or> (m w = None \<and> w' = w \<and> (\<exists>e. r = Inl e))"
  by (auto simp: returned_def split: option.splits)

lemma local_start_law:
  assumes "cluster_at R L S w" and "unused_id (sc_instance_id rq) w"
    and "session_start ce (In_Process_Session m state) rq w = Some (r, w')"
  shows "case r of Inl _ \<Rightarrow> cluster_at R L S w'
    | Inr st \<Rightarrow> serving_status st \<and> cluster_at R L (insert (is_instance_id st) S) w'"
  using start_law[OF assms(1,2)] assms(3) by (simp add: session_start_def)

lemma session_start_run:
  assumes at: "cluster_at R L S w" "unused_id (sc_instance_id rq) w"
    and run: "returned (session_start ce s rq) w = (r, w')"
  shows "case r of Inl _ \<Rightarrow> cluster_at R L S w'
    | Inr st \<Rightarrow> serving_status st \<and> cluster_at R L (insert (is_instance_id st) S) w'"
proof (cases s)
  case (In_Process_Session m state)
  from returned_run[OF run] consider "session_start ce s rq w = Some (r, w')" | "w' = w" "\<exists>e. r = Inl e" by blast
  then show ?thesis by cases (use local_start_law[OF at] at In_Process_Session in auto)
next
  case (Tcp_Session m agent state)
  have "returned (\<lambda>w. through_wire (session_start ce (In_Process_Session agent state) rq w)) w = (r, w')"
    using run by (simp add: Tcp_Session returned_def session_remote_start)
  from returned_wire[OF this] consider r' where "session_start ce (In_Process_Session agent state) rq w = Some (r', w')"
      "r = map_err remote_error r'" | "w' = w" "\<exists>e. r = Inl e" by blast
  then show ?thesis
  proof cases
    case 1
    then show ?thesis using local_start_law[OF at 1(1)] by (cases r') simp_all
  next
    case 2
    then show ?thesis using at by auto
  qed
qed

lemma session_start_law:
  "hoare (\<lambda>w. cluster_at R L S w \<and> unused_id (sc_instance_id rq) w) (returned (session_start ce s rq))
    (\<lambda>st w. serving_status st \<and> cluster_at R L (insert (is_instance_id st) S) w) (cluster_at R L S)"
proof (rule hoareI; elim conjE)
  fix w st w'
  assume "cluster_at R L S w" "unused_id (sc_instance_id rq) w" "returned (session_start ce s rq) w = (Inr st, w')"
  from session_start_run[OF this] show "serving_status st \<and> cluster_at R L (insert (is_instance_id st) S) w'" by simp
next
  fix w e w'
  assume "cluster_at R L S w" "unused_id (sc_instance_id rq) w" "returned (session_start ce s rq) w = (Inl e, w')"
  from session_start_run[OF this] show "cluster_at R L S w'" by simp
qed

lemma session_keep_law:
  assumes local: "\<And>m state w. session_op (In_Process_Session m state) w = Some (agent_op m state w)"
    and wire: "\<And>m agent state w. session_op (Tcp_Session m agent state) w = through_wire (session_op (In_Process_Session agent state) w)"
    and law: "\<And>m state. hoare P (agent_op m state) (\<lambda>_. Q) Q"
  shows "hoare P (returned (session_op s)) (\<lambda>_. Q) Q"
proof -
  have run: "\<exists>m state r'. agent_op m state w = (r', w')" if ret: "returned (session_op s) w = (r, w')" for w r w'
  proof (cases s)
    case (In_Process_Session m state)
    then show ?thesis using ret local[of m state w] by (auto simp: returned_def)
  next
    case (Tcp_Session m agent state)
    then show ?thesis using ret local[of agent state w] wire[of m agent state w]
      by (cases "agent_op agent state w") (auto simp: returned_def through_wire_def)
  qed
  have "Q w'" if "P w" "agent_op m state w = (r', w')" for w m state r' w'
    using that hoare_Inr[OF law] hoare_Inl[OF law] by (cases r') blast+
  then show ?thesis using run by (intro hoareI) blast+
qed

lemma session_open_run:
  assumes "session_open ce local machine ns d coordinator w = (r, w')"
  shows "(\<exists>m a. agent_open_session ce m ns d w = (Inr a, w') \<and> (\<exists>s. r = Inr s \<and> session_lock (fst s) = (m, se_namespace (fst a)))) \<or>
    (\<exists>e. r = Inl e) \<and> (w' = w \<or> (\<exists>m e'. agent_open_session ce m ns d w = (Inl e', w')))"
proof (cases "mr_id machine = local")
  case True
  obtain q w1 where q: "agent_open_session ce local ns d w = (q, w1)" by (cases "agent_open_session ce local ns d w")
  then show ?thesis
    using assms by (cases q) (auto simp: session_open_local[OF True] bind_act_def ret_act_def split: prod.splits)
next
  case False
  show ?thesis
  proof (cases "ce_connect ce (mr_overlay_ip machine)")
    case (Inl e)
    then show ?thesis using assms by (auto simp: session_open_remote[OF False])
  next
    case (Inr agent)
    obtain q w1 where q: "agent_open_session ce agent ns d w = (q, w1)" by (cases "agent_open_session ce agent ns d w")
    then show ?thesis using assms Inr by (cases q) (auto simp: session_open_remote[OF False])
  qed
qed

lemma session_open_law:
  "hoare (cluster_at R L S) (session_open ce local machine ns d coordinator)
    (\<lambda>a w. session_lock (fst a) \<notin> L \<and> cluster_at R (insert (session_lock (fst a)) L) S w) (cluster_at R L S)"
proof (rule hoareI)
  fix w a w'
  assume at: "cluster_at R L S w" and run: "session_open ce local machine ns d coordinator w = (Inr a, w')"
  from session_open_run[OF run] obtain m b where "agent_open_session ce m ns d w = (Inr b, w')"
    "session_lock (fst a) = (m, se_namespace (fst b))" by auto
  with hoare_Inr[OF open_session_law at] show "session_lock (fst a) \<notin> L \<and> cluster_at R (insert (session_lock (fst a)) L) S w'"
    by metis
next
  fix w e w'
  assume at: "cluster_at R L S w" and run: "session_open ce local machine ns d coordinator w = (Inl e, w')"
  from session_open_run[OF run] show "cluster_at R L S w'" using at hoare_Inl[OF open_session_law at] by auto
qed

lemma session_drop_law: "cluster_at R L S w \<Longrightarrow> cluster_at R (L - {session_lock s}) S (session_drop s w)"
  by (cases s) (simp_all add: session_drop_def cluster_at_drop)

lemma session_close_run: "returned (session_close ce s) w = (Inr (), session_drop s w)"
  by (cases s) (simp_all add: returned_def session_remote_close, simp_all add: session_close_def session_drop_def)

lemma session_close_law:
  "hoare (cluster_at R L S) (returned (session_close ce s))
    (\<lambda>_. cluster_at R (L - {session_lock s}) S) (cluster_at R (L - {session_lock s}) S)"
  by (simp add: hoare_def session_close_run session_drop_law)

lemma list_releases_law:
  "hoare (cluster_at R L S) (on_store (list_service_releases ns))
    (\<lambda>rs w. cluster_at R L S w \<and> releases_match ns R rs) (cluster_at R L S)"
proof -
  have match: "releases_match ns R (filter (\<lambda>r. rr_namespace r = ns) (hm_values (st_service_releases (cl_store w))))"
    if at: "cluster_at R L S w" for w :: "('a, 'b, 'c) cluster"
  proof -
    have "hm_keyed (\<lambda>r. (rr_namespace r, rr_service r)) (st_service_releases (cl_store w))"
      and R: "hm_get (st_service_releases (cl_store w)) = R"
      using at by (simp_all add: cluster_at_def store_wf_def)
    then show ?thesis
      using hm_keyed_values hm_keyed_get by (fastforce simp: releases_match_def)
  qed
  then show ?thesis
    by (auto simp: hoare_def on_store_def list_service_releases_def)
qed

lemma commit_law:
  "hoare (cluster_at R L S) (on_store (apply_deploy_commit g c)) (\<lambda>_. cluster_at (commit_table c R) L S) E"
proof (rule on_store_update)
  fix s :: "('a, 'b) store_inner"
  assume "store_wf s" "hm_get (st_service_releases s) = R" "S \<subseteq> serving_ids s"
  moreover have "hm_get (st_service_releases (snd (apply_deploy_commit g c s))) = commit_table c (hm_get (st_service_releases s))"
  proof
    fix k
    have "hm_wf (st_service_releases s)" using \<open>store_wf s\<close> hm_keyed_wf by (auto simp: store_wf_def)
    from commit_releases_get[OF this] show "hm_get (st_service_releases (snd (apply_deploy_commit g c s))) k =
        commit_table c (hm_get (st_service_releases s)) k"
      by (cases k) (auto simp: commit_table_def split: option.split)
  qed
  ultimately show "store_wf (snd (apply_deploy_commit g c s)) \<and>
      hm_get (st_service_releases (snd (apply_deploy_commit g c s))) = commit_table c R \<and>
      S \<subseteq> serving_ids (snd (apply_deploy_commit g c s))"
    by (simp add: commit_wf)
qed simp

lemma draw_uuid_law:
  assumes "\<And>n ids. InstanceId (ce_uuid ce n ids) \<notin> set ids"
  shows "hoare (cluster_at R L S) (uuid_act (cluster_deploy_env ce local))
    (\<lambda>u w. cluster_at R L S w \<and> unused_id (InstanceId u) w) (cluster_at R L S)"
proof -
  have "hm_get m (InstanceId (ce_uuid ce n (hm_keys m))) = None" for n and m :: "(instance_id, instance_status_record) hash_map"
    using assms[of n "hm_keys m"] by (simp add: hm_keys_def map_of_eq_None_iff)
  then show ?thesis
    by (simp add: hoare_def uuid_act_def cluster_deploy_env_def draw_uuid_def unused_id_def)
qed

lemma cluster_deploy_world:
  fixes ce :: "('q, 'd) cluster_env"
  assumes "\<And>n ids. InstanceId (ce_uuid ce n ids) \<notin> set ids"
  shows "deploy_world (cluster_deploy_env ce local :: (('c, 'q, 'd) cluster, deploy_session, ployz_error) deploy_env)
    cluster_at unused_id session_lock"
proof
  fix R L S S' s and w :: "('c, 'q, 'd) cluster"
  show "cluster_at R L S w \<Longrightarrow> S' \<subseteq> S \<Longrightarrow> cluster_at R L S' w" by (rule cluster_at_mono)
  show "cluster_at R L S w \<Longrightarrow> cluster_at R (L - {session_lock s}) S (env_drop (cluster_deploy_env ce local) s w)"
    by (simp add: cluster_deploy_env_def session_drop_law)
next
  show "quiet cluster_at (now_act (cluster_deploy_env ce local))"
    by (rule quietI) (auto simp: now_act_def cluster_deploy_env_def cluster_now_def split: prod.splits)
next
  fix ns rv dr st
  show "quiet cluster_at (env_list_machines (cluster_deploy_env ce local))"
    "quiet cluster_at (env_list_instance_status (cluster_deploy_env ce local) ns)"
    by (simp_all add: cluster_deploy_env_def quiet_store_read list_machines_def list_instance_status_def)
  show "quiet cluster_at (env_upsert_service_revision (cluster_deploy_env ce local) rv)"
    "quiet cluster_at (env_upsert_deploy (cluster_deploy_env ce local) dr)"
    unfolding quiet_def by (auto simp: cluster_deploy_env_def store_wf_deploy_ops intro!: on_store_update)
  show "serving_status st \<Longrightarrow> quiet cluster_at (env_upsert_instance_status (cluster_deploy_env ce local) st)"
    by (simp add: cluster_deploy_env_def quiet_upsert_serving)
next
  fix R L S and rq :: start_candidate_request and s c ns machine d coord i
  show "hoare (cluster_at R L S) (uuid_act (cluster_deploy_env ce local))
      (\<lambda>u w. cluster_at R L S w \<and> unused_id (InstanceId u) w) (cluster_at R L S)"
    by (rule draw_uuid_law) (rule assms)
  show "hoare (cluster_at R L S) (env_list_service_releases (cluster_deploy_env ce local) ns)
      (\<lambda>rs w. cluster_at R L S w \<and> releases_match ns R rs) (cluster_at R L S)"
    by (simp add: cluster_deploy_env_def list_releases_law)
  show "hoare (cluster_at R L S) (env_apply_deploy_commit (cluster_deploy_env ce local) c)
      (\<lambda>_. cluster_at (commit_table c R) L S) (cluster_at R L S)"
    by (simp add: cluster_deploy_env_def commit_law)
  show "hoare (cluster_at R L S) (env_open (cluster_deploy_env ce local) machine ns d coord)
      (\<lambda>(s, _) w. session_lock s \<notin> L \<and> cluster_at R (insert (session_lock s) L) S w) (cluster_at R L S)"
    using session_open_law[of R L S ce local machine ns d coord]
    by (simp add: cluster_deploy_env_def case_prod_beta')
  show "hoare (\<lambda>w. cluster_at R L S w \<and> unused_id (sc_instance_id rq) w)
      (env_start_candidate (cluster_deploy_env ce local) s rq)
      (\<lambda>st w. serving_status st \<and> cluster_at R L (insert (is_instance_id st) S) w) (cluster_at R L S)"
    by (simp add: cluster_deploy_env_def session_start_law)
  show "hoare (cluster_at R L S) (env_drain_instance (cluster_deploy_env ce local) s i)
      (\<lambda>_. cluster_at R L (S - {i})) (cluster_at R L (S - {i}))"
    unfolding cluster_deploy_env_def deploy_env.simps
    by (rule session_keep_law[where session_op = "\<lambda>s. session_drain ce s i" and agent_op = "\<lambda>m state. agent_drain_instance ce m state i"])
      (simp_all add: session_drain_def drain_law session_remote_drain[unfolded session_drain_def, simplified])
  show "hoare (cluster_at R L S) (env_remove_instance (cluster_deploy_env ce local) s i)
      (\<lambda>_. cluster_at R L (S - {i})) (cluster_at R L (S - {i}))"
    unfolding cluster_deploy_env_def deploy_env.simps
    by (rule session_keep_law[where session_op = "\<lambda>s. session_remove ce s i" and agent_op = "\<lambda>m state. agent_remove_instance ce m state i"])
      (simp_all add: session_remove_def remove_law session_remote_remove[unfolded session_remove_def, simplified])
  show "hoare (cluster_at R L S) (env_close (cluster_deploy_env ce local) s)
      (\<lambda>_. cluster_at R (L - {session_lock s}) S) (cluster_at R (L - {session_lock s}) S)"
    by (simp add: cluster_deploy_env_def session_close_law)
qed

text \<open>Identifiers of new instances are unused ones.\<close>

locale cluster_ids =
  fixes ce :: "('q, 'd) cluster_env"
  assumes new_id: "InstanceId (ce_uuid ce n ids) \<notin> set ids"

sublocale cluster_ids \<subseteq> coordinator:
  deploy_world "cluster_deploy_env ce local" cluster_at unused_id session_lock for local
  by (rule cluster_deploy_world) (rule new_id)

section \<open>Applying a deploy on the cluster\<close>

definition cluster_releases :: "('c, 'q, 'd) cluster \<Rightarrow> release_table" where
  "cluster_releases w = hm_get (st_service_releases (cl_store w))"

text \<open>The instances that the releases of a namespace refer to, all serving.\<close>

definition all_serving :: "namespace \<Rightarrow> ('c, 'q, 'd) cluster \<Rightarrow> bool" where
  "all_serving ns w \<longleftrightarrow> active_instances ns (cluster_releases w) \<subseteq> serving_ids (cl_store w)"

lemma cluster_at_self: "store_wf (cl_store w) \<Longrightarrow> all_serving ns w \<Longrightarrow>
    cluster_at (cluster_releases w) (held w) (active_instances ns (cluster_releases w)) w"
  by (simp add: cluster_at_def cluster_releases_def all_serving_def)

context cluster_ids
begin

lemma apply_on_cluster:
  fixes w :: "('c, 'q, 'd) cluster"
  assumes wf: "store_wf (cl_store w)" and serving: "all_serving (dm_namespace manifest) w"
    and run: "deploy_apply (cluster_deploy_env ce local) local manifest w = (r, w')"
  shows "(is_ok r \<longrightarrow> committed_world (cluster_deploy_env ce local :: (('c, 'q, 'd) cluster, deploy_session, ployz_error) deploy_env)
        cluster_at (cluster_releases w) (held w) manifest w') \<and>
    (cluster_at (cluster_releases w) (held w) (active_instances (dm_namespace manifest) (cluster_releases w)) w' \<or>
     committed_world (cluster_deploy_env ce local :: (('c, 'q, 'd) cluster, deploy_session, ployz_error) deploy_env)
        cluster_at (cluster_releases w) (held w) manifest w')"
proof -
  note spec = coordinator.apply_spec[where local = local and R = "cluster_releases w" and L = "held w",
    OF subset_refl[of "active_instances (dm_namespace manifest) (cluster_releases w)"]]
  show ?thesis
  proof (cases r)
    case (Inl e)
    then show ?thesis using hoare_Inl[OF spec cluster_at_self[OF wf serving]] run by auto
  next
    case (Inr res)
    then show ?thesis using hoare_Inr[OF spec cluster_at_self[OF wf serving]] run by auto
  qed
qed

end

text \<open>
  C1. Applying a deploy is atomic and leaves no lock behind. Whatever its outcome, the releases afterwards are
  those from before or those of one commit of the manifest, every instance that the releases of the
  namespace refer to serves (when it did before), and exactly the locks from before are held.
\<close>

theorem deploy_apply_atomic:
  fixes w :: "('c, 'q, 'd) cluster"
  assumes ids: "cluster_ids ce" and wf: "store_wf (cl_store w)" and serving: "all_serving (dm_namespace manifest) w"
    and run: "deploy_apply (cluster_deploy_env ce local) local manifest w = (r, w')"
  shows "held w' = held w \<and> store_wf (cl_store w') \<and> all_serving (dm_namespace manifest) w' \<and>
    (cluster_releases w' = cluster_releases w \<or>
     (\<exists>c machines. manifest_commit (cluster_deploy_env ce local :: (('c, 'q, 'd) cluster, deploy_session, ployz_error) deploy_env)
        machines (cluster_releases w) manifest c \<and>
        cluster_releases w' = commit_table c (cluster_releases w)))"
  using cluster_ids.apply_on_cluster[OF ids wf serving run]
  by (auto simp: committed_world_def cluster_at_def cluster_releases_def all_serving_def)

text \<open>
  C2. A deploy that succeeds leaves exactly what the manifest asks for: the namespace has a release for every
  service of the manifest and no other, each with the revision of its specification and its desired
  slots, where a slot that was already right keeps its instance; other namespaces are untouched.
\<close>

theorem deploy_apply_commits_manifest:
  fixes w :: "('c, 'q, 'd) cluster"
  assumes ids: "cluster_ids ce" and wf: "store_wf (cl_store w)" and serving: "all_serving (dm_namespace manifest) w"
    and run: "deploy_apply (cluster_deploy_env ce local) local manifest w = (Inr res, w')"
  shows "\<exists>machines.
    (\<forall>ns s. ns \<noteq> dm_namespace manifest \<longrightarrow> cluster_releases w' (ns, s) = cluster_releases w (ns, s)) \<and>
    (\<forall>s. cluster_releases w' (dm_namespace manifest, s) \<noteq> None \<longleftrightarrow> s \<in> service_names manifest) \<and>
    (\<forall>s release. cluster_releases w' (dm_namespace manifest, s) = Some release \<longrightarrow>
      (\<exists>spec\<in>set (dm_services manifest). ss_name spec = s \<and>
        release_deployed (cluster_deploy_env ce local :: (('c, 'q, 'd) cluster, deploy_session, ployz_error) deploy_env)
          (dm_namespace manifest) machines (cluster_releases w) spec release))"
proof -
  from cluster_ids.apply_on_cluster[OF ids wf serving run] obtain c machines where
    mc: "manifest_commit (cluster_deploy_env ce local :: (('c, 'q, 'd) cluster, deploy_session, ployz_error) deploy_env)
      machines (cluster_releases w) manifest c"
    and table: "cluster_releases w' = commit_table c (cluster_releases w)"
    by (auto simp: committed_world_def cluster_at_def cluster_releases_def)
  show ?thesis unfolding table using manifest_commit_table[OF mc] by blast
qed

end
