(* ===== verification/Deploy_Run.thy ===== *)
theory Deploy_Run
  imports Deploy_Agent
begin

text \<open>
  A deploy on a cluster of one machine, run step by step: it succeeds, which is the witness of the
  properties of \<open>Deploy_Agent\<close>.
\<close>

text \<open>A cluster of one machine that hosts nothing yet.\<close>

definition plain_service :: service_spec where
  "plain_service = example_service\<lparr>ss_readiness := None, ss_publish := []\<rparr>"

definition plain_manifest :: deploy_manifest where
  "plain_manifest = \<lparr> dm_namespace = Namespace ''prod'', dm_services = [plain_service] \<rparr>"

definition example_ce :: "(unit, table_state) cluster_env" where
  "example_ce =
    \<lparr> ce_host = \<lambda>_. table_host, ce_overlay_network = \<lambda>_. Some ''ployz'', ce_overlay_dns = \<lambda>_. None,
      ce_notify = \<lambda>c _. (Send_Ok, c),
      ce_uuid = \<lambda>_ ids. replicate (Suc (sum_list (map (\<lambda>i. length (instance_id_str i)) ids))) (CHR ''x''),
      ce_parse_spec = \<lambda>_. Inr plain_service, ce_spec_json = \<lambda>_. Inr ''{}'', ce_manifest_json = \<lambda>_. Inr ''{}'',
      ce_preview_json = \<lambda>_. Inr ''{}'', ce_duration_str = \<lambda>_. [], ce_frame_debug = \<lambda>_. [],
      ce_connect = \<lambda>_. Inl ''refused'' \<rparr>"

definition example_cluster :: "(unit, unit, table_state) cluster" where
  "example_cluster =
    \<lparr> cl_store = memory_store_new\<lparr>st_machines :=
        [(MachineId ''m'', machine_record_seed (MachineId ''m'') (PublicKey []) (OverlayIp []) None [])]\<rparr>,
      cl_locks = \<lambda>_. [], cl_hosts = \<lambda>_. (\<lambda>_. None, 0), cl_draws = 0 \<rparr>"

interpretation example_ids: cluster_ids example_ce
proof
  fix n ids
  define total where "total = sum_list (map (\<lambda>i. length (instance_id_str i)) ids)"
  have new: "ce_uuid example_ce n ids = replicate (Suc total) (CHR ''x'')"
    by (simp add: example_ce_def total_def)
  have short: "length (instance_id_str i) \<le> total" if "i \<in> set ids" for i
    unfolding total_def using that by (induction ids) auto
  show "InstanceId (ce_uuid example_ce n ids) \<notin> set ids"
  proof
    assume "InstanceId (ce_uuid example_ce n ids) \<in> set ids"
    from short[OF this] show False by (simp add: new)
  qed
qed


abbreviation here :: machine_id where
  "here \<equiv> MachineId ''m''"
abbreviation run_env :: "((unit, unit, table_state) cluster, deploy_session, ployz_error) deploy_env" where
  "run_env \<equiv> (cluster_deploy_env example_ce here :: ((unit, unit, table_state) cluster, deploy_session, ployz_error) deploy_env)"

lemma run_env_simps [simp]:
  "env_now run_env w = (snd (cl_hosts w here), w\<lparr>cl_hosts := (cl_hosts w)(here := cl_hosts w here)\<rparr>)"
  "env_new_uuid run_env = draw_uuid example_ce"
  "env_list_machines run_env = on_store list_machines"
  "env_list_service_releases run_env = (\<lambda>ns. on_store (list_service_releases ns))"
  "env_list_instance_status run_env = (\<lambda>ns. on_store (list_instance_status ns))"
  "env_upsert_service_revision run_env = (\<lambda>r. on_store (upsert_service_revision (\<lambda>c _. (Send_Ok, c)) r))"
  "env_upsert_instance_status run_env = (\<lambda>r. on_store (upsert_instance_status (\<lambda>c _. (Send_Ok, c)) r))"
  "env_upsert_deploy run_env = (\<lambda>r. on_store (upsert_deploy r))"
  "env_apply_deploy_commit run_env = (\<lambda>c. on_store (apply_deploy_commit (\<lambda>c _. (Send_Ok, c)) c))"
  "env_open run_env = session_open example_ce here"
  "env_start_candidate run_env = (\<lambda>s rq. returned (session_start example_ce s rq))"
  "env_drain_instance run_env = (\<lambda>s i. returned (session_drain example_ce s i))"
  "env_remove_instance run_env = (\<lambda>s i. returned (session_remove example_ce s i))"
  "env_close run_env = (\<lambda>s. returned (session_close example_ce s))"
  "env_drop run_env = session_drop"
  "env_manifest_json run_env m = Inr ''{}''" "env_spec_json run_env s = Inr ''{}''" "env_preview_json run_env p = Inr ''{}''"
  by (simp_all add: cluster_deploy_env_def example_ce_def cluster_now_def table_host_def set_host_def)

lemma plain_simps [simp]:
  "dm_namespace plain_manifest = Namespace ''prod''" "dm_services plain_manifest = [plain_service]"
  "ss_name plain_service = ''web''" "ss_placement plain_service = Replicated 1" "ss_network plain_service = Net_Overlay"
  "ss_readiness plain_service = None" "ss_publish plain_service = []" "ss_restart plain_service = Restart_UnlessStopped"
  "ss_labels plain_service = []"
  by (simp_all add: plain_manifest_def plain_service_def example_service_def)

lemma plain_valid: "manifest_validate plain_manifest = Inr ()"
proof -
  have "trim ''web'' = ''web''" by (rule trim_id) (simp_all add: white_space_def)
  moreover have "trim ''http'' = ''http''" by (rule trim_id) (simp_all add: white_space_def)
  moreover have "trim ''prod'' = ''prod''" by (rule trim_id) (simp_all add: white_space_def)
  ultimately show ?thesis
    by (simp add: manifest_validate_def validate_next_service_def service_validate_iff service_ok_def service_port_names_def
      plain_manifest_def plain_service_def example_service_def)
qed

definition only_record :: machine_record where
  "only_record = machine_record_seed here (PublicKey []) (OverlayIp []) None []"

lemma only_record_id [simp]: "mr_id only_record = here"
  by (simp add: only_record_def machine_record_seed_def)

lemma plain_slots: "(desired_slots plain_service [here] None :: (ployz_error deploy_error, _) result) = Inr [\<lparr> ds_slot_id = replica_slot_id 0, ds_machine_id = here \<rparr>]"
  by (simp add: desired_slots_def place_replica_def Let_def)

lemma only_machine_deployable: "deployable_machines [only_record] here now = [here]"
  by (simp add: deployable_machines_def only_record_def machine_record_seed_def)

lemma plain_build_preview: "\<exists>pv. build_preview run_env here plain_manifest [] [only_record] now = Inr pv \<and> dp_participants pv = [here] \<and> removed_services pv = []"
  by (simp add: build_preview_def only_machine_deployable hm_collect_def current_slots_by_service_def plan_service_def
    revision_hash_def canonical_revision_json_def plain_slots bs_of_list_def service_plan_of_def removed_services_def plan_slot_def Let_def service_action_def slot_action_def)

lemma plain_preview: "st_service_releases (cl_store w) = [] \<Longrightarrow> st_machines (cl_store w) = [(here, only_record)] \<Longrightarrow>
   preview run_env here plain_manifest w = (build_preview run_env here plain_manifest [] [only_record] (snd (cl_hosts w here)), w)"
  by (simp add: preview_def plain_valid lift_res_def bind_act_def backend_def map_err_act_def on_store_def list_service_releases_def
    list_machines_def hm_values_def now_act_def)
lemma set_host_same [simp]: "set_host m (cl_hosts w m) w = w"
  by (simp add: set_host_def)

lemma run_open:
  assumes "cl_locks w = (\<lambda>_. [])" "st_instance_status (cl_store w) = []"
  shows "session_open example_ce here only_record ns d c w =
    (Inr (In_Process_Session here \<lparr>se_namespace = ns, se_deploy_id = d\<rparr>, []), w\<lparr>cl_locks := (\<lambda>_. [])(here := [(namespace_str ns, d)])\<rparr>)"
proof -
  have "mr_id only_record = here" by (simp add: only_record_def machine_record_seed_def)
  then show ?thesis using assms
    by (simp add: session_open_local agent_open_session_def acquire_lock_def try_acquire_def agent_inspect_namespace_def
      new_runtime_def on_host_def local_deploy_runtime_new_def docker_op_def map_err_act_def bind_act_def ret_act_def
      example_ce_def table_host_def table_docker_def adopt_instances_def on_store_def list_instance_status_def hm_values_def
      list_instances_def engine_list_by_labels_def list_local_instance_status_def Let_def)
qed

lemma run_ensure:
  assumes "fst d (ru_container_name rspec) = None" "ru_network_mode rspec = Some ''ployz''"
  shows "\<exists>res d'. engine_ensure table_docker rspec d = (Inr res, d')"
  using assms
  by (cases d; cases "ru_pull_policy rspec") (simp_all add: engine_ensure_def bind_act_def engine_inspect_def resolve_parent_id_def
      table_docker_def engine_pull_image_def create_and_start_def strip_prefix_def
      docker_op_def map_err_act_def ret_act_def force_remove_def)

lemma table_host_simps [simp]:
  "ho_connect table_host d = (Inr (), d)" "ho_docker table_host = table_docker" "ho_now table_host d = (snd d, d)"
  by (simp_all add: table_host_def)

lemma example_ce_simps [simp]:
  "ce_host example_ce m = table_host" "ce_overlay_network example_ce m = Some ''ployz''" "ce_overlay_dns example_ce m = None"
  "ce_notify example_ce = (\<lambda>c _. (Send_Ok, c))"
  by (simp_all add: example_ce_def)

lemma run_start:
  assumes w: "st_instance_status (cl_store w) = []" "cl_hosts w here = (\<lambda>_. None, 0)" and rq: "sc_service rq = ''web''"
  shows "\<exists>st w'. session_start example_ce (In_Process_Session here state) rq w = Some (Inr st, w') \<and>
    is_instance_id st = sc_instance_id rq \<and> cl_locks w' = cl_locks w \<and>
    cl_store w' = snd (upsert_instance_status (\<lambda>c _. (Send_Ok, c)) st (cl_store w))"
proof -
  have dec: "decode_candidate example_ce ''web'' (sc_spec_json rq) = Inr (plain_service, stable_hash_hex ''{}'')"
    by (simp add: decode_candidate_def example_ce_def revision_hash_def canonical_revision_json_def guard_res_def)
  let ?ca = "\<lparr> ca_namespace = se_namespace state, ca_spec = plain_service, ca_deploy_id = se_deploy_id state,
      ca_instance_id = sc_instance_id rq, ca_slot_id = sc_slot_id rq, ca_machine_id = here, ca_revision_hash = stable_hash_hex ''{}'' \<rparr>"
  obtain rspec where spec: "candidate_runtime_spec example_runtime ?ca = Inr rspec" "ru_network_mode rspec = Some ''ployz''"
    by (simp add: candidate_runtime_spec_def build_port_bindings_def candidate_network_def example_runtime_def Let_def)
  obtain res d' where ens: "engine_ensure table_docker rspec (\<lambda>_. None, 0) = (Inr res, d')"
    using run_ensure[of "(\<lambda>_. None, 0)" rspec] spec(2) by auto
  have rt: "local_deploy_runtime_new table_host (Some ''ployz'') None d = (Inr example_runtime, d)" for d
    by (simp add: local_deploy_runtime_new_def table_host_def docker_op_def map_err_act_def bind_act_def ret_act_def example_runtime_def)
  show ?thesis
    using w rq dec spec ens
    by (simp add: session_start_def agent_start_candidate_def find_local_instance_status_def list_local_instance_status_def
      bind_act_def ret_act_def on_store_def list_instance_status_def hm_values_def new_runtime_def on_host_def rt
      runtime_start_candidate_def lift_res_def runtime_wait_ready_def status_record_def to_status_record_def
      upsert_instance_status_def set_host_def)
qed

lemma run_uuid: "st_instance_status (cl_store w) = [] \<Longrightarrow> draw_uuid example_ce w = (''x'', w\<lparr>cl_draws := Suc (cl_draws w)\<rparr>)"
  by (simp add: draw_uuid_def example_ce_def hm_keys_def)

abbreviation run_session :: deploy_session where
  "run_session \<equiv> In_Process_Session here \<lparr>se_namespace = Namespace ''prod'', se_deploy_id = DeployId ''x''\<rparr>"
abbreviation run_ctx :: "deploy_session apply_ctx" where
  "run_ctx \<equiv> \<lparr> cx_namespace = Namespace ''prod'', cx_deploy_id = DeployId ''x'', cx_local = here,
                   cx_started_at = 0, cx_sessions = [(here, run_session)] \<rparr>"

lemma run_service:
  assumes w: "st_instance_status (cl_store w) = []" "cl_hosts w here = (\<lambda>_. None, 0)"
  shows "\<exists>ev' r slot w' st. deploy_service run_env run_ctx [] [here] plain_service (ev, [], []) w = (Inr (ev', [r], [slot]), w') \<and>
    rs_active_instance_id slot = InstanceId ''x'' \<and> st_instance_status (cl_store w') = [(InstanceId ''x'', st)] \<and> is_instance_id st = InstanceId ''x''"
proof -
  define rv where "rv = \<lparr>rv_namespace = Namespace ''prod'', rv_service = ''web'', rv_revision_hash = stable_hash_hex ''{}'',
            rv_spec_json = ''{}'', rv_created_by = here, rv_created_at = 0\<rparr>"
  define w1 where "w1 = w\<lparr>cl_store := snd (upsert_service_revision (\<lambda>c _. (Send_Ok, c)) rv (cl_store w))\<rparr>"
  define w2 where "w2 = w1\<lparr>cl_draws := Suc (cl_draws w1)\<rparr>"
  have w1: "st_instance_status (cl_store w1) = []" "cl_hosts w1 = cl_hosts w"
    using w by (simp_all add: w1_def upsert_service_revision_def)
  have rev: "on_store (upsert_service_revision (\<lambda>c _. (Send_Ok, c)) rv) w = (Inr (), w1)"
    by (simp add: on_store_def w1_def upsert_service_revision_def)
  have uuid: "uuid_act run_env w1 = (Inr ''x'', w2)" using w1 by (simp add: uuid_act_def run_uuid w2_def)
  have w2: "st_instance_status (cl_store w2) = []" "cl_hosts w2 here = (\<lambda>_. None, 0)" using w1 w by (simp_all add: w2_def)
  let ?rq = "\<lparr>sc_service = ''web'', sc_slot_id = replica_slot_id 0, sc_instance_id = InstanceId ''x'', sc_spec_json = ''{}''\<rparr>"
  obtain st w3 where st: "session_start example_ce run_session ?rq w2 = Some (Inr st, w3)" "is_instance_id st = InstanceId ''x''"
    "cl_store w3 = snd (upsert_instance_status (\<lambda>c _. (Send_Ok, c)) st (cl_store w2))"
    using run_start[OF w2, of ?rq "\<lparr>se_namespace = Namespace ''prod'', se_deploy_id = DeployId ''x''\<rparr>"] by auto
  have "\<exists>ev' w'. start_instance run_env run_ctx plain_service ''{}'' \<lparr>ds_slot_id = replica_slot_id 0, ds_machine_id = here\<rparr> ev w1 =
      (Inr (InstanceId ''x'', ev'), w') \<and> st_instance_status (cl_store w') = [(InstanceId ''x'', st)]"
    using st w2 by (simp add: start_instance_def bind_act_def uuid returned_def backend_def map_err_act_def on_store_def
      upsert_instance_status_def ret_act_def)
  then obtain ev' w' where "start_instance run_env run_ctx plain_service ''{}'' \<lparr>ds_slot_id = replica_slot_id 0, ds_machine_id = here\<rparr> ev w1 =
      (Inr (InstanceId ''x'', ev'), w')" "st_instance_status (cl_store w') = [(InstanceId ''x'', st)]" by blast
  then show ?thesis
    using st(2) rev unfolding rv_def
    by (simp add: deploy_service_def bind_act_def lift_res_def revision_hash_def canonical_revision_json_def
      backend_def map_err_act_def plain_slots deploy_slot_def find_slot_def keep_current_def Let_def ret_act_def now_act_def)
qed

lemma run_succeeds: "\<exists>res w'. deploy_apply run_env here plain_manifest example_cluster = (Inr res, w')"
proof -
  define w0 where "w0 = example_cluster\<lparr>cl_draws := 1\<rparr>"
  have w0: "st_service_releases (cl_store w0) = []" "st_machines (cl_store w0) = [(here, only_record)]"
    "cl_locks w0 = (\<lambda>_. [])" "st_instance_status (cl_store w0) = []" "cl_hosts w0 = (\<lambda>_. (\<lambda>_. None, 0))"
    by (simp_all add: w0_def example_cluster_def memory_store_new_def only_record_def)
  have u0: "uuid_act run_env example_cluster = (Inr ''x'', w0)"
    by (simp add: uuid_act_def run_uuid example_cluster_def memory_store_new_def w0_def)
  obtain pv where pv: "build_preview run_env here plain_manifest [] [only_record] 0 = Inr pv" "dp_participants pv = [here]" "removed_services pv = []"
    using plain_build_preview by blast
  have p0: "preview run_env here plain_manifest w = (Inr pv, w)"
    if "st_service_releases (cl_store w) = []" "st_machines (cl_store w) = [(here, only_record)]" "snd (cl_hosts w here) = 0" for w
    using plain_preview[OF that(1,2)] that(3) pv by simp
  let ?s = "In_Process_Session here \<lparr>se_namespace = Namespace ''prod'', se_deploy_id = DeployId ''x''\<rparr>"
  define w1 where "w1 = w0\<lparr>cl_locks := (\<lambda>_. [])(here := [(''prod'', DeployId ''x'')])\<rparr>"
  have w1: "st_service_releases (cl_store w1) = []" "st_machines (cl_store w1) = [(here, only_record)]"
    "st_instance_status (cl_store w1) = []" "cl_hosts w1 = (\<lambda>_. (\<lambda>_. None, 0))" by (simp_all add: w1_def w0)
  have op: "session_open example_ce here only_record (Namespace ''prod'') (DeployId ''x'') here w0 = (Inr (?s, []), w1)"
    using run_open[OF w0(3,4)] by (simp add: w1_def)
  let ?cx = "\<lparr> cx_namespace = Namespace ''prod'', cx_deploy_id = DeployId ''x'', cx_local = here,
                   cx_started_at = 0, cx_sessions = [(here, ?s)] \<rparr>"
  have "\<exists>res w'. apply_locked run_env ?cx plain_manifest pv [only_record] ev w1 = (Inr res, w')" for ev
  proof -
    define dr where "dr = initial_record run_ctx pv ''{}''"
    define w2 where "w2 = w1\<lparr>cl_store := snd (upsert_deploy dr (cl_store w1))\<rparr>"
    have dep: "on_store (upsert_deploy dr) w1 = (Inr (), w2)" by (simp add: on_store_def w2_def upsert_deploy_def)
    have w2: "st_instance_status (cl_store w2) = []" "cl_hosts w2 here = (\<lambda>_. None, 0)" "st_service_releases (cl_store w2) = []"
      using w1 by (simp_all add: w2_def upsert_deploy_def)
    obtain ev' r slot w3 st where svc: "deploy_service run_env run_ctx [] [here] plain_service (ev, [], []) w2 = (Inr (ev', [r], [slot]), w3)"
      "rs_active_instance_id slot = InstanceId ''x''" "st_instance_status (cl_store w3) = [(InstanceId ''x'', st)]" "is_instance_id st = InstanceId ''x''"
      using run_service[OF w2(1,2)] by blast
    have "\<exists>res w'. commit_deploy run_env run_ctx pv dr (ev', [r], [slot]) w3 = (Inr res, w')"
      using svc by (auto simp: commit_deploy_def bind_act_def now_act_def lift_res_def backend_def map_err_act_def Let_def on_store_def
        apply_deploy_commit_def broadcast_routing_refresh_def finish_deploy_def list_instance_status_def hm_values_def bs_of_list_def
        cleanup_instance_def ret_act_def)
    then show ?thesis
      using p0[OF w1(1,2)] w1 dep w2 svc(1) pv(2) unfolding dr_def
      by (simp add: apply_locked_def bind_act_def lift_res_def guard_res_def backend_def map_err_act_def on_store_def
        list_service_releases_def hm_values_def now_act_def current_slots_by_service_from_releases_def hm_collect_def only_machine_deployable ret_act_def)
  qed
  then obtain res w' where "apply_locked run_env run_ctx plain_manifest pv [only_record] [lock_event here []] w1 = (Inr res, w')" by blast
  then show ?thesis
    using u0 p0[OF w0(1,2)] w0 op pv(2)
    by (simp add: deploy_apply_def bind_act_def now_act_def backend_def map_err_act_def on_store_def list_machines_def hm_values_def
      hm_collect_def)
qed

section \<open>Witnesses\<close>

lemma example_cluster_ok:
  "cluster_ids example_ce" "store_wf (cl_store example_cluster)" "all_serving (dm_namespace plain_manifest) example_cluster"
proof -
  show "cluster_ids example_ce" by (rule example_ids.cluster_ids_axioms)
  show "store_wf (cl_store example_cluster)"
    by (simp add: example_cluster_def store_wf_def memory_store_new_def hm_keyed_def hm_wf_def machine_record_seed_def)
  show "all_serving (dm_namespace plain_manifest) example_cluster"
    by (simp add: all_serving_def active_instances_def cluster_releases_def example_cluster_def memory_store_new_def)
qed

theorem deploy_apply_atomic_witness:
  "\<exists>r w'. deploy_apply run_env here plain_manifest example_cluster = (r, w') \<and> held w' = held example_cluster \<and>
    all_serving (Namespace ''prod'') w'"
proof -
  obtain r w' where run: "deploy_apply run_env here plain_manifest example_cluster = (r, w')"
    by (cases "deploy_apply run_env here plain_manifest example_cluster")
  from deploy_apply_atomic[OF example_cluster_ok run] run show ?thesis by auto
qed

theorem deploy_apply_commits_manifest_witness:
  "\<exists>res w' release. deploy_apply run_env here plain_manifest example_cluster = (Inr res, w') \<and>
    cluster_releases w' (Namespace ''prod'', ''web'') = Some release"
proof -
  obtain res w' where run: "deploy_apply run_env here plain_manifest example_cluster = (Inr res, w')"
    using run_succeeds by blast
  have "''web'' \<in> service_names plain_manifest" by (simp add: service_names_def)
  then show ?thesis
    using deploy_apply_commits_manifest[OF example_cluster_ok run] run by auto
qed

end
