(* ===== verification/Gateway_Routes.thy ===== *)
theory Gateway_Routes
  imports Service_Spec
begin

text \<open>
  The routes of the gateway, \<open>crates/ployz-gateway/src/routes.rs\<close>: the projection of the routing state
  to HTTP and TCP routes with their backends, the check for conflicting routes, and the choice of a
  route for a request.

  \<open>serde_json::from_str\<close> of a service specification is an argument.
\<close>

section \<open>Data\<close>

record backend_view =
  bv_instance_id :: instance_id
  bv_machine_id :: machine_id
  bv_service_port :: string
  bv_address :: "ipv4_addr \<times> u16"

record http_route_view =
  hv_route_id :: string
  hv_namespace :: namespace
  hv_service :: string
  hv_revision_hash :: string
  hv_hostnames :: "string list"
  hv_path_prefix :: string
  hv_backends :: "backend_view list"

record tcp_route_view =
  tv_route_id :: string
  tv_namespace :: namespace
  tv_service :: string
  tv_revision_hash :: string
  tv_listen_port :: u16
  tv_backends :: "backend_view list"

record gateway_snapshot =
  gs_http_routes :: "http_route_view list"
  gs_tcp_routes :: "tcp_route_view list"

definition gateway_snapshot_empty :: gateway_snapshot where
  "gateway_snapshot_empty = \<lparr> gs_http_routes = [], gs_tcp_routes = [] \<rparr>"

datatype projection_error =
    Missing_Revision namespace string string
  | Invalid_Revision_Spec namespace string string
  | Http_Route_Conflict string string string string
  | Tcp_Route_Conflict string string u16

section \<open>Hosts and paths\<close>

definition normalize_request_host :: "string \<Rightarrow> string" where
  "normalize_request_host host =
    (let trimmed = trim_end_matches (CHR ''.'') (trim host) in
     if trimmed = [] then []
     else case strip_prefix ''['' trimmed of
       Some ipv6 \<Rightarrow>
         to_ascii_lowercase (case split_once (CHR '']'') ipv6 of Some (addr, _) \<Rightarrow> addr | None \<Rightarrow> ipv6)
     | None \<Rightarrow>
         (case rsplit_once (CHR '':'') trimmed of
            Some (left, right) \<Rightarrow>
              if list_all is_ascii_digit right then to_ascii_lowercase left else to_ascii_lowercase trimmed
          | None \<Rightarrow> to_ascii_lowercase trimmed))"

definition normalize_path_prefix :: "string \<Rightarrow> string" where
  "normalize_path_prefix path_prefix =
    (let trimmed = trim path_prefix in
     if trimmed = [] then ''/''
     else if hd trimmed = CHR ''/'' then trimmed else CHR ''/'' # trimmed)"

definition route_matches_host :: "http_route_view \<Rightarrow> string option \<Rightarrow> bool" where
  "route_matches_host route host =
    (if hv_hostnames route = [] then True
     else case host of None \<Rightarrow> False | Some h \<Rightarrow> h \<in> set (hv_hostnames route))"

definition request_host :: "string option \<Rightarrow> string option" where
  "request_host host =
    (case map_option normalize_request_host host of
       Some h \<Rightarrow> if h = [] then None else Some h
     | None \<Rightarrow> None)"

definition match_http_route :: "gateway_snapshot \<Rightarrow> string option \<Rightarrow> string \<Rightarrow> http_route_view option" where
  "match_http_route snapshot host path =
    find (\<lambda>route. route_matches_host route (request_host host) \<and>
      prefix (hv_path_prefix route) (normalize_path_prefix path)) (gs_http_routes snapshot)"

section \<open>Backends\<close>

definition is_routable_instance ::
    "instance_status_record \<Rightarrow> service_release_slot \<Rightarrow> namespace \<Rightarrow> string \<Rightarrow> string set \<Rightarrow> bool" where
  "is_routable_instance inst slot ns service allowed \<longleftrightarrow>
    is_namespace inst = ns \<and> is_service inst = service \<and> is_slot_id inst = rs_slot_id slot \<and>
    is_machine_id inst = rs_machine_id slot \<and> is_revision_hash inst = rs_revision_hash slot \<and>
    is_revision_hash inst \<in> allowed \<and> is_ready inst \<and> is_phase inst = Instance_Ready \<and>
    is_drain_state inst = Drain_None \<and> is_error inst = None"

definition routing_revision_hash :: "service_release \<Rightarrow> string" where
  "routing_revision_hash release =
    (case rl_routing release of
       Routing_Direct hash \<Rightarrow> hash
     | Routing_Split _ \<Rightarrow> rl_primary_revision_hash release)"

definition allowed_revision_hashes :: "service_release \<Rightarrow> string set" where
  "allowed_revision_hashes release =
    (case rl_routing release of
       Routing_Direct hash \<Rightarrow> {hash}
     | Routing_Split allocations \<Rightarrow>
         let hashes = set (map ta_revision_hash allocations)
         in if hashes = {} then set (rl_referenced_revision_hashes release) else hashes)"

definition compare_backends :: "backend_view \<Rightarrow> backend_view \<Rightarrow> ordering" where
  "compare_backends a b =
    then_with (cmp (machine_id_str (bv_machine_id a)) (machine_id_str (bv_machine_id b)))
      (then_with (cmp (instance_id_str (bv_instance_id a)) (instance_id_str (bv_instance_id b)))
        (then_with (cmp (fst (bv_address a)) (fst (bv_address b))) (cmp (snd (bv_address a)) (snd (bv_address b)))))"

definition push_backend ::
    "instance_status_record \<Rightarrow> ipv4_addr \<Rightarrow> string \<Rightarrow> (string, backend_view list) btree_map \<Rightarrow>
     (string, backend_view list) btree_map" where
  "push_backend inst overlay_ip port_name backends =
    (case bt_get (is_backend_ports inst) port_name of
       None \<Rightarrow> backends
     | Some port_number \<Rightarrow>
         bt_push port_name
           \<lparr> bv_instance_id = is_instance_id inst, bv_machine_id = is_machine_id inst,
             bv_service_port = port_name, bv_address = (overlay_ip, port_number) \<rparr> backends)"

definition push_slot_backends ::
    "string list \<Rightarrow> namespace \<Rightarrow> string \<Rightarrow> string set \<Rightarrow> (instance_id, instance_status_record) hash_map \<Rightarrow>
     service_release_slot \<Rightarrow> (string, backend_view list) btree_map \<Rightarrow> (string, backend_view list) btree_map" where
  "push_slot_backends port_names ns service allowed instances slot backends =
    (case hm_get instances (rs_active_instance_id slot) of
       None \<Rightarrow> backends
     | Some inst \<Rightarrow>
         if \<not> is_routable_instance inst slot ns service allowed then backends
         else case is_overlay_ip inst of
           None \<Rightarrow> backends
         | Some overlay_ip \<Rightarrow> fold (push_backend inst overlay_ip) port_names backends)"

definition routable_backends_by_port ::
    "service_spec \<Rightarrow> namespace \<Rightarrow> string \<Rightarrow> string set \<Rightarrow> service_release_slot list \<Rightarrow>
     (instance_id, instance_status_record) hash_map \<Rightarrow> (string, backend_view list) btree_map" where
  "routable_backends_by_port spec ns service allowed slots instances =
    (let port_names = hm_keys (hm_collect (map (\<lambda>p. (svp_name p, p)) (ss_service_ports spec)));
         backends = fold (push_slot_backends port_names ns service allowed instances) slots []
     in map (\<lambda>(port, values). (port, sort_by compare_backends values)) backends)"

section \<open>Conflicts\<close>

definition route_hosts :: "http_route_view \<Rightarrow> string list" where
  "route_hosts route = (if hv_hostnames route = [] then [''*''] else hv_hostnames route)"

definition see_host ::
    "http_route_view \<Rightarrow> string \<Rightarrow> (string \<times> string, string) hash_map \<Rightarrow>
     (projection_error, (string \<times> string, string) hash_map) result" where
  "see_host route host seen =
    (case hm_get seen (host, hv_path_prefix route) of
       Some existing \<Rightarrow> Inl (Http_Route_Conflict existing (hv_route_id route) host (hv_path_prefix route))
     | None \<Rightarrow> Inr (hm_insert (host, hv_path_prefix route) (hv_route_id route) seen))"

definition validate_http_conflicts :: "http_route_view list \<Rightarrow> (projection_error, unit) result" where
  "validate_http_conflicts routes =
    bind_res (fold_res (\<lambda>route seen. fold_res (see_host route) (route_hosts route) seen) routes []) (\<lambda>_. Inr ())"

definition see_port ::
    "tcp_route_view \<Rightarrow> (u16, string) hash_map \<Rightarrow> (projection_error, (u16, string) hash_map) result" where
  "see_port route seen =
    (case hm_get seen (tv_listen_port route) of
       Some existing \<Rightarrow> Inl (Tcp_Route_Conflict existing (tv_route_id route) (tv_listen_port route))
     | None \<Rightarrow> Inr (hm_insert (tv_listen_port route) (tv_route_id route) seen))"

definition validate_tcp_conflicts :: "tcp_route_view list \<Rightarrow> (projection_error, unit) result" where
  "validate_tcp_conflicts routes = bind_res (fold_res see_port routes []) (\<lambda>_. Inr ())"

section \<open>Projection\<close>

definition route_id_of :: "string \<Rightarrow> namespace \<Rightarrow> service_spec \<Rightarrow> nat \<Rightarrow> string" where
  "route_id_of kind ns spec index =
    kind @ '':'' @ namespace_str ns @ '':'' @ ss_name spec @ '':'' @ fmt_dec index"

definition http_view ::
    "service_revision_record \<Rightarrow> service_spec \<Rightarrow> (string, backend_view list) btree_map \<Rightarrow> nat \<Rightarrow> http_route \<Rightarrow> http_route_view" where
  "http_view revision spec backends index route =
    \<lparr> hv_route_id = route_id_of ''http'' (rv_namespace revision) spec index,
      hv_namespace = rv_namespace revision, hv_service = ss_name spec,
      hv_revision_hash = rv_revision_hash revision,
      hv_hostnames = bs_of_list (filter (\<lambda>h. h \<noteq> []) (map normalize_request_host (hr_hostnames route))),
      hv_path_prefix = normalize_path_prefix (hr_path_prefix route),
      hv_backends = unwrap_or (bt_get backends (hr_service_port route)) [] \<rparr>"

definition tcp_view ::
    "service_revision_record \<Rightarrow> service_spec \<Rightarrow> (string, backend_view list) btree_map \<Rightarrow> nat \<Rightarrow> tcp_route \<Rightarrow> tcp_route_view" where
  "tcp_view revision spec backends index route =
    \<lparr> tv_route_id = route_id_of ''tcp'' (rv_namespace revision) spec index,
      tv_namespace = rv_namespace revision, tv_service = ss_name spec,
      tv_revision_hash = rv_revision_hash revision, tv_listen_port = tr_listen_port route,
      tv_backends = unwrap_or (bt_get backends (tr_service_port route)) [] \<rparr>"

type_synonym views = "http_route_view list \<times> tcp_route_view list"

definition push_route ::
    "service_revision_record \<Rightarrow> service_spec \<Rightarrow> (string, backend_view list) btree_map \<Rightarrow> nat \<times> route_spec \<Rightarrow> views \<Rightarrow> views" where
  "push_route revision spec backends indexed views =
    (case indexed of (index, route) \<Rightarrow> case views of (https, tcps) \<Rightarrow>
      case route of
        Route_Http r \<Rightarrow> (https @ [http_view revision spec backends index r], tcps)
      | Route_Tcp r \<Rightarrow> (https, tcps @ [tcp_view revision spec backends index r]))"

type_synonym revision_map = "(namespace \<times> string \<times> string, service_revision_record) hash_map"

definition project_release ::
    "(string \<Rightarrow> (string, service_spec) result) \<Rightarrow> revision_map \<Rightarrow> (instance_id, instance_status_record) hash_map \<Rightarrow>
     service_release_record \<Rightarrow> views \<Rightarrow> (projection_error, views) result" where
  "project_release parse revisions instances record views =
    (let hash = routing_revision_hash (rr_release record) in
     bind_res (ok_or (hm_get revisions (rr_namespace record, rr_service record, hash))
       (Missing_Revision (rr_namespace record) (rr_service record) hash)) (\<lambda>revision.
     bind_res (map_err (Invalid_Revision_Spec (rv_namespace revision) (rv_service revision))
       (parse (rv_spec_json revision))) (\<lambda>spec.
     let backends = routable_backends_by_port spec (rr_namespace record) (rr_service record)
           (allowed_revision_hashes (rr_release record)) (rl_slots (rr_release record)) instances
     in Inr (fold (push_route revision spec backends) (enumerate 0 (ss_routes spec)) views))))"

definition compare_http_routes :: "http_route_view \<Rightarrow> http_route_view \<Rightarrow> ordering" where
  "compare_http_routes a b =
    then_with (cmp (hv_hostnames a = []) (hv_hostnames b = []))
      (then_with (cmp (length (hv_path_prefix b)) (length (hv_path_prefix a)))
        (then_with (cmp (namespace_str (hv_namespace a)) (namespace_str (hv_namespace b)))
          (then_with (cmp (hv_service a) (hv_service b)) (cmp (hv_route_id a) (hv_route_id b)))))"

definition compare_tcp_routes :: "tcp_route_view \<Rightarrow> tcp_route_view \<Rightarrow> ordering" where
  "compare_tcp_routes a b =
    then_with (cmp (tv_listen_port a) (tv_listen_port b)) (cmp (tv_route_id a) (tv_route_id b))"

definition project ::
    "(string \<Rightarrow> (string, service_spec) result) \<Rightarrow> routing_state \<Rightarrow> (projection_error, gateway_snapshot) result" where
  "project parse state =
    (let revisions = hm_collect (map (\<lambda>r. ((rv_namespace r, rv_service r, rv_revision_hash r), r)) (rt_revisions state));
         instances = hm_collect (map (\<lambda>i. (is_instance_id i, i)) (rt_instances state))
     in bind_res (fold_res (project_release parse revisions instances) (rt_releases state) ([], [])) (\<lambda>(https, tcps).
        bind_res (validate_http_conflicts https) (\<lambda>_.
        bind_res (validate_tcp_conflicts tcps) (\<lambda>_.
        Inr \<lparr> gs_http_routes = sort_by compare_http_routes https,
              gs_tcp_routes = sort_by compare_tcp_routes tcps \<rparr>))))"

section \<open>Conflict detection\<close>

text \<open>The pattern of both checks: a map of what was seen, and an error when a key comes again.\<close>

definition see :: "('a \<Rightarrow> 'k) \<Rightarrow> ('a \<Rightarrow> 'v) \<Rightarrow> ('v \<Rightarrow> 'a \<Rightarrow> 'e) \<Rightarrow> 'a \<Rightarrow> ('k, 'v) hash_map \<Rightarrow> ('e, ('k, 'v) hash_map) result" where
  "see key val err x seen =
    (case hm_get seen (key x) of Some v \<Rightarrow> Inl (err v x) | None \<Rightarrow> Inr (hm_insert (key x) (val x) seen))"

lemma see_all_ok:
  "(\<exists>seen'. fold_res (see key val err) xs seen = Inr seen') \<longleftrightarrow>
    distinct (map key xs) \<and> (\<forall>x\<in>set xs. hm_get seen (key x) = None)"
proof (induction xs arbitrary: seen)
  case (Cons x xs)
  show ?case
  proof (cases "hm_get seen (key x)")
    case None
    then have "fold_res (see key val err) (x # xs) seen =
        fold_res (see key val err) xs (hm_insert (key x) (val x) seen)"
      by (simp add: see_def)
    then show ?thesis using Cons.IH[of "hm_insert (key x) (val x) seen"] None
      by (auto simp: update_conv' image_iff split: if_splits)
  qed (auto simp: see_def)
qed simp

lemma see_all_error:
  assumes "fold_res (see key val err) xs seen = Inl e"
    and "\<And>k v. hm_get seen k = Some v \<Longrightarrow> \<exists>i<length ys. key (ys ! i) = k \<and> val (ys ! i) = v"
  shows "\<exists>i j. i < j \<and> j < length (ys @ xs) \<and> key ((ys @ xs) ! i) = key ((ys @ xs) ! j) \<and>
    e = err (val ((ys @ xs) ! i)) ((ys @ xs) ! j)"
  using assms
proof (induction xs arbitrary: seen ys)
  case (Cons x xs)
  show ?case
  proof (cases "hm_get seen (key x)")
    case (Some v)
    obtain i where "i < length ys" "key (ys ! i) = key x" "val (ys ! i) = v"
      using Cons.prems(2)[OF Some] by blast
    moreover have "e = err v x" using Cons.prems(1) Some by (simp add: see_def)
    ultimately show ?thesis
      by (intro exI[of _ i] exI[of _ "length ys"]) (simp add: nth_append)
  next
    case None
    have step: "fold_res (see key val err) xs (hm_insert (key x) (val x) seen) = Inl e"
      using Cons.prems(1) None see_def[of key val err x seen] by simp
    have seen: "\<exists>i<length (ys @ [x]). key ((ys @ [x]) ! i) = k \<and> val ((ys @ [x]) ! i) = v"
      if at: "hm_get (hm_insert (key x) (val x) seen) k = Some v" for k v
    proof (cases "k = key x")
      case False
      then obtain i where "i < length ys" "key (ys ! i) = k" "val (ys ! i) = v"
        using Cons.prems(2)[of k v] at by (auto simp: update_conv')
      then show ?thesis by (intro exI[of _ i]) (simp add: nth_append)
    qed (use at in \<open>auto simp: update_conv' intro!: exI[of _ "length ys"]\<close>)
    show ?thesis using Cons.IH[OF step seen] by simp
  qed
qed simp

lemma see_distinct: "(\<exists>seen'. fold_res (see key val err) xs [] = Inr seen') \<longleftrightarrow> distinct (map key xs)"
  by (simp add: see_all_ok)

lemma fold_res_nested:
  "fold_res (\<lambda>x. fold_res (f x) (g x)) xs s = fold_res (\<lambda>(x, y). f x y) (concat (map (\<lambda>x. map (Pair x) (g x)) xs)) s"
proof (induction xs arbitrary: s)
  case (Cons x xs)
  have "fold_res (\<lambda>(x, y). f x y) (map (Pair x) ys) s = fold_res (f x) ys s" for ys s
    by (induction ys arbitrary: s) (auto intro!: arg_cong2[where f = bind_res] ext)
  then show ?case using Cons.IH by (auto simp: fold_res_append fun_eq_iff intro!: arg_cong2[where f = bind_res])
qed simp

definition claims :: "http_route_view list \<Rightarrow> (http_route_view \<times> string) list" where
  "claims routes = concat (map (\<lambda>route. map (Pair route) (route_hosts route)) routes)"

definition claim_key :: "http_route_view \<times> string \<Rightarrow> string \<times> string" where
  "claim_key c = (snd c, hv_path_prefix (fst c))"

lemma validate_http_conflicts_see:
  "validate_http_conflicts routes =
    bind_res (fold_res (see claim_key (\<lambda>c. hv_route_id (fst c))
      (\<lambda>v c. Http_Route_Conflict v (hv_route_id (fst c)) (snd c) (hv_path_prefix (fst c)))) (claims routes) []) (\<lambda>_. Inr ())"
proof -
  have "(\<lambda>(r, h). see_host r h) = see claim_key (\<lambda>c. hv_route_id (fst c))
      (\<lambda>v c. Http_Route_Conflict v (hv_route_id (fst c)) (snd c) (hv_path_prefix (fst c)))"
    by (auto simp: fun_eq_iff see_def see_host_def claim_key_def split: option.split)
  then show ?thesis by (simp add: validate_http_conflicts_def fold_res_nested claims_def)
qed

lemma validate_tcp_conflicts_see:
  "validate_tcp_conflicts routes =
    bind_res (fold_res (see tv_listen_port tv_route_id
      (\<lambda>v r. Tcp_Route_Conflict v (tv_route_id r) (tv_listen_port r))) routes []) (\<lambda>_. Inr ())"
proof -
  have "see_port = see tv_listen_port tv_route_id (\<lambda>v r. Tcp_Route_Conflict v (tv_route_id r) (tv_listen_port r))"
    by (auto simp: fun_eq_iff see_def see_port_def)
  then show ?thesis by (simp add: validate_tcp_conflicts_def)
qed

lemma validate_http_conflicts_ok:
  "validate_http_conflicts routes = Inr () \<longleftrightarrow> distinct (map claim_key (claims routes))"
  unfolding validate_http_conflicts_see
  by (simp flip: see_distinct[where val = "\<lambda>c. hv_route_id (fst c)" and
    err = "\<lambda>v c. Http_Route_Conflict v (hv_route_id (fst c)) (snd c) (hv_path_prefix (fst c))"])

lemma validate_tcp_conflicts_ok:
  "validate_tcp_conflicts routes = Inr () \<longleftrightarrow> distinct (map tv_listen_port routes)"
  unfolding validate_tcp_conflicts_see
  by (simp flip: see_distinct[where val = tv_route_id and
    err = "\<lambda>v r. Tcp_Route_Conflict v (tv_route_id r) (tv_listen_port r)"])

lemma set_claims: "(r, h) \<in> set (claims routes) \<longleftrightarrow> r \<in> set routes \<and> h \<in> set (route_hosts r)"
  by (auto simp: claims_def)

lemma claims_unique:
  assumes "validate_http_conflicts routes = Inr ()" "r \<in> set routes" "r' \<in> set routes"
    "h \<in> set (route_hosts r)" "h \<in> set (route_hosts r')" "hv_path_prefix r = hv_path_prefix r'"
  shows "r = r'"
proof -
  have "inj_on claim_key (set (claims routes))"
    using assms(1) by (simp add: validate_http_conflicts_ok distinct_map)
  then have "(r, h) = (r', h)"
    by (rule inj_onD) (use assms in \<open>auto simp: claim_key_def set_claims\<close>)
  then show ?thesis by simp
qed

section \<open>The backends of a port\<close>

text \<open>
  What the backends of a service port should be: one for every slot of the release whose active
  instance is routable, has an overlay address and exposes the port.
\<close>

definition opt_list :: "'a option \<Rightarrow> 'a list" where
  "opt_list x = (case x of Some a \<Rightarrow> [a] | None \<Rightarrow> [])"

definition slot_backends ::
    "routing_state \<Rightarrow> service_release_record \<Rightarrow> string \<Rightarrow> service_release_slot \<Rightarrow> backend_view list" where
  "slot_backends state record port slot =
    [\<lparr> bv_instance_id = is_instance_id inst, bv_machine_id = is_machine_id inst,
       bv_service_port = port, bv_address = (ip, number) \<rparr>.
      inst \<leftarrow> rt_instances state,
      is_instance_id inst = rs_active_instance_id slot \<and>
      is_routable_instance inst slot (rr_namespace record) (rr_service record)
        (allowed_revision_hashes (rr_release record)),
      ip \<leftarrow> opt_list (is_overlay_ip inst),
      number \<leftarrow> opt_list (bt_get (is_backend_ports inst) port)]"

definition route_backends :: "routing_state \<Rightarrow> service_release_record \<Rightarrow> service_spec \<Rightarrow> string \<Rightarrow> backend_view list" where
  "route_backends state record spec port =
    (if port \<in> svp_name ` set (ss_service_ports spec)
     then sort_by compare_backends (concat (map (slot_backends state record port) (rl_slots (rr_release record))))
     else [])"

lemma opt_list_simps [simp]: "opt_list None = []" "opt_list (Some a) = [a]"
  by (simp_all add: opt_list_def)

lemma bt_get_push_backend:
  "unwrap_or (bt_get (push_backend inst ip name m) p) [] =
    unwrap_or (bt_get m p) [] @ (if name = p then
      [\<lparr> bv_instance_id = is_instance_id inst, bv_machine_id = is_machine_id inst,
         bv_service_port = p, bv_address = (ip, number) \<rparr>. number \<leftarrow> opt_list (bt_get (is_backend_ports inst) p)]
     else [])"
  by (cases "bt_get (is_backend_ports inst) name") (auto simp: push_backend_def)

lemma bt_get_fold_push_backend:
  assumes "distinct names"
  shows "unwrap_or (bt_get (fold (push_backend inst ip) names m) p) [] =
    unwrap_or (bt_get m p) [] @ (if p \<in> set names then
      [\<lparr> bv_instance_id = is_instance_id inst, bv_machine_id = is_machine_id inst,
         bv_service_port = p, bv_address = (ip, number) \<rparr>. number \<leftarrow> opt_list (bt_get (is_backend_ports inst) p)]
     else [])"
  using assms by (induction names arbitrary: m) (auto simp: bt_get_push_backend)

lemma filter_key:
  assumes "distinct (map key xs)"
  shows "filter (\<lambda>x. key x = k) xs = opt_list (hm_get (hm_collect (map (\<lambda>x. (key x, x)) xs)) k)"
proof (cases "hm_get (hm_collect (map (\<lambda>x. (key x, x)) xs)) k")
  case None
  then have "\<forall>x\<in>set xs. key x \<noteq> k" by (force simp: hm_get_collect map_of_eq_None_iff)
  then show ?thesis using None by (simp add: filter_empty_conv)
next
  case (Some v)
  then have v: "v \<in> set xs" "key v = k" by (auto simp: hm_get_collect dest!: map_of_SomeD)
  have "filter (\<lambda>x. key x = k) xs = [v]"
    using assms v
  proof (induction xs)
    case (Cons x xs)
    show ?case
    proof (cases "key x = k")
      case True
      have "x = v" using Cons.prems True by (auto simp: image_iff)
      moreover have "filter (\<lambda>x. key x = k) xs = []"
        using Cons.prems True by (auto simp: filter_empty_conv image_iff)
      ultimately show ?thesis using True by simp
    qed (use Cons in auto)
  qed simp
  then show ?thesis using Some by simp
qed

lemma hm_get_by_key:
  assumes "distinct (map key xs)"
  shows "hm_get (hm_collect (map (\<lambda>x. (key x, x)) xs)) k = Some v \<longleftrightarrow> v \<in> set xs \<and> key v = k"
  using hm.fold_insert_distinct[of "map (\<lambda>x. (key x, x)) xs" k v] assms
  by (auto simp: hm_collect_def comp_def)

lemma slot_backends_lookup:
  assumes "distinct (map is_instance_id (rt_instances state))"
  shows "slot_backends state record port slot =
    (case hm_get (hm_collect (map (\<lambda>i. (is_instance_id i, i)) (rt_instances state))) (rs_active_instance_id slot) of
       None \<Rightarrow> []
     | Some inst \<Rightarrow>
         if \<not> is_routable_instance inst slot (rr_namespace record) (rr_service record)
            (allowed_revision_hashes (rr_release record)) then []
         else [\<lparr> bv_instance_id = is_instance_id inst, bv_machine_id = is_machine_id inst,
           bv_service_port = port, bv_address = (ip, number) \<rparr>.
           ip \<leftarrow> opt_list (is_overlay_ip inst), number \<leftarrow> opt_list (bt_get (is_backend_ports inst) port)])"
proof -
  have split: "concat (map (\<lambda>x. if key x = k \<and> P x then f x else []) xs) =
      concat (map (\<lambda>x. if P x then f x else []) (filter (\<lambda>x. key x = k) xs))"
    for key :: "instance_status_record \<Rightarrow> instance_id" and k P and f :: "_ \<Rightarrow> backend_view list" and xs
    by (induction xs) auto
  show ?thesis
    unfolding slot_backends_def split filter_key[OF assms]
    by (simp add: opt_list_def split: option.split)
qed

lemma bt_get_push_slot:
  assumes "distinct (map is_instance_id (rt_instances state))" "distinct names"
  shows "unwrap_or (bt_get (push_slot_backends names (rr_namespace record) (rr_service record)
      (allowed_revision_hashes (rr_release record))
      (hm_collect (map (\<lambda>i. (is_instance_id i, i)) (rt_instances state))) slot m) p) [] =
    unwrap_or (bt_get m p) [] @ (if p \<in> set names then slot_backends state record p slot else [])"
  by (simp add: push_slot_backends_def slot_backends_lookup[OF assms(1)]
    bt_get_fold_push_backend[OF assms(2)] opt_list_def split: option.split)

lemma bt_get_fold_push_slot:
  assumes "distinct (map is_instance_id (rt_instances state))" "distinct names"
  shows "unwrap_or (bt_get (fold (push_slot_backends names (rr_namespace record) (rr_service record)
      (allowed_revision_hashes (rr_release record))
      (hm_collect (map (\<lambda>i. (is_instance_id i, i)) (rt_instances state)))) slots m) p) [] =
    unwrap_or (bt_get m p) [] @ (if p \<in> set names then concat (map (slot_backends state record p) slots) else [])"
  by (induction slots arbitrary: m) (simp_all add: bt_get_push_slot[OF assms])

lemma unwrap_or_map_option: "f [] = [] \<Longrightarrow> unwrap_or (map_option f x) [] = f (unwrap_or x [])"
  by (cases x) simp_all

lemma hm_keys_collect: "set (hm_keys (hm_collect kvs)) = fst ` set kvs"
proof -
  have "k \<in> set (hm_keys (hm_collect kvs)) \<longleftrightarrow> k \<in> fst ` set kvs" for k
    using hm.entries_keys[OF hm_wf_collect, of k kvs]
    by (simp add: hm_keys_def hm_get_collect map_of_eq_None_iff image_iff)
  then show ?thesis by blast
qed

lemma routable_backends_exact:
  assumes "distinct (map is_instance_id (rt_instances state))"
  shows "unwrap_or (bt_get (routable_backends_by_port spec (rr_namespace record) (rr_service record)
      (allowed_revision_hashes (rr_release record)) (rl_slots (rr_release record))
      (hm_collect (map (\<lambda>i. (is_instance_id i, i)) (rt_instances state)))) port) [] =
    route_backends state record spec port"
proof -
  have d: "distinct (hm_keys (hm_collect kvs))" for kvs :: "(string \<times> service_port) list"
    using hm_wf_collect[of kvs] by (simp add: hm_keys_def hm_wf_def)
  show ?thesis
    by (simp add: routable_backends_by_port_def Let_def map_of_map unwrap_or_map_option
      bt_get_fold_push_slot[OF assms d] hm_keys_collect route_backends_def image_image)
qed

section \<open>The projected routes\<close>

definition revision_key :: "service_revision_record \<Rightarrow> namespace \<times> string \<times> string" where
  "revision_key r = (rv_namespace r, rv_service r, rv_revision_hash r)"

definition release_key :: "service_release_record \<Rightarrow> namespace \<times> string \<times> string" where
  "release_key r = (rr_namespace r, rr_service r, routing_revision_hash (rr_release r))"

text \<open>
  The specification a release is routed by: that of the stored revision the routing policy names.
\<close>

definition routed_by ::
    "(string \<Rightarrow> (string, service_spec) result) \<Rightarrow> routing_state \<Rightarrow> service_release_record \<Rightarrow>
     service_revision_record \<Rightarrow> service_spec \<Rightarrow> bool" where
  "routed_by parse state record revision spec \<longleftrightarrow>
    revision \<in> set (rt_revisions state) \<and> revision_key revision = release_key record \<and>
    parse (rv_spec_json revision) = Inr spec"

definition unique_keys :: "routing_state \<Rightarrow> bool" where
  "unique_keys state \<longleftrightarrow> distinct (map revision_key (rt_revisions state)) \<and>
    distinct (map is_instance_id (rt_instances state))"

lemma fold_push_route_http:
  "v \<in> set (fst (fold (push_route revision spec backends) xs views)) \<longleftrightarrow>
    v \<in> set (fst views) \<or> (\<exists>i r. (i, Route_Http r) \<in> set xs \<and> v = http_view revision spec backends i r)"
  by (induction xs arbitrary: views) (auto simp: push_route_def split: route_spec.split prod.split)

lemma fold_push_route_tcp:
  "v \<in> set (snd (fold (push_route revision spec backends) xs views)) \<longleftrightarrow>
    v \<in> set (snd views) \<or> (\<exists>i r. (i, Route_Tcp r) \<in> set xs \<and> v = tcp_view revision spec backends i r)"
  by (induction xs arbitrary: views) (auto simp: push_route_def split: route_spec.split prod.split)

lemma in_enumerate: "(i, x) \<in> set (enumerate 0 xs) \<longleftrightarrow> i < length xs \<and> xs ! i = x"
  by (auto simp: in_set_enumerate_eq)

definition http_route_of ::
    "(string \<Rightarrow> (string, service_spec) result) \<Rightarrow> routing_state \<Rightarrow> service_release_record \<Rightarrow> http_route_view \<Rightarrow> bool" where
  "http_route_of parse state record v \<longleftrightarrow>
    (\<exists>revision spec i r. routed_by parse state record revision spec \<and>
      i < length (ss_routes spec) \<and> ss_routes spec ! i = Route_Http r \<and>
      v = (http_view revision spec [] i r)\<lparr>hv_backends := route_backends state record spec (hr_service_port r)\<rparr>)"

definition tcp_route_of ::
    "(string \<Rightarrow> (string, service_spec) result) \<Rightarrow> routing_state \<Rightarrow> service_release_record \<Rightarrow> tcp_route_view \<Rightarrow> bool" where
  "tcp_route_of parse state record v \<longleftrightarrow>
    (\<exists>revision spec i r. routed_by parse state record revision spec \<and>
      i < length (ss_routes spec) \<and> ss_routes spec ! i = Route_Tcp r \<and>
      v = (tcp_view revision spec [] i r)\<lparr>tv_backends := route_backends state record spec (tr_service_port r)\<rparr>)"

abbreviation project_revisions :: "routing_state \<Rightarrow> revision_map" where
  "project_revisions state \<equiv>
    hm_collect (map (\<lambda>r. ((rv_namespace r, rv_service r, rv_revision_hash r), r)) (rt_revisions state))"

abbreviation project_instances :: "routing_state \<Rightarrow> (instance_id, instance_status_record) hash_map" where
  "project_instances state \<equiv> hm_collect (map (\<lambda>i. (is_instance_id i, i)) (rt_instances state))"

lemma project_revisions_get:
  "unique_keys state \<Longrightarrow> hm_get (project_revisions state) k = Some r \<longleftrightarrow> r \<in> set (rt_revisions state) \<and> revision_key r = k"
  using hm_get_by_key[of revision_key "rt_revisions state" k r]
  by (simp add: unique_keys_def revision_key_def)

lemma project_release_exact:
  assumes u: "unique_keys state"
    and ok: "project_release parse (project_revisions state) (project_instances state) record views = Inr views'"
  shows "v \<in> set (fst views') \<longleftrightarrow> v \<in> set (fst views) \<or> http_route_of parse state record v"
    and "w \<in> set (snd views') \<longleftrightarrow> w \<in> set (snd views) \<or> tcp_route_of parse state record w"
proof -
  let ?bk = "\<lambda>spec. routable_backends_by_port spec (rr_namespace record) (rr_service record)
    (allowed_revision_hashes (rr_release record)) (rl_slots (rr_release record)) (project_instances state)"
  obtain rev spec where r: "hm_get (project_revisions state) (release_key record) = Some rev"
    "parse (rv_spec_json rev) = Inr spec"
    "views' = fold (push_route rev spec (?bk spec)) (enumerate 0 (ss_routes spec)) views"
    using ok by (auto simp: project_release_def Let_def release_key_def)
  have by_iff: "routed_by parse state record rev' spec' \<longleftrightarrow> rev' = rev \<and> spec' = spec" for rev' spec'
    unfolding routed_by_def conj_assoc[symmetric] project_revisions_get[OF u, symmetric] using r(1,2) by auto
  have bk: "unwrap_or (bt_get (?bk spec) port) [] = route_backends state record spec port" for port
    using routable_backends_exact u by (simp add: unique_keys_def)
  show "v \<in> set (fst views') \<longleftrightarrow> v \<in> set (fst views) \<or> http_route_of parse state record v"
    unfolding r(3) fold_push_route_http http_route_of_def by_iff
    by (auto simp: in_enumerate http_view_def bk)
  show "w \<in> set (snd views') \<longleftrightarrow> w \<in> set (snd views) \<or> tcp_route_of parse state record w"
    unfolding r(3) fold_push_route_tcp tcp_route_of_def by_iff
    by (auto simp: in_enumerate tcp_view_def bk)
qed

lemma project_releases_exact:
  assumes u: "unique_keys state"
    and "fold_res (project_release parse (project_revisions state) (project_instances state)) records views = Inr views'"
  shows "(v \<in> set (fst views') \<longleftrightarrow> v \<in> set (fst views) \<or> (\<exists>record\<in>set records. http_route_of parse state record v)) \<and>
    (w \<in> set (snd views') \<longleftrightarrow> w \<in> set (snd views) \<or> (\<exists>record\<in>set records. tcp_route_of parse state record w))"
  using assms(2)
proof (induction records arbitrary: views)
  case (Cons x xs)
  obtain mid where mid: "project_release parse (project_revisions state) (project_instances state) x views = Inr mid"
    "fold_res (project_release parse (project_revisions state) (project_instances state)) xs mid = Inr views'"
    using Cons.prems by auto
  show ?case using Cons.IH[OF mid(2)] project_release_exact[OF u mid(1)] by auto
qed simp

lemma project_ok:
  assumes "project parse state = Inr snapshot"
  obtains https tcps where
    "fold_res (project_release parse (project_revisions state) (project_instances state)) (rt_releases state) ([], []) = Inr (https, tcps)"
    "validate_http_conflicts https = Inr ()" "validate_tcp_conflicts tcps = Inr ()"
    "gs_http_routes snapshot = sort_by compare_http_routes https"
    "gs_tcp_routes snapshot = sort_by compare_tcp_routes tcps"
  using assms by (auto simp: project_def Let_def)

lemma comparator_http: "comparator compare_http_routes"
  unfolding compare_http_routes_def[abs_def]
  by (intro comparator_then comparator_key comparator_reverse[OF comparator_key])

lemma comparator_tcp: "comparator compare_tcp_routes"
  unfolding compare_tcp_routes_def[abs_def]
  by (intro comparator_then comparator_key comparator_reverse[OF comparator_key])

lemma comparator_backends: "comparator compare_backends"
  unfolding compare_backends_def[abs_def]
  by (intro comparator_then comparator_key comparator_reverse[OF comparator_key])

text \<open>
  C11. The gateway's snapshot has exactly the routes of the releases. When the projection succeeds on a
  state whose keys are unique, an HTTP route is in the snapshot exactly when it is a route of the
  specification of the revision a release routes to, with one backend for each slot of the release
  whose active instance is ready, not draining, free of errors, on the machine and of the revision of
  the slot, allowed by the routing policy, and exposes the port on its overlay address; the same
  holds of TCP routes; and no two TCP routes listen on the same port.
\<close>

theorem project_routes_exact:
  assumes "project parse state = Inr snapshot" and "unique_keys state"
  shows "(\<forall>v. v \<in> set (gs_http_routes snapshot) \<longleftrightarrow> (\<exists>record\<in>set (rt_releases state). http_route_of parse state record v)) \<and>
    (\<forall>v. v \<in> set (gs_tcp_routes snapshot) \<longleftrightarrow> (\<exists>record\<in>set (rt_releases state). tcp_route_of parse state record v)) \<and>
    distinct (map tv_listen_port (gs_tcp_routes snapshot))"
proof -
  obtain https tcps where p:
    "fold_res (project_release parse (project_revisions state) (project_instances state)) (rt_releases state) ([], []) = Inr (https, tcps)"
    "validate_tcp_conflicts tcps = Inr ()"
    "gs_http_routes snapshot = sort_by compare_http_routes https"
    "gs_tcp_routes snapshot = sort_by compare_tcp_routes tcps"
    by (rule project_ok[OF assms(1)])
  have "mset (map tv_listen_port (gs_tcp_routes snapshot)) = mset (map tv_listen_port tcps)"
    using comparator.mset_sort_by[OF comparator_tcp] p(4) by simp
  then have "distinct (map tv_listen_port (gs_tcp_routes snapshot))"
    using p(2) mset_eq_imp_distinct_iff unfolding validate_tcp_conflicts_ok by blast
  then show ?thesis
    using p(3,4) project_releases_exact[OF assms(2) p(1)]
    by (simp add: comparator.set_sort_by[OF comparator_http] comparator.set_sort_by[OF comparator_tcp])
qed

section \<open>The choice of a route\<close>

definition http_route_matches :: "http_route_view \<Rightarrow> string option \<Rightarrow> string \<Rightarrow> bool" where
  "http_route_matches route host path \<longleftrightarrow>
    (hv_hostnames route = [] \<or> (\<exists>h. host = Some h \<and> normalize_request_host h \<noteq> [] \<and>
      normalize_request_host h \<in> set (hv_hostnames route))) \<and>
    prefix (hv_path_prefix route) (normalize_path_prefix path)"

definition more_specific :: "http_route_view \<Rightarrow> http_route_view \<Rightarrow> bool" where
  "more_specific r r' \<longleftrightarrow>
    (if (hv_hostnames r = []) = (hv_hostnames r' = []) then length (hv_path_prefix r') < length (hv_path_prefix r)
     else hv_hostnames r \<noteq> [])"

lemma match_condition:
  "(route_matches_host route (request_host host) \<and> prefix (hv_path_prefix route) (normalize_path_prefix path)) =
    http_route_matches route host path"
  by (auto simp: http_route_matches_def route_matches_host_def request_host_def split: option.splits)

lemma find_sorted_first:
  assumes "find P xs = Some v" "sorted_wrt R xs" "u \<in> set xs" "P u" "u \<noteq> v"
  shows "R v u"
  using assms
proof (induction xs)
  case (Cons x xs)
  show ?case
  proof (cases "P x")
    case True
    then have "v = x" using Cons.prems(1) by simp
    then show ?thesis using Cons.prems(2,3,5) by auto
  next
    case False
    then show ?thesis using Cons by auto
  qed
qed simp

lemma same_specificity:
  assumes "validate_http_conflicts routes = Inr ()" "r \<in> set routes" "r' \<in> set routes"
    "http_route_matches r host path" "http_route_matches r' host path"
    "(hv_hostnames r = []) = (hv_hostnames r' = [])" "length (hv_path_prefix r) = length (hv_path_prefix r')"
  shows "r = r'"
proof -
  have pre: "hv_path_prefix r = hv_path_prefix r'"
    using assms(4,5,7) unfolding http_route_matches_def
    by (metis append_eq_append_conv prefix_def)
  have "\<exists>h. h \<in> set (route_hosts r) \<and> h \<in> set (route_hosts r')"
    using assms(4,5,6) by (auto simp: http_route_matches_def route_hosts_def)
  then show ?thesis using claims_unique[OF assms(1-3)] pre by blast
qed

lemma specificity_order:
  assumes "a \<le> b" "a = b \<Longrightarrow> (m :: nat) \<le> n" "\<not> (a = b \<and> n = m)"
  shows "if a = b then m < n else \<not> a"
  using assms by (cases a; cases b) auto

text \<open>
  C12. The gateway sends a request to the most specific route. In a projected snapshot the chosen
  route matches the host and path of the request and every other matching route is strictly less
  specific: it is a route for any host while the chosen one names the host, or both or neither name the
  host and its path prefix is shorter. So the choice does not depend on the order of the releases or on
  the names of routes, and no route is chosen only when no route matches.
\<close>

theorem match_http_route_most_specific:
  assumes "project parse state = Inr snapshot"
  shows "(match_http_route snapshot host path = None \<longleftrightarrow>
      (\<forall>r\<in>set (gs_http_routes snapshot). \<not> http_route_matches r host path)) \<and>
    (\<forall>v. match_http_route snapshot host path = Some v \<longrightarrow>
      v \<in> set (gs_http_routes snapshot) \<and> http_route_matches v host path \<and>
      (\<forall>u\<in>set (gs_http_routes snapshot). http_route_matches u host path \<and> u \<noteq> v \<longrightarrow> more_specific v u))"
proof -
  obtain https where p: "validate_http_conflicts https = Inr ()"
    "gs_http_routes snapshot = sort_by compare_http_routes https"
    by (rule project_ok[OF assms])
  have set: "set (gs_http_routes snapshot) = set https"
    using p(2) by (simp add: comparator.set_sort_by[OF comparator_http])
  have eq: "match_http_route snapshot host path = find (\<lambda>r. http_route_matches r host path) (gs_http_routes snapshot)"
    unfolding match_http_route_def match_condition ..
  have best: "more_specific v u"
    if v: "match_http_route snapshot host path = Some v" and u: "u \<in> set https" "http_route_matches u host path" "u \<noteq> v"
    for v u
  proof -
    have vin: "v \<in> set https" "http_route_matches v host path"
      using v set by (auto simp: eq find_Some_iff)
    have "compare_http_routes v u \<noteq> Greater"
      using find_sorted_first[OF v[unfolded eq] _ _ u(2,3)] u(1) set p(2)
        comparator.sorted_sort_by[OF comparator_http] by metis
    then have "(hv_hostnames v = []) \<le> (hv_hostnames u = [])"
      "(hv_hostnames v = []) = (hv_hostnames u = []) \<Longrightarrow> length (hv_path_prefix u) \<le> length (hv_path_prefix v)"
      by (auto simp: compare_http_routes_def then_with_Greater_iff)
    moreover have "\<not> ((hv_hostnames v = []) = (hv_hostnames u = []) \<and> length (hv_path_prefix v) = length (hv_path_prefix u))"
      using same_specificity[OF p(1) vin(1) u(1) vin(2) u(2)] u(3) by blast
    ultimately show ?thesis unfolding more_specific_def by (rule specificity_order)
  qed
  show ?thesis using best set by (auto simp: eq find_None_iff find_Some_iff)
qed

section \<open>Rejected states\<close>

lemma project_release_error:
  assumes "project_release parse (project_revisions state) (project_instances state) record views = Inl e"
    and "unique_keys state"
  shows "(e = Missing_Revision (rr_namespace record) (rr_service record) (routing_revision_hash (rr_release record)) \<and>
      release_key record \<notin> revision_key ` set (rt_revisions state)) \<or>
    (\<exists>revision message. revision \<in> set (rt_revisions state) \<and> revision_key revision = release_key record \<and>
      parse (rv_spec_json revision) = Inl message \<and>
      e = Invalid_Revision_Spec (rv_namespace revision) (rv_service revision) message)"
proof (cases "hm_get (project_revisions state) (release_key record)")
  case None
  then have "release_key record \<notin> revision_key ` set (rt_revisions state)"
    using project_revisions_get[OF assms(2), of "release_key record"] by fastforce
  then show ?thesis using assms(1) None by (auto simp: project_release_def release_key_def)
next
  case (Some revision)
  then have r: "revision \<in> set (rt_revisions state)" "revision_key revision = release_key record"
    using project_revisions_get[OF assms(2), of "release_key record"] by simp_all
  then show ?thesis using assms(1) Some
    by (cases "parse (rv_spec_json revision)") (auto simp: project_release_def release_key_def Let_def)
qed

lemma fold_res_error:
  assumes "fold_res f xs s = Inl e"
  obtains x s' where "x \<in> set xs" "f x s' = Inl e"
proof -
  have "\<exists>x\<in>set xs. \<exists>s'. f x s' = Inl e"
    using assms
  proof (induction xs arbitrary: s)
    case (Cons x xs)
    then show ?case by (cases "f x s") auto
  qed simp
  then show ?thesis using that by blast
qed

lemma validate_http_conflicts_error:
  assumes "validate_http_conflicts routes = Inl e"
  shows "\<exists>i j. i < j \<and> j < length (claims routes) \<and> claim_key (claims routes ! i) = claim_key (claims routes ! j) \<and>
    e = Http_Route_Conflict (hv_route_id (fst (claims routes ! i))) (hv_route_id (fst (claims routes ! j)))
      (fst (claim_key (claims routes ! i))) (snd (claim_key (claims routes ! i)))"
proof -
  obtain i j where "i < j" "j < length (claims routes)" "claim_key (claims routes ! i) = claim_key (claims routes ! j)"
    "e = Http_Route_Conflict (hv_route_id (fst (claims routes ! i))) (hv_route_id (fst (claims routes ! j)))
      (snd (claims routes ! j)) (hv_path_prefix (fst (claims routes ! j)))"
    using see_all_error[of claim_key "\<lambda>c. hv_route_id (fst c)"
      "\<lambda>v c. Http_Route_Conflict v (hv_route_id (fst c)) (snd c) (hv_path_prefix (fst c))" "claims routes" "[]" e "[]"] assms
    unfolding validate_http_conflicts_see bind_res_Inl_iff by auto
  then show ?thesis by (intro exI[of _ i] exI[of _ j]) (simp add: claim_key_def)
qed

section \<open>An example\<close>

definition example_web :: service_spec where
  "example_web =
    \<lparr> ss_name = ''web'', ss_placement = Global,
      ss_template = \<lparr> cs_image = ''nginx'', cs_command = None, cs_entrypoint = None, cs_env = [], cs_volumes = [],
        cs_cap_add = [], cs_cap_drop = [], cs_privileged = False, cs_user = None, cs_pull_policy = Pull_IfNotPresent,
        cs_resources = \<lparr> rc_cpu_millicores = None, rc_memory_bytes = None \<rparr>, cs_sysctls = [] \<rparr>,
      ss_network = Net_Overlay, ss_service_ports = [\<lparr> svp_name = ''http'', svp_container_port = 80, svp_protocol = Proto_Tcp \<rparr>],
      ss_publish = [],
      ss_routes = [Route_Http \<lparr> hr_service_port = ''http'', hr_hostnames = [''Example.com''], hr_path_prefix = ''/'' \<rparr>,
        Route_Http \<lparr> hr_service_port = ''http'', hr_hostnames = [], hr_path_prefix = ''/'' \<rparr>],
      ss_readiness = None, ss_rollout = Rollout_Recreate, ss_labels = [], ss_stop_grace_period = None, ss_restart = Restart_No \<rparr>"

definition example_routing :: routing_state where
  "example_routing =
    \<lparr> rt_revisions = [\<lparr> rv_namespace = Namespace ''prod'', rv_service = ''web'', rv_revision_hash = ''r1'', rv_spec_json = ''{}'',
        rv_created_by = MachineId ''m'', rv_created_at = 0 \<rparr>],
      rt_releases = [\<lparr> rr_namespace = Namespace ''prod'', rr_service = ''web'', rr_release =
        \<lparr> rl_primary_revision_hash = ''r1'', rl_referenced_revision_hashes = [''r1''], rl_routing = Routing_Direct ''r1'',
          rl_slots = [\<lparr> rs_slot_id = SlotId ''s'', rs_machine_id = MachineId ''m'',
            rs_active_instance_id = InstanceId ''i'', rs_revision_hash = ''r1'' \<rparr>],
          rl_updated_by_deploy_id = DeployId ''d'', rl_updated_at = 0 \<rparr> \<rparr>],
      rt_instances = [\<lparr> is_instance_id = InstanceId ''i'', is_namespace = Namespace ''prod'', is_service = ''web'',
        is_slot_id = SlotId ''s'', is_machine_id = MachineId ''m'', is_revision_hash = ''r1'', is_deploy_id = DeployId ''d'',
        is_docker_container_id = ''c'', is_overlay_ip = Some 167772170, is_backend_ports = [(''http'', 80)],
        is_phase = Instance_Ready, is_ready = True, is_drain_state = Drain_None, is_error = None,
        is_started_at = 0, is_updated_at = 0 \<rparr>] \<rparr>"

definition example_snapshot :: gateway_snapshot where
  "example_snapshot =
    (let backend = \<lparr> bv_instance_id = InstanceId ''i'', bv_machine_id = MachineId ''m'', bv_service_port = ''http'',
           bv_address = (167772170, 80) \<rparr>;
         route = (\<lambda>i hosts. \<lparr> hv_route_id = ''http:prod:web:'' @ i, hv_namespace = Namespace ''prod'', hv_service = ''web'',
           hv_revision_hash = ''r1'', hv_hostnames = hosts, hv_path_prefix = ''/'', hv_backends = [backend] \<rparr>)
     in \<lparr> gs_http_routes = [route ''0'' [''example.com''], route ''1'' []], gs_tcp_routes = [] \<rparr>)"

lemma example_projects: "project (\<lambda>_. Inr example_web) example_routing = Inr example_snapshot"
  by code_simp

theorem project_routes_exact_witness:
  "\<exists>v. v \<in> set (gs_http_routes example_snapshot) \<and>
    http_route_of (\<lambda>_. Inr example_web) example_routing (hd (rt_releases example_routing)) v"
proof -
  have u: "unique_keys example_routing" by (simp add: unique_keys_def example_routing_def)
  have "hd (gs_http_routes example_snapshot) \<in> set (gs_http_routes example_snapshot)"
    by (simp add: example_snapshot_def Let_def)
  then obtain x where "x \<in> set (rt_releases example_routing)"
    "http_route_of (\<lambda>_. Inr example_web) example_routing x (hd (gs_http_routes example_snapshot))"
    using project_routes_exact[OF example_projects u] by blast
  moreover have "x \<in> set (rt_releases example_routing) \<Longrightarrow> x = hd (rt_releases example_routing)"
    by (simp add: example_routing_def)
  ultimately show ?thesis using \<open>hd (gs_http_routes example_snapshot) \<in> _\<close> by blast
qed

theorem match_http_route_most_specific_witness:
  "match_http_route example_snapshot (Some ''EXAMPLE.com:80'') ''/a'' = Some (hd (gs_http_routes example_snapshot)) \<and>
    more_specific (hd (gs_http_routes example_snapshot)) (gs_http_routes example_snapshot ! 1)"
proof -
  have m: "match_http_route example_snapshot (Some ''EXAMPLE.com:80'') ''/a'' = Some (hd (gs_http_routes example_snapshot))"
    by code_simp
  have "gs_http_routes example_snapshot ! 1 \<in> set (gs_http_routes example_snapshot)"
    "gs_http_routes example_snapshot ! 1 \<noteq> hd (gs_http_routes example_snapshot)"
    by (simp_all add: example_snapshot_def Let_def)
  moreover have "http_route_matches (gs_http_routes example_snapshot ! 1) (Some ''EXAMPLE.com:80'') ''/a''"
    unfolding match_condition[symmetric] by code_simp
  ultimately show ?thesis
    using match_http_route_most_specific[OF example_projects, of "Some ''EXAMPLE.com:80''" "''/a''"] m by blast
qed

end
