(* ===== verification/Routing_Sync.thy ===== *)
theory Routing_Sync
  imports Memory_Store
begin

text \<open>
  The refresh loop that the gateway (\<open>crates/ployz-gateway/src/sync.rs\<close>) and the DNS server
  (\<open>crates/ployz-dns/src/sync.rs\<close>) run beside the store: wait for an invalidation, drain the channel,
  load the routing state, replace the snapshot that is being served.

  The loop, the store's own operations and the requests interleave, so the system is a step relation;
  every \<open>await\<close> of the loop is a point at which another operation of the store may run. The receiving
  half of the invalidation channel is the same opaque value as in \<open>Memory_Store\<close>, with \<open>try_recv\<close> as
  an argument. The locale \<open>refresh_loop\<close> is what the loop relies on: the channel's contract and a
  refresh that serves the projection of what was loaded, or keeps what it served.
\<close>

section \<open>The loop\<close>

datatype sync_phase = Sync_Waiting | Sync_Draining | Sync_Loading | Sync_Loaded "(store_error, routing_state) result"

record ('c, 'd, 's) sync_system =
  sy_store :: "('c, 'd) store_inner"
  sy_phase :: sync_phase
  sy_served :: 's

text \<open>The calls another task may make on the store.\<close>

datatype store_request =
    Call_Upsert_Revision service_revision_record
  | Call_Upsert_Release service_release_record
  | Call_Delete_Release namespace string
  | Call_Upsert_Instance instance_status_record
  | Call_Delete_Instance instance_id
  | Call_Upsert_Deploy deploy_record
  | Call_Commit deploy_commit
  | Call_Create_Invite invite_record
  | Call_Consume_Invite string timestamp
  | Call_Upsert_Machine machine_record
  | Call_Delete_Machine machine_id

fun store_call :: "('c, machine_event) sender \<Rightarrow> ('d, unit) sender \<Rightarrow> store_request \<Rightarrow> ('c, 'd) store_inner \<Rightarrow> ('c, 'd) store_inner" where
  "store_call send_event try_send (Call_Upsert_Revision r) s = snd (upsert_service_revision try_send r s)"
| "store_call send_event try_send (Call_Upsert_Release r) s = snd (upsert_service_release try_send r s)"
| "store_call send_event try_send (Call_Delete_Release ns service) s = snd (delete_service_release try_send ns service s)"
| "store_call send_event try_send (Call_Upsert_Instance r) s = snd (upsert_instance_status try_send r s)"
| "store_call send_event try_send (Call_Delete_Instance i) s = snd (delete_instance_status try_send i s)"
| "store_call send_event try_send (Call_Upsert_Deploy r) s = snd (upsert_deploy r s)"
| "store_call send_event try_send (Call_Commit c) s = snd (apply_deploy_commit try_send c s)"
| "store_call send_event try_send (Call_Create_Invite i) s = snd (create_invite i s)"
| "store_call send_event try_send (Call_Consume_Invite i now) s = snd (consume_invite i now s)"
| "store_call send_event try_send (Call_Upsert_Machine r) s = snd (upsert_self_machine send_event r s)"
| "store_call send_event try_send (Call_Delete_Machine i) s = snd (delete_machine send_event i s)"

definition set_channel :: "nat \<Rightarrow> 'd \<Rightarrow> ('c, 'd) store_inner \<Rightarrow> ('c, 'd) store_inner" where
  "set_channel k c s = s\<lparr>st_routing_subscribers := (st_routing_subscribers s)[k := c]\<rparr>"

text \<open>
  One step of the loop whose channel is subscriber \<open>k\<close>: \<open>recv().await\<close>, one \<open>try_recv()\<close> of the
  draining loop, the load, and the replacement of the snapshot. It is \<open>None\<close> when the loop is blocked.
\<close>

definition loop_step ::
    "('d \<Rightarrow> bool \<times> 'd) \<Rightarrow> ((store_error, routing_state) result \<Rightarrow> 's \<Rightarrow> 's) \<Rightarrow> nat \<Rightarrow>
     ('c, 'd, 's) sync_system \<Rightarrow> ('c, 'd, 's) sync_system option" where
  "loop_step try_recv refresh k y =
    (let s = sy_store y; c = st_routing_subscribers s ! k in
     case sy_phase y of
       Sync_Waiting \<Rightarrow>
         (case try_recv c of
            (True, c') \<Rightarrow> Some (y\<lparr>sy_store := set_channel k c' s, sy_phase := Sync_Draining\<rparr>)
          | (False, _) \<Rightarrow> None)
     | Sync_Draining \<Rightarrow>
         (case try_recv c of
            (True, c') \<Rightarrow> Some (y\<lparr>sy_store := set_channel k c' s\<rparr>)
          | (False, c') \<Rightarrow> Some (y\<lparr>sy_store := set_channel k c' s, sy_phase := Sync_Loading\<rparr>))
     | Sync_Loading \<Rightarrow>
         (case load_routing_state s of (r, s') \<Rightarrow> Some (y\<lparr>sy_store := s', sy_phase := Sync_Loaded r\<rparr>))
     | Sync_Loaded r \<Rightarrow> Some (y\<lparr>sy_served := refresh r (sy_served y), sy_phase := Sync_Waiting\<rparr>))"

inductive sync_step ::
    "('c, machine_event) sender \<Rightarrow> ('d, unit) sender \<Rightarrow> ('d \<Rightarrow> bool \<times> 'd) \<Rightarrow>
     ((store_error, routing_state) result \<Rightarrow> 's \<Rightarrow> 's) \<Rightarrow> nat \<Rightarrow>
     ('c, 'd, 's) sync_system \<Rightarrow> ('c, 'd, 's) sync_system \<Rightarrow> bool"
  for send_event try_send try_recv refresh k where
  step_store: "sync_step send_event try_send try_recv refresh k y
    (y\<lparr>sy_store := store_call send_event try_send call (sy_store y)\<rparr>)"
| step_loop: "loop_step try_recv refresh k y = Some y' \<Longrightarrow> sync_step send_event try_send try_recv refresh k y y'"

inductive_cases sync_step_cases: "sync_step send_event try_send try_recv refresh k y y'"

abbreviation loop_runs ::
    "('d \<Rightarrow> bool \<times> 'd) \<Rightarrow> ((store_error, routing_state) result \<Rightarrow> 's \<Rightarrow> 's) \<Rightarrow> nat \<Rightarrow>
     ('c, 'd, 's) sync_system \<Rightarrow> ('c, 'd, 's) sync_system \<Rightarrow> bool" where
  "loop_runs try_recv refresh k \<equiv> (\<lambda>y y'. loop_step try_recv refresh k y = Some y')\<^sup>*\<^sup>*"

text \<open>
  The start of the loop: it subscribes, and what is served was projected from the routing state of the
  same moment.
\<close>

definition routing_of :: "('c, 'd) store_inner \<Rightarrow> routing_state" where
  "routing_of s = \<lparr> rt_revisions = hm_values (st_service_revisions s),
    rt_releases = hm_values (st_service_releases s), rt_instances = hm_values (st_instance_status s) \<rparr>"

definition sync_start :: "'d \<Rightarrow> 's \<Rightarrow> ('c, 'd) store_inner \<Rightarrow> ('c, 'd, 's) sync_system" where
  "sync_start fresh served s =
    \<lparr> sy_store = snd (subscribe_routing_invalidations fresh s), sy_phase = Sync_Waiting, sy_served = served \<rparr>"

section \<open>What the loop relies on\<close>

definition channel_ok :: "('d, unit) sender \<Rightarrow> ('d \<Rightarrow> bool \<times> 'd) \<Rightarrow> ('d \<Rightarrow> nat) \<Rightarrow> bool" where
  "channel_ok try_send try_recv queued \<longleftrightarrow>
    (\<forall>c. fst (try_send c ()) \<noteq> Send_Closed \<and> 0 < queued (snd (try_send c ()))) \<and>
    (\<forall>c c'. try_recv c = (True, c') \<longrightarrow> queued c' < queued c) \<and>
    (\<forall>c c'. try_recv c = (False, c') \<longrightarrow> queued c = 0 \<and> queued c' = 0)"

text \<open>
  The served snapshot is current when it is the projection of the routing state, if that has one. The
  invariant says so while the loop waits with an empty channel; \<open>effort\<close> bounds the steps to rest.
\<close>

definition current :: "(routing_state \<Rightarrow> 's option) \<Rightarrow> ('c, 'd, 's) sync_system \<Rightarrow> bool" where
  "current projection y \<longleftrightarrow> (\<forall>s. projection (routing_of (sy_store y)) = Some s \<longrightarrow> sy_served y = s)"

definition loop_inv :: "(routing_state \<Rightarrow> 's option) \<Rightarrow> ('d \<Rightarrow> nat) \<Rightarrow> nat \<Rightarrow> ('c, 'd, 's) sync_system \<Rightarrow> bool" where
  "loop_inv projection queued k y \<longleftrightarrow>
    k < length (st_routing_subscribers (sy_store y)) \<and>
    (queued (st_routing_subscribers (sy_store y) ! k) = 0 \<longrightarrow>
      (case sy_phase y of Sync_Waiting \<Rightarrow> current projection y
       | Sync_Loaded r \<Rightarrow> r = Inr (routing_of (sy_store y)) | _ \<Rightarrow> True))"

definition at_rest :: "('d \<Rightarrow> nat) \<Rightarrow> nat \<Rightarrow> ('c, 'd, 's) sync_system \<Rightarrow> bool" where
  "at_rest queued k y \<longleftrightarrow> sy_phase y = Sync_Waiting \<and> queued (st_routing_subscribers (sy_store y) ! k) = 0"

definition effort :: "('d \<Rightarrow> nat) \<Rightarrow> nat \<Rightarrow> ('c, 'd, 's) sync_system \<Rightarrow> nat" where
  "effort queued k y = 4 * queued (st_routing_subscribers (sy_store y) ! k) +
    (case sy_phase y of Sync_Waiting \<Rightarrow> 0 | Sync_Draining \<Rightarrow> 3 | Sync_Loading \<Rightarrow> 2 | Sync_Loaded _ \<Rightarrow> 1)"

locale refresh_loop =
  fixes refresh :: "(store_error, routing_state) result \<Rightarrow> 's \<Rightarrow> 's"
    and projection :: "routing_state \<Rightarrow> 's option"
  assumes refresh_loaded: "refresh (Inr st) served = (case projection st of Some s \<Rightarrow> s | None \<Rightarrow> served)"
    and refresh_failed: "refresh (Inl e) served = served"

section \<open>The store's operations and the channel\<close>

lemma broadcast_channel:
  assumes "channel_ok try_send try_recv queued" "k < length cs"
  shows "k < length (broadcast try_send () cs) \<and> 0 < queued (broadcast try_send () cs ! k)"
  using assms(2)
proof (induction cs arbitrary: k)
  case (Cons c cs)
  obtain out c' where o: "try_send c () = (out, c')" by fastforce
  have "out \<noteq> Send_Closed" "0 < queued c'"
    using assms(1) o unfolding channel_ok_def by (metis fst_conv snd_conv)+
  then show ?case using Cons o by (cases out; cases k) auto
qed simp

lemma routing_of_broadcast [simp]:
  "routing_of (broadcast_routing_refresh g s) = routing_of s"
  "routing_of (broadcast_machine h e s) = routing_of s"
  "st_routing_subscribers (broadcast_machine h e s) = st_routing_subscribers s"
  "st_routing_subscribers (broadcast_routing_refresh g s) = broadcast g () (st_routing_subscribers s)"
  by (simp_all add: routing_of_def broadcast_routing_refresh_def broadcast_machine_def)

text \<open>Every call either leaves the routing state and the channels alone or sends an invalidation.\<close>

lemma store_call_invalidates:
  fixes s :: "('c, 'd) store_inner"
  shows "(routing_of (store_call h g call s) = routing_of s \<and>
      st_routing_subscribers (store_call h g call s) = st_routing_subscribers s) \<or>
    st_routing_subscribers (store_call h g call s) = broadcast g () (st_routing_subscribers s)"
  by (cases call)
     (auto simp: upsert_service_revision_def upsert_service_release_def delete_service_release_def
       upsert_instance_status_def delete_instance_status_def upsert_deploy_def apply_deploy_commit_def
       create_invite_def consume_invite_def upsert_self_machine_def delete_machine_def Let_def routing_of_def
       broadcast_machine_def broadcast_routing_refresh_def
       split: option.splits)

lemma set_channel_simps [simp]:
  "routing_of (set_channel k c s) = routing_of s"
  "st_routing_subscribers (set_channel k c s) = (st_routing_subscribers s)[k := c]"
  by (simp_all add: set_channel_def routing_of_def)

lemma load_routing_state_of: "load_routing_state s = (Inr (routing_of s), s)"
  by (simp add: load_routing_state_def routing_of_def)

section \<open>The invariant of the loop\<close>

context refresh_loop
begin

lemma inv_store_call:
  assumes "channel_ok try_send try_recv queued" "loop_inv projection queued k y"
  shows "loop_inv projection queued k (y\<lparr>sy_store := store_call send_event try_send call (sy_store y)\<rparr>)"
proof -
  let ?s = "store_call send_event try_send call (sy_store y)"
  have k: "k < length (st_routing_subscribers (sy_store y))" using assms(2) by (simp add: loop_inv_def)
  from store_call_invalidates[of send_event try_send call "sy_store y"] show ?thesis
  proof
    assume "routing_of ?s = routing_of (sy_store y) \<and> st_routing_subscribers ?s = st_routing_subscribers (sy_store y)"
    then show ?thesis using assms(2) by (simp add: loop_inv_def current_def cong: sync_phase.case_cong)
  next
    assume "st_routing_subscribers ?s = broadcast try_send () (st_routing_subscribers (sy_store y))"
    then show ?thesis using broadcast_channel[OF assms(1) k] by (simp add: loop_inv_def)
  qed
qed

lemma inv_loop_step:
  assumes "loop_inv projection queued k y" "loop_step try_recv refresh k y = Some y'"
  shows "loop_inv projection queued k y'"
proof -
  let ?c = "st_routing_subscribers (sy_store y) ! k"
  obtain b c' where r: "try_recv ?c = (b, c')" by fastforce
  show ?thesis
  proof (cases "sy_phase y")
    case Sync_Waiting
    then show ?thesis using assms r by (cases b) (auto simp: loop_step_def loop_inv_def Let_def)
  next
    case Sync_Draining
    then show ?thesis using assms r by (cases b) (auto simp: loop_step_def loop_inv_def Let_def)
  next
    case Sync_Loading
    then show ?thesis using assms by (auto simp: loop_step_def loop_inv_def Let_def load_routing_state_of)
  next
    case (Sync_Loaded x)
    then show ?thesis using assms
      by (auto simp: loop_step_def loop_inv_def Let_def current_def refresh_loaded)
  qed
qed

lemma inv_reachable:
  assumes ok: "channel_ok try_send try_recv queued"
    and "(sync_step send_event try_send try_recv refresh k)\<^sup>*\<^sup>* y y'" "loop_inv projection queued k y"
  shows "loop_inv projection queued k y'"
  using assms(2,3)
proof (induction rule: rtranclp_induct)
  case (step a b)
  then show ?case using inv_store_call[OF ok] inv_loop_step by (elim sync_step_cases) auto
qed simp

lemma inv_start:
  assumes "projection (routing_of s) = Some served"
  shows "loop_inv projection queued (length (st_routing_subscribers s)) (sync_start fresh served s)"
  using assms by (simp add: loop_inv_def sync_start_def subscribe_routing_invalidations_def current_def routing_of_def)

lemma waiting_current:
  "loop_inv projection queued k y \<Longrightarrow> sy_phase y = Sync_Waiting \<Longrightarrow> queued (st_routing_subscribers (sy_store y) ! k) = 0 \<Longrightarrow> current projection y"
  by (simp add: loop_inv_def)

lemma loop_progress:
  assumes ok: "channel_ok try_send try_recv queued" and inv: "loop_inv projection queued k y"
    and busy: "\<not> at_rest queued k y"
  shows "\<exists>y'. loop_step try_recv refresh k y = Some y' \<and> effort queued k y' < effort queued k y \<and>
    routing_of (sy_store y') = routing_of (sy_store y)"
proof -
  let ?c = "st_routing_subscribers (sy_store y) ! k"
  obtain b c' where r: "try_recv ?c = (b, c')" by fastforce
  have k: "k < length (st_routing_subscribers (sy_store y))" using inv by (simp add: loop_inv_def)
  have t: "b \<Longrightarrow> queued c' < queued ?c" and f: "\<not> b \<Longrightarrow> queued ?c = 0 \<and> queued c' = 0"
    using ok r unfolding channel_ok_def by (metis (full_types))+
  show ?thesis
  proof (cases "sy_phase y")
    case Sync_Waiting
    then have "queued ?c \<noteq> 0" using busy by (simp add: at_rest_def)
    then have b: "b = True" using f by (cases b) simp_all
    then show ?thesis using Sync_Waiting r t k by (auto simp: loop_step_def effort_def Let_def)
  next
    case Sync_Draining
    then show ?thesis using r t f k by (cases b) (auto simp: loop_step_def effort_def Let_def)
  qed (auto simp: loop_step_def effort_def Let_def load_routing_state_of)
qed

lemma comes_to_rest:
  assumes ok: "channel_ok try_send try_recv queued" and "loop_inv projection queued k y"
  shows "\<exists>y'. loop_runs try_recv refresh k y y' \<and> at_rest queued k y' \<and> current projection y' \<and>
    routing_of (sy_store y') = routing_of (sy_store y)"
  using assms(2)
proof (induction "effort queued k y" arbitrary: y rule: less_induct)
  case less
  show ?case
  proof (cases "at_rest queued k y")
    case True
    then show ?thesis using waiting_current[OF less.prems] unfolding at_rest_def by blast
  next
    case False
    obtain y1 where y1: "loop_step try_recv refresh k y = Some y1" "effort queued k y1 < effort queued k y"
      "routing_of (sy_store y1) = routing_of (sy_store y)"
      using loop_progress[OF ok less.prems False] by blast
    obtain y' where "loop_runs try_recv refresh k y1 y'" "at_rest queued k y'" "current projection y'"
      "routing_of (sy_store y') = routing_of (sy_store y1)"
      using less.hyps[OF y1(2) inv_loop_step[OF less.prems y1(1)]] by blast
    then show ?thesis using y1 by (metis (mono_tags, lifting) converse_rtranclp_into_rtranclp)
  qed
qed

end

end
