(* ===== verification/Gateway_Proxy.thy ===== *)
theory Gateway_Proxy
  imports Gateway_Routes Routing_Sync
begin

text \<open>
  The serving side of the gateway: the shared snapshot with its load balancers
  (\<open>crates/ployz-gateway/src/snapshot.rs\<close>), the refresh of the snapshot (\<open>sync.rs\<close>), and the
  callbacks of the HTTP proxy (\<open>proxy.rs\<close>).

  \<open>pingora\<close> is not modelled: \<open>LoadBalancer::try_from_iter\<close>, the selection of a backend, the response to
  the client and the insertion of a header are arguments. A call of a callback on the request context
  returns the context after it.
\<close>

section \<open>The shared snapshot\<close>

record 'lb snapshot_state =
  sn_snapshot :: gateway_snapshot
  sn_load_balancers :: "(string, 'lb) hash_map"
  sn_backend_lookup :: "(ipv4_addr \<times> u16, backend_view) hash_map"

definition socket_addr_str :: "ipv4_addr \<times> u16 \<Rightarrow> string" where
  "socket_addr_str a = ipv4_str (fst a) @ '':'' @ fmt_dec (unat (snd a))"

definition build_route ::
    "(string list \<Rightarrow> ('e, 'lb) result) \<Rightarrow> http_route_view \<Rightarrow>
     (string, 'lb) hash_map \<times> (ipv4_addr \<times> u16, backend_view) hash_map \<Rightarrow>
     (string, 'lb) hash_map \<times> (ipv4_addr \<times> u16, backend_view) hash_map" where
  "build_route try_from_iter route acc =
    (case acc of (load_balancers, backend_lookup) \<Rightarrow>
      if hv_backends route = [] then acc
      else
        let addrs = map (\<lambda>b. socket_addr_str (bv_address b)) (hv_backends route);
            backend_lookup = fold (\<lambda>b. hm_insert (bv_address b) b) (hv_backends route) backend_lookup
        in case try_from_iter addrs of
             Inl _ \<Rightarrow> (load_balancers, backend_lookup)
           | Inr lb \<Rightarrow> (hm_insert (hv_route_id route) lb load_balancers, backend_lookup))"

definition snapshot_build :: "(string list \<Rightarrow> ('e, 'lb) result) \<Rightarrow> gateway_snapshot \<Rightarrow> 'lb snapshot_state" where
  "snapshot_build try_from_iter snapshot =
    (let (load_balancers, backend_lookup) = fold (build_route try_from_iter) (gs_http_routes snapshot) ([], [])
     in \<lparr> sn_snapshot = snapshot, sn_load_balancers = load_balancers, sn_backend_lookup = backend_lookup \<rparr>)"

text \<open>\<open>SharedSnapshot::new\<close> and \<open>replace\<close>: the lock holds the built state.\<close>

definition shared_snapshot_new :: "(string list \<Rightarrow> ('e, 'lb) result) \<Rightarrow> gateway_snapshot \<Rightarrow> 'lb snapshot_state" where
  "shared_snapshot_new = snapshot_build"

definition shared_snapshot_replace ::
    "(string list \<Rightarrow> ('e, 'lb) result) \<Rightarrow> gateway_snapshot \<Rightarrow> 'lb snapshot_state \<Rightarrow> 'lb snapshot_state" where
  "shared_snapshot_replace try_from_iter snapshot _ = snapshot_build try_from_iter snapshot"

section \<open>Refreshing\<close>

datatype gateway_error = Gateway_Store store_error | Gateway_Projection projection_error

definition load_projected_snapshot ::
    "(string \<Rightarrow> (string, service_spec) result) \<Rightarrow> (store_error, routing_state) result \<Rightarrow>
     (gateway_error, gateway_snapshot) result" where
  "load_projected_snapshot parse loaded =
    bind_res (map_err Gateway_Store loaded) (\<lambda>state. map_err Gateway_Projection (project parse state))"

definition gateway_refresh ::
    "(string list \<Rightarrow> ('e, 'lb) result) \<Rightarrow> (string \<Rightarrow> (string, service_spec) result) \<Rightarrow>
     (store_error, routing_state) result \<Rightarrow> 'lb snapshot_state \<Rightarrow> 'lb snapshot_state" where
  "gateway_refresh try_from_iter parse loaded served =
    (case load_projected_snapshot parse loaded of
       Inr next_snapshot \<Rightarrow> shared_snapshot_replace try_from_iter next_snapshot served
     | Inl _ \<Rightarrow> served)"

section \<open>The proxy\<close>

datatype peer_addr = Inet_Addr "ipv4_addr \<times> u16" | Unix_Addr string

definition as_inet :: "peer_addr \<Rightarrow> (ipv4_addr \<times> u16) option" where
  "as_inet a = (case a of Inet_Addr x \<Rightarrow> Some x | Unix_Addr _ \<Rightarrow> None)"

record request_ctx =
  rq_route_id :: "string option"
  rq_selected_addr :: "(ipv4_addr \<times> u16) option"
  rq_upstream_host :: "string option"
  rq_retry_allowed :: bool

definition request_ctx_default :: request_ctx where
  "request_ctx_default =
    \<lparr> rq_route_id = None, rq_selected_addr = None, rq_upstream_host = None, rq_retry_allowed = False \<rparr>"

record http_peer =
  hp_addr :: peer_addr
  hp_connection_timeout :: nat
  hp_total_connection_timeout :: nat
  hp_read_timeout :: nat
  hp_write_timeout :: nat
  hp_idle_timeout :: nat

datatype 'e proxy_error = Http_Status nat string | Insert_Header string 'e | Proxy_Io 'e

definition is_retryable_method :: "string \<Rightarrow> bool" where
  "is_retryable_method method \<longleftrightarrow> method \<in> {''GET'', ''HEAD'', ''OPTIONS''}"

definition request_filter ::
    "(nat \<Rightarrow> ('e, unit) result) \<Rightarrow> 'lb snapshot_state \<Rightarrow> string \<Rightarrow> string option \<Rightarrow> string \<Rightarrow> request_ctx \<Rightarrow>
     ('e proxy_error, bool) result \<times> request_ctx" where
  "request_filter respond_error state method host path ctx =
    (case match_http_route (sn_snapshot state) host path of
       None \<Rightarrow> (bind_res (map_err Proxy_Io (respond_error 404)) (\<lambda>_. Inr True), ctx)
     | Some route \<Rightarrow>
         (Inr False, ctx\<lparr>rq_route_id := Some (hv_route_id route),
            rq_retry_allowed := is_retryable_method method, rq_upstream_host := host\<rparr>))"

definition upstream_peer ::
    "('lb \<Rightarrow> peer_addr option) \<Rightarrow> 'lb snapshot_state \<Rightarrow> request_ctx \<Rightarrow> ('e proxy_error, http_peer) result \<times> request_ctx" where
  "upstream_peer select state ctx =
    (case rq_route_id ctx of
       None \<Rightarrow> (Inl (Http_Status 500 ''missing route_id in upstream_peer''), ctx)
     | Some route_id \<Rightarrow>
         (case hm_get (sn_load_balancers state) route_id of
            None \<Rightarrow> (Inl (Http_Status 503 ''no load balancer for route''), ctx)
          | Some lb \<Rightarrow>
              (case select lb of
                 None \<Rightarrow> (Inl (Http_Status 503 ''no eligible backend''), ctx)
               | Some addr \<Rightarrow>
                   (Inr \<lparr> hp_addr = addr, hp_connection_timeout = 2, hp_total_connection_timeout = 5,
                      hp_read_timeout = 30, hp_write_timeout = 30, hp_idle_timeout = 60 \<rparr>,
                    ctx\<lparr>rq_selected_addr := as_inet addr\<rparr>))))"

definition upstream_request_filter ::
    "(string \<Rightarrow> string \<Rightarrow> 'h \<Rightarrow> ('e, 'h) result) \<Rightarrow> string option \<Rightarrow> request_ctx \<Rightarrow> 'h \<Rightarrow> ('e proxy_error, 'h) result" where
  "upstream_request_filter insert_header client_ip ctx request =
    bind_res (case rq_upstream_host ctx of
        None \<Rightarrow> Inr request
      | Some host \<Rightarrow> map_err (Insert_Header ''insert Host header'') (insert_header ''Host'' host request)) (\<lambda>request.
    bind_res (case client_ip of
        None \<Rightarrow> Inr request
      | Some ip \<Rightarrow> map_err (Insert_Header ''insert X-Forwarded-For header'') (insert_header ''X-Forwarded-For'' ip request)) (\<lambda>request.
    map_err (Insert_Header ''insert X-Forwarded-Proto header'') (insert_header ''X-Forwarded-Proto'' ''http'' request)))"

definition fail_to_connect :: "('e \<Rightarrow> 'e) \<Rightarrow> request_ctx \<Rightarrow> 'e \<Rightarrow> 'e" where
  "fail_to_connect set_retry ctx e = (if \<not> rq_retry_allowed ctx then e else set_retry e)"

definition backend_label :: "'lb snapshot_state \<Rightarrow> request_ctx \<Rightarrow> string" where
  "backend_label state ctx =
    (case rq_selected_addr ctx of
       None \<Rightarrow> ''-''
     | Some addr \<Rightarrow>
         (case hm_get (sn_backend_lookup state) addr of
            None \<Rightarrow> ''-''
          | Some bv \<Rightarrow> instance_id_str (bv_instance_id bv)))"

section \<open>The load balancers of a snapshot\<close>

lemma dec_no_char: "\<not> is_ascii_digit c \<Longrightarrow> c \<notin> set (fmt_dec n)"
  using set_fmt_dec unfolding fmt_dec_def by blast

lemma ipv4_str_inject: "ipv4_str a = ipv4_str b \<longleftrightarrow> a = b"
proof
  let ?q = "\<lambda>a :: ipv4_addr. map fmt_dec [unat a div 2 ^ 24, unat a div 2 ^ 16 mod 256, unat a div 2 ^ 8 mod 256, unat a mod 256]"
  have dot: "\<not> is_ascii_digit (CHR ''.'')" by code_simp
  have s: "split_on (CHR ''.'') (ipv4_str a) = ?q a" for a
    unfolding ipv4_str_def Let_def by (rule split_on_join) (auto simp: dec_no_char[OF dot])
  assume "ipv4_str a = ipv4_str b"
  then have "?q a = ?q b" using s[of a] s[of b] by simp
  then have "unat a div 2 ^ 24 = unat b div 2 ^ 24" "unat a div 2 ^ 16 mod 256 = unat b div 2 ^ 16 mod 256"
    "unat a div 2 ^ 8 mod 256 = unat b div 2 ^ 8 mod 256" "unat a mod 256 = unat b mod 256"
    by simp_all
  moreover have "n = ((n div 2 ^ 24 * 256 + n div 2 ^ 16 mod 256) * 256 + n div 2 ^ 8 mod 256) * 256 + n mod 256" for n :: nat
  proof -
    have "n div 2 ^ 24 = n div 2 ^ 16 div 256" "n div 2 ^ 16 = n div 2 ^ 8 div 256" "n div 2 ^ 8 = n div 256"
      by (simp_all flip: div_mult2_eq)
    then show ?thesis by (metis div_mult_mod_eq)
  qed
  ultimately have "unat a = unat b" by metis
  then show "a = b" by (simp add: word_unat_eq_iff)
qed simp

lemma socket_addr_str_inject: "socket_addr_str a = socket_addr_str b \<longleftrightarrow> a = b"
proof
  have colon: "\<not> is_ascii_digit (CHR '':'')" by code_simp
  have s: "rsplit_once (CHR '':'') (socket_addr_str a) = Some (ipv4_str (fst a), fmt_dec (unat (snd a)))" for a
    unfolding socket_addr_str_def using rsplit_once_append[OF dec_no_char[OF colon]] by simp
  assume "socket_addr_str a = socket_addr_str b"
  then have "ipv4_str (fst a) = ipv4_str (fst b)" "fmt_dec (unat (snd a)) = fmt_dec (unat (snd b))"
    using s[of a] s[of b] by simp_all
  then show "a = b" by (simp add: ipv4_str_inject prod_eq_iff word_unat_eq_iff)
qed simp

definition balances :: "(string list \<Rightarrow> ('e, 'lb) result) \<Rightarrow> http_route_view \<Rightarrow> 'lb \<Rightarrow> bool" where
  "balances try_from_iter route lb \<longleftrightarrow> hv_backends route \<noteq> [] \<and>
    try_from_iter (map (\<lambda>b. socket_addr_str (bv_address b)) (hv_backends route)) = Inr lb"

lemma fold_build_route:
  assumes "\<And>i lb. hm_get (fst acc) i = Some lb \<Longrightarrow> \<exists>r\<in>R. hv_route_id r = i \<and> balances try_from_iter r lb"
    and "hm_get (fst (fold (build_route try_from_iter) routes acc)) i = Some lb"
  shows "\<exists>r\<in>R \<union> set routes. hv_route_id r = i \<and> balances try_from_iter r lb"
  using assms
proof (induction routes arbitrary: acc R)
  case (Cons x xs)
  have "\<exists>r\<in>insert x R. hv_route_id r = i \<and> balances try_from_iter r lb"
    if "hm_get (fst (build_route try_from_iter x acc)) i = Some lb" for i lb
    using that Cons.prems(1)[of i lb]
    by (cases acc) (auto simp: build_route_def balances_def update_conv' Let_def split: if_splits sum.splits)
  from Cons.IH[of "build_route try_from_iter x acc" "insert x R", OF this] Cons.prems(2) show ?case by simp
qed auto

lemma snapshot_build_balancer:
  assumes "hm_get (sn_load_balancers (snapshot_build try_from_iter snapshot)) i = Some lb"
  shows "\<exists>r\<in>set (gs_http_routes snapshot). hv_route_id r = i \<and> balances try_from_iter r lb"
proof -
  have "sn_load_balancers (snapshot_build try_from_iter snapshot) = fst (fold (build_route try_from_iter) (gs_http_routes snapshot) ([], []))"
    by (simp add: snapshot_build_def case_prod_beta)
  then show ?thesis using assms fold_build_route[of "([], [])" "{}" try_from_iter "gs_http_routes snapshot" i lb] by simp
qed

lemma snapshot_build_snapshot [simp]: "sn_snapshot (snapshot_build try_from_iter snapshot) = snapshot"
  by (simp add: snapshot_build_def case_prod_beta)

section \<open>Requests reach ready instances\<close>

definition select_ok :: "(string list \<Rightarrow> ('e, 'lb) result) \<Rightarrow> ('lb \<Rightarrow> peer_addr option) \<Rightarrow> bool" where
  "select_ok try_from_iter select \<longleftrightarrow>
    (\<forall>addrs lb a. try_from_iter addrs = Inr lb \<longrightarrow> select lb = Some a \<longrightarrow>
      (\<exists>x. a = Inet_Addr x \<and> socket_addr_str x \<in> set addrs))"

definition serves ::
    "routing_state \<Rightarrow> service_release_record \<Rightarrow> instance_status_record \<Rightarrow> ipv4_addr \<times> u16 \<Rightarrow> bool" where
  "serves state record inst addr \<longleftrightarrow>
    inst \<in> set (rt_instances state) \<and> is_namespace inst = rr_namespace record \<and> is_service inst = rr_service record \<and>
    is_revision_hash inst \<in> allowed_revision_hashes (rr_release record) \<and>
    is_ready inst \<and> is_phase inst = Instance_Ready \<and> is_drain_state inst = Drain_None \<and> is_error inst = None \<and>
    (\<exists>slot\<in>set (rl_slots (rr_release record)). rs_active_instance_id slot = is_instance_id inst \<and>
      rs_machine_id slot = is_machine_id inst) \<and>
    is_overlay_ip inst = Some (fst addr) \<and> snd addr \<in> snd ` set (is_backend_ports inst)"

lemma route_backends_serve:
  assumes "b \<in> set (route_backends state record spec port)"
  shows "\<exists>inst. serves state record inst (bv_address b)"
proof -
  obtain slot where "slot \<in> set (rl_slots (rr_release record))" "b \<in> set (slot_backends state record port slot)"
    using assms by (auto simp: route_backends_def comparator.set_sort_by[OF comparator_backends] split: if_splits)
  moreover from this(2) obtain inst ip number where
    "inst \<in> set (rt_instances state)" "is_instance_id inst = rs_active_instance_id slot"
    "is_routable_instance inst slot (rr_namespace record) (rr_service record) (allowed_revision_hashes (rr_release record))"
    "is_overlay_ip inst = Some ip" "bt_get (is_backend_ports inst) port = Some number" "bv_address b = (ip, number)"
    by (auto simp: slot_backends_def opt_list_def split: if_splits option.splits) (metis that)
  ultimately show ?thesis
    by (intro exI[of _ inst]) (force simp: serves_def is_routable_instance_def dest: map_of_SomeD)
qed

text \<open>
  C7. A request is only proxied to an instance that may serve it. When the snapshot being served was
  projected from the routing state and its route ids are distinct, a request that the gateway accepts
  and gives an upstream goes to the overlay address of an instance of the service whose route is the
  match for the request; that instance is the active one of a slot of the service's release, is ready,
  not draining and free of errors, and runs a revision that the routing policy allows. The load
  balancer is only assumed to select one of the addresses it was built from.
\<close>

theorem proxied_to_ready_instance:
  assumes "project parse state = Inr snapshot" "unique_keys state"
    and "distinct (map hv_route_id (gs_http_routes snapshot))"
    and "select_ok try_from_iter select"
    and "request_filter respond_error (snapshot_build try_from_iter snapshot) method host path request_ctx_default = (Inr False, ctx)"
    and "upstream_peer select (snapshot_build try_from_iter snapshot) ctx = (Inr peer, ctx')"
  shows "\<exists>record\<in>set (rt_releases state). \<exists>route inst addr.
    match_http_route snapshot host path = Some route \<and> http_route_of parse state record route \<and>
    serves state record inst addr \<and> hp_addr peer = Inet_Addr addr \<and> rq_selected_addr ctx' = Some addr"
proof -
  obtain route where m: "match_http_route snapshot host path = Some route" and ctx: "rq_route_id ctx = Some (hv_route_id route)"
    using assms(5) by (auto simp: request_filter_def split: option.splits)
  have rin: "route \<in> set (gs_http_routes snapshot)"
    using m by (auto simp: match_http_route_def find_Some_iff)
  obtain lb a where lb: "hm_get (sn_load_balancers (snapshot_build try_from_iter snapshot)) (hv_route_id route) = Some lb"
    and a: "select lb = Some a" "hp_addr peer = a" "rq_selected_addr ctx' = as_inet a"
    using assms(6) ctx by (auto simp: upstream_peer_def split: option.splits)
  obtain r where r: "r \<in> set (gs_http_routes snapshot)" "hv_route_id r = hv_route_id route" "balances try_from_iter r lb"
    using snapshot_build_balancer[OF lb] by blast
  have "r = route" using assms(3) r(1,2) rin by (auto simp: distinct_map dest: inj_onD)
  then obtain x where x: "a = Inet_Addr x" "socket_addr_str x \<in> set (map (\<lambda>b. socket_addr_str (bv_address b)) (hv_backends route))"
    using r(3) assms(4) a(1) unfolding balances_def select_ok_def by blast
  then obtain b where b: "b \<in> set (hv_backends route)" "bv_address b = x"
    by (auto simp: socket_addr_str_inject)
  obtain https tcps where p:
    "fold_res (project_release parse (project_revisions state) (project_instances state)) (rt_releases state) ([], []) = Inr (https, tcps)"
    "gs_http_routes snapshot = sort_by compare_http_routes https"
    by (rule project_ok[OF assms(1)])
  obtain rec where rec: "rec \<in> set (rt_releases state)" "http_route_of parse state rec route"
    using project_releases_exact[OF assms(2) p(1)] rin p(2) by (auto simp: comparator.set_sort_by[OF comparator_http])
  obtain inst where "serves state rec inst x"
    using rec(2) b route_backends_serve unfolding http_route_of_def by fastforce
  then show ?thesis using rec m x(1) a
    by (intro bexI[OF _ rec(1)] exI[of _ route] exI[of _ inst] exI[of _ x]) (auto simp: as_inet_def)
qed

section \<open>The served snapshot is current\<close>

definition gateway_projection ::
    "(string list \<Rightarrow> ('e, 'lb) result) \<Rightarrow> (string \<Rightarrow> (string, service_spec) result) \<Rightarrow> routing_state \<Rightarrow> 'lb snapshot_state option" where
  "gateway_projection try_from_iter parse state =
    (case project parse state of Inr snapshot \<Rightarrow> Some (snapshot_build try_from_iter snapshot) | Inl _ \<Rightarrow> None)"

interpretation gateway_loop: refresh_loop "gateway_refresh try_from_iter parse" "gateway_projection try_from_iter parse"
  for try_from_iter :: "string list \<Rightarrow> ('e, 'lb) result" and parse
  by unfold_locales
     (simp_all add: gateway_refresh_def load_projected_snapshot_def gateway_projection_def shared_snapshot_replace_def
       split: sum.split)


section \<open>Examples\<close>

definition example_addr :: "ipv4_addr \<times> u16" where
  "example_addr = (167772170, 80)"

definition example_select :: "string list \<Rightarrow> peer_addr option" where
  "example_select lb = (if lb = [socket_addr_str example_addr] then Some (Inet_Addr example_addr) else None)"

lemma example_select_ok: "select_ok (Inr :: string list \<Rightarrow> (unit, string list) result) example_select"
  unfolding select_ok_def
proof (intro allI impI)
  fix addrs lb a
  assume "Inr addrs = (Inr lb :: (unit, string list) result)" "example_select lb = Some a"
  then show "\<exists>x. a = Inet_Addr x \<and> socket_addr_str x \<in> set addrs"
    by (intro exI[of _ example_addr]) (simp add: example_select_def split: if_splits)
qed

lemma example_unique: "unique_keys example_routing"
  by (simp add: unique_keys_def example_routing_def)

lemma example_balancers:
  "hm_get (sn_load_balancers (snapshot_build (Inr :: string list \<Rightarrow> (unit, string list) result) example_snapshot)) ''http:prod:web:0'' =
    Some [socket_addr_str example_addr]"
  by (simp add: snapshot_build_def example_snapshot_def Let_def build_route_def example_addr_def)

theorem proxied_to_ready_instance_witness:
  "\<exists>record\<in>set (rt_releases example_routing). \<exists>inst. serves example_routing record inst example_addr"
proof -
  let ?tf = "Inr :: string list \<Rightarrow> (unit, string list) result"
  have m: "match_http_route example_snapshot (Some ''example.com'') ''/'' = Some (hd (gs_http_routes example_snapshot))"
    by code_simp
  have i: "hv_route_id (hd (gs_http_routes example_snapshot)) = ''http:prod:web:0''"
    by (simp add: example_snapshot_def Let_def)
  have d: "distinct (map hv_route_id (gs_http_routes example_snapshot))"
    by (simp add: example_snapshot_def Let_def)
  let ?respond = "\<lambda>_ :: nat. Inr () :: (unit, unit) result"
  obtain ctx where f: "request_filter ?respond (snapshot_build ?tf example_snapshot) ''GET'' (Some ''example.com'') ''/'' request_ctx_default =
      (Inr False, ctx)" and r: "rq_route_id ctx = Some ''http:prod:web:0''"
    using m i by (simp add: request_filter_def)
  obtain peer ctx' where u: "upstream_peer example_select (snapshot_build ?tf example_snapshot) ctx =
      (Inr peer :: (unit proxy_error, http_peer) result, ctx')" and a: "hp_addr peer = Inet_Addr example_addr"
    using r example_balancers by (simp add: upstream_peer_def example_select_def)
  show ?thesis
    using proxied_to_ready_instance[OF example_projects example_unique d example_select_ok f u] a
    by (metis peer_addr.inject(1))
qed

definition queue_send :: "(nat, unit) sender" where
  "queue_send n _ = (if n < 64 then (Send_Ok, Suc n) else (Send_Full, n))"

definition queue_recv :: "nat \<Rightarrow> bool \<times> nat" where
  "queue_recv n = (0 < n, n - 1)"

lemma queue_ok: "channel_ok queue_send queue_recv (\<lambda>n. n)"
  by (auto simp: channel_ok_def queue_send_def queue_recv_def)

definition example_store :: "(nat, nat) store_inner" where
  "example_store = memory_store_new\<lparr>
    st_service_revisions := map (\<lambda>r. ((rv_namespace r, rv_service r, rv_revision_hash r), r)) (rt_revisions example_routing),
    st_instance_status := map (\<lambda>i. (is_instance_id i, i)) (rt_instances example_routing)\<rparr>"

abbreviation event_send :: "(nat, machine_event) sender" where
  "event_send \<equiv> (\<lambda>n _. (Send_Ok, n))"

abbreviation example_release_call :: store_request where
  "example_release_call \<equiv> Call_Upsert_Release (hd (rt_releases example_routing))"

lemma example_store_routing:
  "project (\<lambda>_. Inr example_web) (routing_of example_store) = Inr gateway_snapshot_empty"
  "routing_of (store_call event_send queue_send example_release_call example_store) = example_routing"
  by (simp_all add: project_def routing_of_def example_store_def memory_store_new_def hm_values_def gateway_snapshot_empty_def
    validate_http_conflicts_def validate_tcp_conflicts_def upsert_service_release_def broadcast_routing_refresh_def
    example_routing_def)

abbreviation example_refresh :: "(store_error, routing_state) result \<Rightarrow> string list snapshot_state \<Rightarrow> string list snapshot_state" where
  "example_refresh \<equiv> gateway_refresh (Inr :: string list \<Rightarrow> (unit, string list) result) (\<lambda>_. Inr example_web)"

definition example_sync :: "(nat, nat) store_inner \<Rightarrow> (nat, nat, string list snapshot_state) sync_system" where
  "example_sync s = sync_start 0
    (shared_snapshot_new (Inr :: string list \<Rightarrow> (unit, string list) result) gateway_snapshot_empty) s"

definition after_release :: "(nat, nat, string list snapshot_state) sync_system \<Rightarrow> (nat, nat, string list snapshot_state) sync_system" where
  "after_release y = y\<lparr>sy_store := store_call event_send queue_send example_release_call (sy_store y)\<rparr>"


text \<open>
  The gap at startup: \<open>run_gateway_process_with_store\<close> loads the first snapshot before the loop
  subscribes. A release written in between sends no invalidation to the gateway, which then waits with
  an empty channel and serves a snapshot without it.
\<close>

lemma startup_gap:
  defines "y \<equiv> example_sync (store_call event_send queue_send example_release_call example_store)"
  shows "project (\<lambda>_. Inr example_web) (routing_of example_store) = Inr gateway_snapshot_empty"
    and "sy_phase y = Sync_Waiting" and "st_routing_subscribers (sy_store y) ! 0 = 0"
    and "project (\<lambda>_. Inr example_web) (routing_of (sy_store y)) = Inr example_snapshot"
    and "sn_snapshot (sy_served y) = gateway_snapshot_empty" and "example_snapshot \<noteq> gateway_snapshot_empty"
proof -
  have r: "routing_of (sy_store y) = example_routing"
    unfolding y_def example_sync_def sync_start_def using example_store_routing(2)
    by (simp add: subscribe_routing_invalidations_def routing_of_def)
  show "project (\<lambda>_. Inr example_web) (routing_of (sy_store y)) = Inr example_snapshot"
    unfolding r by (rule example_projects)
  show "project (\<lambda>_. Inr example_web) (routing_of example_store) = Inr gateway_snapshot_empty"
    by (rule example_store_routing(1))
qed (simp_all add: y_def example_sync_def sync_start_def example_store_routing subscribe_routing_invalidations_def upsert_service_release_def
  broadcast_routing_refresh_def example_store_def memory_store_new_def shared_snapshot_new_def
  gateway_snapshot_empty_def example_snapshot_def Let_def)

text \<open>
  Route ids join names with colons, which names may contain: two services can share an id, and so
  a load balancer.
\<close>

lemma route_ids_collide:
  "route_id_of ''http'' (Namespace ''a:b'') (example_web\<lparr>ss_name := ''c''\<rparr>) i =
   route_id_of ''http'' (Namespace ''a'') (example_web\<lparr>ss_name := ''b:c''\<rparr>) i"
  by (simp add: route_id_of_def)

end
