(* ===== verification/Dns.thy ===== *)
theory Dns
  imports Routing_Sync
begin

text \<open>
  The DNS server, \<open>crates/ployz-dns\<close>: the projection of the routing state to a snapshot
  (\<open>snapshot.rs\<close>), the classification of query names and their resolution (\<open>resolve.rs\<close>), and the
  request handler (\<open>server.rs\<close>).

  The request as \<open>hickory_server\<close> decodes it is data: the source address, and the name and type of
  the query or a decoding error. Sending the response is an argument.
\<close>

section \<open>The snapshot\<close>

type_synonym service_ips = "(namespace, (string, ipv4_addr list) hash_map) hash_map"

record dns_snapshot =
  dn_services :: service_ips
  dn_ip_to_namespace :: "(ipv4_addr, namespace) hash_map"
  dn_service_names :: "(namespace, string list) hash_map"

definition dns_snapshot_empty :: dns_snapshot where
  "dns_snapshot_empty = \<lparr> dn_services = [], dn_ip_to_namespace = [], dn_service_names = [] \<rparr>"

definition snapshot_lookup_service :: "dns_snapshot \<Rightarrow> namespace \<Rightarrow> string \<Rightarrow> ipv4_addr list option" where
  "snapshot_lookup_service snapshot ns service =
    (case hm_get (dn_services snapshot) ns of None \<Rightarrow> None | Some by_service \<Rightarrow> hm_get by_service service)"

definition add_instance ::
    "instance_status_record \<Rightarrow> service_ips \<times> (ipv4_addr, namespace) hash_map \<Rightarrow> service_ips \<times> (ipv4_addr, namespace) hash_map" where
  "add_instance inst acc =
    (if is_phase inst \<noteq> Instance_Ready \<or> \<not> is_ready inst then acc
     else if is_drain_state inst \<noteq> Drain_None then acc
     else case is_overlay_ip inst of
       None \<Rightarrow> acc
     | Some overlay_ip \<Rightarrow>
         (let (services, ip_to_namespace) = acc;
              by_service = unwrap_or (hm_get services (is_namespace inst)) []
          in (hm_insert (is_namespace inst) (hm_push (is_service inst) overlay_ip by_service) services,
              hm_insert overlay_ip (is_namespace inst) ip_to_namespace)))"

definition project_dns :: "routing_state \<Rightarrow> dns_snapshot" where
  "project_dns state =
    (let (services, ip_to_namespace) = fold add_instance (rt_instances state) ([], []);
         services = map (\<lambda>(ns, by_service). (ns, map (\<lambda>(service, ips). (service, sort_by cmp ips)) by_service)) services;
         service_names = fold (\<lambda>(ns, by_service). hm_insert ns (sort_by cmp (hm_keys by_service))) services []
     in \<lparr> dn_services = services, dn_ip_to_namespace = ip_to_namespace, dn_service_names = service_names \<rparr>)"

section \<open>Queries\<close>

datatype dns_query =
    Service_Implicit string
  | Service_Explicit string namespace
  | List_Services_Implicit
  | List_Services_Explicit namespace
  | Query_Unknown

datatype resolve_result = Addresses "ipv4_addr list" | Service_List "string list" | Nx_Domain

definition parse_query :: "string \<Rightarrow> dns_query" where
  "parse_query name =
    (case split_on (CHR ''.'') (to_ascii_lowercase (trim_end_matches (CHR ''.'') name)) of
       [service] \<Rightarrow> if service \<noteq> [] then Service_Implicit service else Query_Unknown
     | [service, l1, l2] \<Rightarrow>
         if l1 = ''ployz'' \<and> l2 = ''internal'' \<and> service \<noteq> [] then
           (if service = ''_services'' then List_Services_Implicit else Service_Implicit service)
         else Query_Unknown
     | [service, ns, l1, l2] \<Rightarrow>
         if l1 = ''ployz'' \<and> l2 = ''internal'' \<and> service \<noteq> [] \<and> ns \<noteq> [] then
           (if service = ''_services'' then List_Services_Explicit (Namespace ns)
            else Service_Explicit service (Namespace ns))
         else Query_Unknown
     | _ \<Rightarrow> Query_Unknown)"

definition lookup_service :: "dns_snapshot \<Rightarrow> namespace \<Rightarrow> string \<Rightarrow> resolve_result" where
  "lookup_service snapshot ns service =
    (case snapshot_lookup_service snapshot ns service of
       Some ips \<Rightarrow> if ips \<noteq> [] then Addresses ips else Nx_Domain
     | None \<Rightarrow> Nx_Domain)"

definition lookup_service_list :: "dns_snapshot \<Rightarrow> namespace \<Rightarrow> resolve_result" where
  "lookup_service_list snapshot ns =
    (case hm_get (dn_service_names snapshot) ns of
       Some names \<Rightarrow> if names \<noteq> [] then Service_List names else Nx_Domain
     | None \<Rightarrow> Nx_Domain)"

fun resolve :: "dns_snapshot \<Rightarrow> dns_query \<Rightarrow> namespace option \<Rightarrow> resolve_result" where
  "resolve snapshot (Service_Implicit service) caller =
    (case caller of None \<Rightarrow> Nx_Domain | Some ns \<Rightarrow> lookup_service snapshot ns service)"
| "resolve snapshot (Service_Explicit service ns) caller = lookup_service snapshot ns service"
| "resolve snapshot List_Services_Implicit caller =
    (case caller of None \<Rightarrow> Nx_Domain | Some ns \<Rightarrow> lookup_service_list snapshot ns)"
| "resolve snapshot (List_Services_Explicit ns) caller = lookup_service_list snapshot ns"
| "resolve snapshot Query_Unknown caller = Nx_Domain"

section \<open>Requests\<close>

datatype record_type = Type_A | Type_TXT | Type_ANY | Type_Other u16

datatype rdata = RData_A ipv4_addr | RData_TXT "string list"

record dns_record =
  dr_name :: string
  dr_ttl :: nat
  dr_data :: rdata

datatype response_code = NoError | FormErr | ServFail | NXDomain

record dns_response =
  dp_code :: response_code
  dp_answers :: "dns_record list"

datatype ip_addr = IpV4 ipv4_addr | IpV6 ipv6_addr

definition dns_ttl :: nat where "dns_ttl = 0"

definition caller_namespace :: "dns_snapshot \<Rightarrow> ip_addr \<Rightarrow> namespace option" where
  "caller_namespace snapshot src = (case src of IpV4 ip \<Rightarrow> hm_get (dn_ip_to_namespace snapshot) ip | IpV6 _ \<Rightarrow> None)"

definition answer :: "string \<Rightarrow> record_type \<Rightarrow> resolve_result \<Rightarrow> dns_response" where
  "answer name rtype result =
    (case result of
       Addresses ips \<Rightarrow>
         if rtype = Type_A \<or> rtype = Type_ANY
         then \<lparr> dp_code = NoError,
                dp_answers = map (\<lambda>ip. \<lparr> dr_name = name, dr_ttl = dns_ttl, dr_data = RData_A ip \<rparr>) ips \<rparr>
         else \<lparr> dp_code = NoError, dp_answers = [] \<rparr>
     | Service_List names \<Rightarrow>
         if rtype = Type_TXT \<or> rtype = Type_ANY
         then \<lparr> dp_code = NoError,
                dp_answers = map (\<lambda>n. \<lparr> dr_name = name, dr_ttl = dns_ttl, dr_data = RData_TXT [n] \<rparr>) names \<rparr>
         else \<lparr> dp_code = NoError, dp_answers = [] \<rparr>
     | Nx_Domain \<Rightarrow> \<lparr> dp_code = NXDomain, dp_answers = [] \<rparr>)"

definition servfail_response :: response_code where
  "servfail_response = ServFail"

definition dns_send :: "(dns_response \<Rightarrow> ('e, response_code) result) \<Rightarrow> dns_response \<Rightarrow> response_code" where
  "dns_send send_response response =
    (case send_response response of Inr info \<Rightarrow> info | Inl _ \<Rightarrow> servfail_response)"

definition send_formerr :: "(dns_response \<Rightarrow> ('e, response_code) result) \<Rightarrow> response_code" where
  "send_formerr send_response =
    (case send_response \<lparr> dp_code = FormErr, dp_answers = [] \<rparr> of Inr info \<Rightarrow> info | Inl _ \<Rightarrow> servfail_response)"

definition handle_request ::
    "(dns_response \<Rightarrow> ('e, response_code) result) \<Rightarrow> dns_snapshot \<Rightarrow> ip_addr \<Rightarrow>
     (string, string \<times> record_type) result \<Rightarrow> response_code" where
  "handle_request send_response snapshot src request_info =
    (case request_info of
       Inl _ \<Rightarrow> send_formerr send_response
     | Inr (name, rtype) \<Rightarrow>
         dns_send send_response
           (answer name rtype (resolve snapshot (parse_query name) (caller_namespace snapshot src))))"

section \<open>Refreshing\<close>

definition dns_refresh :: "(store_error, routing_state) result \<Rightarrow> dns_snapshot \<Rightarrow> dns_snapshot" where
  "dns_refresh loaded served = (case loaded of Inr state \<Rightarrow> project_dns state | Inl _ \<Rightarrow> served)"

interpretation dns_loop: refresh_loop dns_refresh "\<lambda>state. Some (project_dns state)"
  by unfold_locales (simp_all add: dns_refresh_def)

lemma dns_serves_current:
  fixes s :: "('c, 'd) store_inner"
  assumes "channel_ok try_send try_recv queued"
    and "(sync_step send_event try_send try_recv dns_refresh k)\<^sup>*\<^sup>* (sync_start fresh (project_dns (routing_of s)) s) y"
    and "k = length (st_routing_subscribers s)"
    and "sy_phase y = Sync_Waiting" "queued (st_routing_subscribers (sy_store y) ! k) = 0"
  shows "sy_served y = project_dns (routing_of (sy_store y))"
  using dns_loop.waiting_current[OF dns_loop.inv_reachable[OF assms(1,2)] assms(4,5)]
    dns_loop.inv_start[OF refl, of queued s fresh] assms(3)
  by (simp add: current_def)

section \<open>What is served\<close>

text \<open>The instances DNS answers for, and the answers the routing state calls for.\<close>

definition dns_visible :: "instance_status_record \<Rightarrow> bool" where
  "dns_visible inst \<longleftrightarrow> is_phase inst = Instance_Ready \<and> is_ready inst \<and> is_drain_state inst = Drain_None \<and>
    is_overlay_ip inst \<noteq> None"

definition service_addresses :: "routing_state \<Rightarrow> namespace \<Rightarrow> string \<Rightarrow> ipv4_addr list" where
  "service_addresses state ns service = sort (map (\<lambda>i. the (is_overlay_ip i))
    (filter (\<lambda>i. dns_visible i \<and> is_namespace i = ns \<and> is_service i = service) (rt_instances state)))"

definition visible_services :: "routing_state \<Rightarrow> namespace \<Rightarrow> string list" where
  "visible_services state ns =
    sorted_list_of_set (is_service ` {i \<in> set (rt_instances state). dns_visible i \<and> is_namespace i = ns})"

definition addresses_or_nx :: "ipv4_addr list \<Rightarrow> resolve_result" where
  "addresses_or_nx ips = (if ips = [] then Nx_Domain else Addresses ips)"

definition services_or_nx :: "string list \<Rightarrow> resolve_result" where
  "services_or_nx names = (if names = [] then Nx_Domain else Service_List names)"

fun resolve_spec :: "routing_state \<Rightarrow> dns_query \<Rightarrow> namespace option \<Rightarrow> resolve_result" where
  "resolve_spec state (Service_Implicit service) (Some ns) = addresses_or_nx (service_addresses state ns service)"
| "resolve_spec state (Service_Explicit service ns) caller = addresses_or_nx (service_addresses state ns service)"
| "resolve_spec state List_Services_Implicit (Some ns) = services_or_nx (visible_services state ns)"
| "resolve_spec state (List_Services_Explicit ns) caller = services_or_nx (visible_services state ns)"
| "resolve_spec state _ _ = Nx_Domain"

lemma sort_by_cmp: "sort_by cmp xs = sort xs"
proof (rule properties_for_sort[symmetric])
  have c: "comparator (cmp :: 'a \<Rightarrow> 'a \<Rightarrow> ordering)" using comparator_key[of "\<lambda>x. x"] by simp
  show "mset (sort_by cmp xs) = mset xs" by (rule comparator.mset_sort_by[OF c])
  show "sorted (sort_by cmp xs)"
    using comparator.sorted_sort_by[OF c, of xs] by (simp add: sorted_wrt_iff_nth_less sorted_iff_nth_mono_less not_less)
qed

abbreviation ips_of :: "service_ips \<Rightarrow> namespace \<Rightarrow> string \<Rightarrow> ipv4_addr list" where
  "ips_of services ns service \<equiv> unwrap_or (hm_get (unwrap_or (hm_get services ns) []) service) []"

text \<open>
  The invariant of the loop over the instances: every stored service has an address, and the maps
  have each key once.
\<close>

definition services_wf :: "service_ips \<Rightarrow> bool" where
  "services_wf services \<longleftrightarrow> hm_wf services \<and>
    (\<forall>ns by_service. hm_get services ns = Some by_service \<longrightarrow> by_service \<noteq> [] \<and> hm_wf by_service \<and>
      (\<forall>service ips. hm_get by_service service = Some ips \<longrightarrow> ips \<noteq> []))"

lemma add_instance_hidden: "\<not> dns_visible inst \<Longrightarrow> add_instance inst acc = acc"
  by (cases acc) (auto simp: add_instance_def dns_visible_def split: option.splits)

lemma add_instance_visible:
  "dns_visible inst \<Longrightarrow> add_instance inst (services, ips) =
    (hm_insert (is_namespace inst)
       (hm_push (is_service inst) (the (is_overlay_ip inst)) (unwrap_or (hm_get services (is_namespace inst)) [])) services,
     hm_insert (the (is_overlay_ip inst)) (is_namespace inst) ips)"
  by (auto simp: add_instance_def dns_visible_def)

lemma services_wf_push:
  assumes "services_wf services"
  shows "services_wf (hm_insert ns (hm_push service ip (unwrap_or (hm_get services ns) [])) services)"
proof -
  have wf: "hm_wf (unwrap_or (hm_get services ns) [])" "hm_wf services"
    using assms by (cases "hm_get services ns"; auto simp: services_wf_def hm_wf_def)+
  have ne: "hm_push service ip m \<noteq> []" for m :: "(string, ipv4_addr list) hash_map"
    by (simp add: hm_push_def)
  have old: "ips \<noteq> []" if "hm_get (unwrap_or (hm_get services ns) []) s = Some ips" for s ips
    using that assms by (cases "hm_get services ns") (auto simp: services_wf_def)
  show ?thesis
    using assms wf old ne
    by (auto simp: services_wf_def hm.wf_insert hm_push_def update_conv' split: if_splits)
qed

lemma fold_add_instance:
  assumes "fold add_instance insts (services, ips) = (services', ips')" and "services_wf services"
  shows "services_wf services' \<and>
    ips_of services' ns service = ips_of services ns service @
      map (\<lambda>i. the (is_overlay_ip i)) (filter (\<lambda>i. dns_visible i \<and> is_namespace i = ns \<and> is_service i = service) insts)"
  using assms
proof (induction insts arbitrary: services ips)
  case (Cons i insts)
  show ?case
  proof (cases "dns_visible i")
    case True
    let ?s = "hm_insert (is_namespace i)
       (hm_push (is_service i) (the (is_overlay_ip i)) (unwrap_or (hm_get services (is_namespace i)) [])) services"
    have "fold add_instance insts (?s, hm_insert (the (is_overlay_ip i)) (is_namespace i) ips) = (services', ips')"
      using Cons.prems(1) True by (simp add: add_instance_visible)
    from Cons.IH[OF this services_wf_push[OF Cons.prems(2)]] show ?thesis
      using True by (auto simp: update_conv' hm_push_def)
  qed (use Cons in \<open>auto simp: add_instance_hidden\<close>)
qed simp

lemma hm_keys_wf:
  assumes "services_wf services"
  shows "(case hm_get services ns of Some m \<Rightarrow> set (hm_keys m) | None \<Rightarrow> {}) = {s. ips_of services ns s \<noteq> []}"
proof (cases "hm_get services ns")
  case (Some m)
  have "ips_of services ns s \<noteq> [] \<longleftrightarrow> hm_get m s \<noteq> None" for s
    using assms Some by (cases "hm_get m s") (auto simp: services_wf_def)
  then show ?thesis using Some by (force simp: hm_keys_def map_of_eq_None_iff)
qed simp

lemma project_dns_parts:
  obtains services where "services_wf services"
    "\<And>ns service. sort (ips_of services ns service) = service_addresses state ns service"
    "\<And>ns service. snapshot_lookup_service (project_dns state) ns service =
      (case hm_get services ns of None \<Rightarrow> None | Some m \<Rightarrow> map_option sort (hm_get m service))"
    "\<And>ns. hm_get (dn_service_names (project_dns state)) ns =
      map_option (\<lambda>m. sort (hm_keys m)) (hm_get services ns)"
proof -
  obtain services ips where f: "fold add_instance (rt_instances state) ([], []) = (services, ips)"
    by (cases "fold add_instance (rt_instances state) ([], [])")
  have w: "services_wf services" using fold_add_instance[OF f] by (simp add: services_wf_def hm_wf_def)
  let ?srt = "map (\<lambda>(ns, by_service). (ns, map (\<lambda>(service, ips). (service, sort_by cmp ips)) by_service)) services"
  have get: "hm_get ?srt ns = map_option (map (\<lambda>(s, ips). (s, sort ips))) (hm_get services ns)" for ns
    by (simp add: map_of_map sort_by_cmp)
  have keys: "hm_keys (map (\<lambda>(s, ips). (s, sort ips)) m) = hm_keys m" for m :: "(string, ipv4_addr list) hash_map"
    by (simp add: hm_keys_def comp_def case_prod_beta)
  have fold: "fold (\<lambda>(ns, m). hm_insert ns (g m)) kvs [] = fold (\<lambda>(k, v). hm_insert k v) (map (\<lambda>(k, m). (k, g m)) kvs) []"
    for g :: "(string, ipv4_addr list) hash_map \<Rightarrow> string list" and kvs :: service_ips
    by (simp add: fold_map comp_def case_prod_unfold)
  have dist: "distinct (map fst ?srt)"
    using w by (simp add: services_wf_def hm_wf_def comp_def case_prod_beta)
  have names: "hm_get (dn_service_names (project_dns state)) ns = map_option (\<lambda>m. sort (hm_keys m)) (hm_get services ns)" for ns
  proof -
    let ?kvs = "map (\<lambda>(k, m). (k, sort_by cmp (hm_keys m))) ?srt"
    have d: "distinct (map fst ?kvs)" "distinct (map fst (rev ?kvs))"
      using dist by (simp_all add: comp_def case_prod_unfold flip: rev_map)
    have "hm_get (dn_service_names (project_dns state)) ns = map_of (rev ?kvs) ns"
      by (simp only: project_dns_def f Let_def prod.case fold hm.get_collect dns_snapshot.simps)
    also have "\<dots> = map_of ?kvs ns"
      using map_of_inject_set[OF d(2,1)] by simp
    also have "\<dots> = map_option (\<lambda>m. sort (hm_keys m)) (hm_get services ns)"
      unfolding map_of_map[of "\<lambda>m. sort_by cmp (hm_keys m)"] comp_def get
      by (cases "hm_get services ns") (simp_all add: keys sort_by_cmp)
    finally show ?thesis .
  qed
  have svc: "dn_services (project_dns state) = ?srt" by (simp add: project_dns_def f Let_def)
  have look: "snapshot_lookup_service (project_dns state) ns service =
      (case hm_get services ns of None \<Rightarrow> None | Some m \<Rightarrow> map_option sort (hm_get m service))" for ns service
    unfolding snapshot_lookup_service_def svc get by (cases "hm_get services ns") (simp_all add: map_of_map)
  have ips: "sort (ips_of services ns service) = service_addresses state ns service" for ns service
    using fold_add_instance[OF f] by (simp add: services_wf_def hm_wf_def service_addresses_def)
  show ?thesis by (rule that[OF w ips look names])
qed

lemma lookup_service_exact:
  "lookup_service (project_dns state) ns service = addresses_or_nx (service_addresses state ns service)"
proof -
  obtain services where s: "services_wf services"
    "sort (ips_of services ns service) = service_addresses state ns service"
    "snapshot_lookup_service (project_dns state) ns service =
      (case hm_get services ns of None \<Rightarrow> None | Some m \<Rightarrow> map_option sort (hm_get m service))"
    by (rule project_dns_parts[of state]) (blast intro: that)
  show ?thesis
  proof (cases "hm_get services ns")
    case (Some m)
    then show ?thesis using s by (cases "hm_get m service") (auto simp: lookup_service_def addresses_or_nx_def)
  qed (use s in \<open>auto simp: lookup_service_def addresses_or_nx_def\<close>)
qed

lemma sort_Nil_iff: "sort xs = [] \<longleftrightarrow> xs = []"
  by (metis length_0_conv length_sort)

lemma service_addresses_Nil_iff:
  "service_addresses state ns service = [] \<longleftrightarrow>
    service \<notin> is_service ` {i \<in> set (rt_instances state). dns_visible i \<and> is_namespace i = ns}"
  by (auto simp: service_addresses_def sort_Nil_iff filter_empty_conv)

lemma lookup_service_list_exact:
  "lookup_service_list (project_dns state) ns = services_or_nx (visible_services state ns)"
proof -
  obtain services where s: "services_wf services"
    "\<And>service. sort (ips_of services ns service) = service_addresses state ns service"
    "hm_get (dn_service_names (project_dns state)) ns = map_option (\<lambda>m. sort (hm_keys m)) (hm_get services ns)"
    by (rule project_dns_parts[of state]) (blast intro: that)
  have "ips_of services ns service = [] \<longleftrightarrow> service_addresses state ns service = []" for service
    unfolding s(2)[symmetric] by (simp add: sort_Nil_iff)
  then have keys: "{s. ips_of services ns s \<noteq> []} =
      is_service ` {i \<in> set (rt_instances state). dns_visible i \<and> is_namespace i = ns}"
    by (simp add: service_addresses_Nil_iff)
  show ?thesis
  proof (cases "hm_get services ns")
    case None
    then show ?thesis using s(3) hm_keys_wf[OF s(1), of ns] keys
      by (simp add: lookup_service_list_def services_or_nx_def visible_services_def)
  next
    case (Some m)
    have "distinct (hm_keys m)" using s(1) Some by (simp add: services_wf_def hm_wf_def hm_keys_def)
    then have "sort (hm_keys m) = sorted_list_of_set (set (hm_keys m))"
      by (simp add: sorted_list_of_set_sort_remdups distinct_remdups_id)
    also have "\<dots> = visible_services state ns"
      using hm_keys_wf[OF s(1), of ns] Some keys by (simp add: visible_services_def)
    finally show ?thesis using Some s(3) by (simp add: lookup_service_list_def services_or_nx_def)
  qed
qed

text \<open>
  C18. DNS answers exactly from the routing state. A service name resolves to the overlay addresses, in
  order, of the instances of that service in the namespace that are ready and not draining, and to
  NXDOMAIN when there is none; the list of services of a namespace is the sorted list of the services
  with such an instance. A query without a namespace is answered in the namespace of its caller, and
  by NXDOMAIN when the caller has none.
\<close>

theorem resolve_exact: "resolve (project_dns state) query caller = resolve_spec state query caller"
  by (cases query; cases caller) (simp_all add: lookup_service_exact lookup_service_list_exact)

section \<open>Names\<close>

definition label_ok :: "string \<Rightarrow> bool" where
  "label_ok l \<longleftrightarrow> l \<noteq> [] \<and> CHR ''.'' \<notin> set l \<and> (\<forall>c\<in>set l. \<not> is_ascii_upper c)"

fun query_labels :: "dns_query \<Rightarrow> string list" where
  "query_labels (Service_Implicit service) = [service, ''ployz'', ''internal'']"
| "query_labels (Service_Explicit service ns) = [service, namespace_str ns, ''ployz'', ''internal'']"
| "query_labels List_Services_Implicit = [''_services'', ''ployz'', ''internal'']"
| "query_labels (List_Services_Explicit ns) = [''_services'', namespace_str ns, ''ployz'', ''internal'']"
| "query_labels Query_Unknown = []"

fun query_ok :: "dns_query \<Rightarrow> bool" where
  "query_ok (Service_Implicit service) \<longleftrightarrow> label_ok service \<and> service \<noteq> ''_services''"
| "query_ok (Service_Explicit service ns) \<longleftrightarrow> label_ok service \<and> service \<noteq> ''_services'' \<and> label_ok (namespace_str ns)"
| "query_ok List_Services_Implicit \<longleftrightarrow> True"
| "query_ok (List_Services_Explicit ns) \<longleftrightarrow> label_ok (namespace_str ns)"
| "query_ok Query_Unknown \<longleftrightarrow> False"

lemma label_ok_constants: "label_ok ''ployz''" "label_ok ''internal''" "label_ok ''_services''"
  by (simp_all add: label_ok_def is_ascii_upper_def)

lemma query_labels_ok: "query_ok q \<Longrightarrow> l \<in> set (query_labels q) \<Longrightarrow> label_ok l"
  by (cases q) (auto simp: label_ok_constants)

lemma set_join_with: "set (join_with s ls) \<subseteq> set s \<union> \<Union> (set ` set ls)"
  by (induction ls) auto

lemma set_in_join: "l \<in> set ls \<Longrightarrow> set l \<subseteq> set (join_with s ls)"
  by (induction ls) auto

lemma last_join_with: "ls \<noteq> [] \<Longrightarrow> last ls \<noteq> [] \<Longrightarrow> last (join_with s ls) = last (last ls) \<and> join_with s ls \<noteq> []"
  by (induction ls) auto

lemma parse_labels:
  assumes "ls \<noteq> []" "\<And>l. l \<in> set ls \<Longrightarrow> label_ok l"
  shows "split_on (CHR ''.'') (to_ascii_lowercase (trim_end_matches (CHR ''.'') (join_with ''.'' ls @ replicate k (CHR ''.'')))) = ls"
proof -
  let ?s = "join_with ''.'' ls"
  have "last ls \<in> set ls" using assms(1) by simp
  then have "label_ok (last ls)" using assms(2) by blast
  then have l: "last ls \<noteq> []" "last (last ls) \<noteq> CHR ''.''"
    unfolding label_ok_def using last_in_set by metis+
  have "dropWhile (\<lambda>x. x = c) (replicate k c @ r) = dropWhile (\<lambda>x. x = c) r" for c :: char and r
    by (induction k) auto
  then have "trim_end_matches (CHR ''.'') (?s @ replicate k (CHR ''.'')) = trim_end_matches (CHR ''.'') ?s"
    by (simp add: trim_end_matches_def)
  also have "\<dots> = ?s"
    using last_join_with[OF assms(1) l(1), of "''.''"] l(2) by (intro trim_end_matches_id) simp
  finally have t: "trim_end_matches (CHR ''.'') (?s @ replicate k (CHR ''.'')) = ?s" .
  have "\<not> is_ascii_upper c" if "c \<in> set ?s" for c
  proof -
    have "c = CHR ''.'' \<or> (\<exists>l\<in>set ls. c \<in> set l)" using that set_join_with[of "''.''" ls] by auto
    moreover have "\<not> is_ascii_upper (CHR ''.'')" by code_simp
    ultimately show ?thesis using assms(2) unfolding label_ok_def by blast
  qed
  then have "to_ascii_lowercase ?s = ?s" by (rule to_ascii_lowercase_id)
  moreover have "split_on (CHR ''.'') ?s = ls"
    using assms by (intro split_on_join) (auto simp: label_ok_def)
  ultimately show ?thesis using t by simp
qed

lemma label_ok_not_Nil: "label_ok l \<Longrightarrow> l \<noteq> []"
  by (simp add: label_ok_def)

lemma namespace_of_str [simp]: "Namespace (namespace_str ns) = ns"
  by (cases ns) simp

text \<open>
  Reading the name of a query gives it back: for lower-case labels without dots, the name of each
  of the four kinds of query, written with any number of trailing dots, is classified as that query,
  and a bare label as a service in the caller's namespace.
\<close>

theorem parse_query_roundtrip:
  assumes "query_ok q" and "label_ok service"
  shows "parse_query (join_with ''.'' (query_labels q) @ replicate k (CHR ''.'')) = q \<and>
    parse_query (service @ replicate k (CHR ''.'')) = Service_Implicit service"
proof -
  have "query_labels q \<noteq> []" using assms(1) by (cases q) auto
  from parse_labels[OF this query_labels_ok[OF assms(1)], of k]
  have "parse_query (join_with ''.'' (query_labels q) @ replicate k (CHR ''.'')) = q"
    using assms(1) by (cases q) (auto simp: parse_query_def label_ok_not_Nil namespace_of_str)
  moreover have "parse_query (service @ replicate k (CHR ''.'')) = Service_Implicit service"
    using parse_labels[of "[service]" k] assms(2) by (auto simp: parse_query_def label_ok_not_Nil)
  ultimately show ?thesis ..
qed

theorem parse_query_roundtrip_witness:
  "parse_query ''db.prod.ployz.internal.'' = Service_Explicit ''db'' (Namespace ''prod'') \<and>
   parse_query ''db.'' = Service_Implicit ''db''"
proof -
  have "query_ok (Service_Explicit ''db'' (Namespace ''prod''))" "label_ok ''db''" by code_simp+
  from parse_query_roundtrip[OF this, of 1] show ?thesis by simp
qed

text \<open>Names are folded to lower case, so a service whose name is not in lower case is never asked for.\<close>

lemma parse_query_lower:
  "(parse_query name = Service_Implicit s \<or> parse_query name = Service_Explicit s ns) \<Longrightarrow> to_ascii_lowercase s = s"
proof -
  assume p: "parse_query name = Service_Implicit s \<or> parse_query name = Service_Explicit s ns"
  have "\<exists>l\<in>set (split_on (CHR ''.'') (to_ascii_lowercase (trim_end_matches (CHR ''.'') name))). s = l"
    using p by (auto simp: parse_query_def split: list.splits if_splits)
  then obtain t where s: "s \<in> set (split_on (CHR ''.'') (to_ascii_lowercase t))" by blast
  have "set s \<subseteq> set (to_ascii_lowercase t)"
    using s join_split_on[of "CHR ''.''" "to_ascii_lowercase t"] set_in_join[OF s, of "''.''"] by simp
  then show ?thesis using to_ascii_lowercase_no_upper by (intro to_ascii_lowercase_id) blast
qed

section \<open>Answers\<close>

lemma fold_add_instance_ip:
  assumes "fold add_instance insts (services, ips) = (services', ips')"
    and "\<forall>j\<in>set insts. dns_visible j \<and> is_overlay_ip j = Some ip \<longrightarrow> is_namespace j = ns"
    and "(\<exists>i\<in>set insts. dns_visible i \<and> is_overlay_ip i = Some ip) \<or> hm_get ips ip = Some ns"
  shows "hm_get ips' ip = Some ns"
  using assms
proof (induction insts arbitrary: services ips)
  case (Cons i insts)
  show ?case
  proof (cases "dns_visible i")
    case True
    obtain a where a: "is_overlay_ip i = Some a" using True by (auto simp: dns_visible_def)
    let ?ips = "hm_insert (the (is_overlay_ip i)) (is_namespace i) ips"
    obtain s where s: "fold add_instance insts (s, ?ips) = (services', ips')"
      using Cons.prems(1) True by (simp add: add_instance_visible)
    have "hm_get ?ips ip = Some ns" if "is_overlay_ip i = Some ip"
      using that True Cons.prems(2) by (simp add: update_conv')
    then show ?thesis using Cons.prems True a by (intro Cons.IH[OF s]) (auto simp: update_conv')
  next
    case False
    then have "fold add_instance insts (services, ips) = (services', ips')"
      using Cons.prems(1) by (simp add: add_instance_hidden)
    then show ?thesis using Cons.prems(2,3) False by (intro Cons.IH) auto
  qed
qed simp

lemma caller_namespace_exact:
  assumes "i \<in> set (rt_instances state)" "dns_visible i" "is_overlay_ip i = Some ip"
    and "\<forall>j\<in>set (rt_instances state). dns_visible j \<and> is_overlay_ip j = Some ip \<longrightarrow> is_namespace j = is_namespace i"
  shows "caller_namespace (project_dns state) (IpV4 ip) = Some (is_namespace i)"
proof -
  obtain services ips where f: "fold add_instance (rt_instances state) ([], []) = (services, ips)"
    by (cases "fold add_instance (rt_instances state) ([], [])")
  have "hm_get ips ip = Some (is_namespace i)"
    by (rule fold_add_instance_ip[OF f assms(4)]) (use assms in blast)
  moreover have "dn_ip_to_namespace (project_dns state) = ips"
    by (simp add: project_dns_def f Let_def)
  ultimately show ?thesis by (simp add: caller_namespace_def)
qed

definition address_response :: "string \<Rightarrow> ipv4_addr list \<Rightarrow> dns_response" where
  "address_response name ips =
    (if ips = [] then \<lparr> dp_code = NXDomain, dp_answers = [] \<rparr>
     else \<lparr> dp_code = NoError, dp_answers = map (\<lambda>ip. \<lparr> dr_name = name, dr_ttl = 0, dr_data = RData_A ip \<rparr>) ips \<rparr>)"

lemma answer_addresses: "answer name Type_A (addresses_or_nx ips) = address_response name ips"
  by (simp add: answer_def addresses_or_nx_def address_response_def dns_ttl_def)

lemma resolve_implicit: "resolve (project_dns state) (Service_Implicit service) (Some ns) = addresses_or_nx (service_addresses state ns service)"
  and resolve_explicit: "resolve (project_dns state) (Service_Explicit service ns) c = addresses_or_nx (service_addresses state ns service)"
  by (simp_all add: lookup_service_exact)

lemma parse_bare: "label_ok service \<Longrightarrow> parse_query (service @ ''.'') = Service_Implicit service"
  using parse_labels[of "[service]" 1] by (simp add: parse_query_def label_ok_not_Nil)

lemma parse_qualified:
  assumes "label_ok service" "service \<noteq> ''_services''" "label_ok ns"
  shows "parse_query (service @ ''.'' @ ns @ ''.ployz.internal.'') = Service_Explicit service (Namespace ns)"
proof -
  have "split_on (CHR ''.'') (to_ascii_lowercase (trim_end_matches (CHR ''.'')
      (service @ ''.'' @ ns @ ''.ployz.internal.''))) = [service, ns, ''ployz'', ''internal'']"
  proof -
    have "label_ok l" if "l \<in> set [service, ns, ''ployz'', ''internal'']" for l
      using that assms(1,3) label_ok_constants by auto
    then have "\<And>l. l \<in> set [service, ns, ''ployz'', ''internal''] \<Longrightarrow> label_ok l" .
    with parse_labels[where ls = "[service, ns, ''ployz'', ''internal'']" and k = 1]
    have "split_on (CHR ''.'') (to_ascii_lowercase (trim_end_matches (CHR ''.'')
        (join_with ''.'' [service, ns, ''ployz'', ''internal''] @ replicate 1 (CHR ''.'')))) =
      [service, ns, ''ployz'', ''internal'']" by blast
    then show ?thesis by simp
  qed
  then show ?thesis using assms by (simp add: parse_query_def label_ok_not_Nil)
qed


definition example_instance :: "string \<Rightarrow> string \<Rightarrow> ipv4_addr \<Rightarrow> drain_state \<Rightarrow> instance_status_record" where
  "example_instance name service ip drain =
    \<lparr> is_instance_id = InstanceId name, is_namespace = Namespace ''prod'', is_service = service,
      is_slot_id = SlotId ''s'', is_machine_id = MachineId ''m'', is_revision_hash = ''r1'', is_deploy_id = DeployId ''d'',
      is_docker_container_id = ''c'', is_overlay_ip = Some ip, is_backend_ports = [],
      is_phase = Instance_Ready, is_ready = True, is_drain_state = drain, is_error = None,
      is_started_at = 0, is_updated_at = 0 \<rparr>"

definition example_dns_state :: routing_state where
  "example_dns_state = \<lparr> rt_revisions = [], rt_releases = [],
    rt_instances = [example_instance ''web-1'' ''web'' 10 Drain_None, example_instance ''db-2'' ''db'' 13 Drain_None,
      example_instance ''db-1'' ''db'' 12 Drain_None, example_instance ''db-3'' ''db'' 11 Drain_Requested] \<rparr>"


end
