(* ===== verification/Mesh_Tasks.thy ===== *)
theory Mesh_Tasks
  imports Mesh_Phase Memory_Store Peer_State
begin

text \<open>
  The background tasks of a mesh, \<open>crates/ployz-orchestrator/src/mesh/tasks\<close>, beside the peer
  synchronisation of \<open>Peer_Sync\<close>: the writer of this machine's own record (\<open>self_record.rs\<close>), its
  liveness (\<open>self_liveness.rs\<close>), its participation with hysteresis (\<open>participation.rs\<close>), the refresh of
  its endpoints (\<open>endpoint_refresh.rs\<close>), the monitor of subnet claims (\<open>subnet_claim_monitor.rs\<close>), the
  routes of the data plane (\<open>ebpf_sync.rs\<close>) and the task set (\<open>mod.rs\<close>).

  The writer serves one command at a time from its channel, so a command is one function on the
  writer's state. What a task observes (the listing of the store, the clock, the probes) is an
  argument; the store is any store with an \<open>upsert_self_machine\<close>.
\<close>

section \<open>The self record\<close>

datatype self_record_mutation =
    Refresh_Liveness timestamp "overlay_ip option"
  | Set_Endpoints "string list"
  | Set_Participation participation
  | Replace_Record machine_record

fun apply_mutation :: "self_record_mutation \<Rightarrow> machine_record \<Rightarrow> machine_record" where
  "apply_mutation (Refresh_Liveness now bridge) r =
    (let r = r\<lparr>mr_status := Status_Up\<rparr>;
         r = (if mr_created_at r = 0 then r\<lparr>mr_created_at := now\<rparr> else r);
         r = r\<lparr>mr_last_heartbeat := now, mr_updated_at := now\<rparr>
     in case bridge of Some b \<Rightarrow> r\<lparr>mr_bridge_ip := Some b\<rparr> | None \<Rightarrow> r)"
| "apply_mutation (Set_Endpoints endpoints) r = r\<lparr>mr_endpoints := endpoints\<rparr>"
| "apply_mutation (Set_Participation p) r = r\<lparr>mr_participation := p\<rparr>"
| "apply_mutation (Replace_Record r') r = r'"

record 's self_writer =
  sw_current :: machine_record
  sw_authoritative :: machine_record
  sw_store :: 's

type_synonym ('s, 'e) upsert_self = "machine_record \<Rightarrow> ('s, 'e, unit) action"

definition writer_start :: "machine_record \<Rightarrow> 's \<Rightarrow> 's self_writer" where
  "writer_start authoritative s = \<lparr> sw_current = authoritative, sw_authoritative = authoritative, sw_store = s \<rparr>"

definition writer_command ::
    "('s, 'e) upsert_self \<Rightarrow> self_record_mutation \<Rightarrow> 's self_writer \<Rightarrow> machine_record option \<times> 's self_writer" where
  "writer_command upsert mutation w =
    (let next = apply_mutation mutation (sw_current w) in
     if next = sw_current w then (Some next, w)
     else case upsert next (sw_store w) of
       (Inr _, s') \<Rightarrow> (Some next, w\<lparr>sw_store := s', sw_authoritative := next, sw_current := next\<rparr>)
     | (Inl _, s') \<Rightarrow> (None, w\<lparr>sw_store := s'\<rparr>))"

section \<open>Liveness and endpoints\<close>

text \<open>The clock is \<open>None\<close> when it stands before the epoch.\<close>

definition publish_liveness ::
    "('s, 'e) upsert_self \<Rightarrow> timestamp option \<Rightarrow> overlay_ip option \<Rightarrow> 's self_writer \<Rightarrow> 's self_writer" where
  "publish_liveness upsert clock bridge w =
    (case clock of None \<Rightarrow> w | Some now \<Rightarrow> snd (writer_command upsert (Refresh_Liveness now bridge) w))"

definition endpoint_refresh ::
    "('s, 'e) upsert_self \<Rightarrow> machine_id \<Rightarrow> ('f, string list) result \<Rightarrow> 's self_writer \<Rightarrow> 's self_writer" where
  "endpoint_refresh upsert machine_id detected w =
    (case detected of
       Inl _ \<Rightarrow> w
     | Inr endpoints \<Rightarrow>
         if endpoints = [] then w
         else if mr_id (sw_authoritative w) \<noteq> machine_id then w
         else if mr_endpoints (sw_authoritative w) \<noteq> endpoints
         then snd (writer_command upsert (Set_Endpoints endpoints) w)
         else w)"

section \<open>Participation\<close>

definition participation_hysteresis_samples :: "8 word" where
  "participation_hysteresis_samples = 3"

record participation_state =
  pa_good :: "8 word"
  pa_bad :: "8 word"
  pa_forced :: "participation option"

definition participation_state_default :: participation_state where
  "participation_state_default = \<lparr> pa_good = 0, pa_bad = 0, pa_forced = None \<rparr>"

datatype peer_health_sample = Sample_Healthy | Sample_Unhealthy

record required_peer_health =
  rh_required :: "string list"
  rh_unhealthy :: "string list"

definition peers_healthy :: "required_peer_health \<Rightarrow> bool" where
  "peers_healthy h \<longleftrightarrow> rh_unhealthy h = []"

definition health_sample :: "required_peer_health \<Rightarrow> peer_health_sample" where
  "health_sample h = (if peers_healthy h then Sample_Healthy else Sample_Unhealthy)"

definition saturating_add_u8 :: "8 word \<Rightarrow> 8 word \<Rightarrow> 8 word" where
  "saturating_add_u8 a b = (if 255 - a < b then 255 else a + b)"

definition update_hysteresis :: "peer_health_sample \<Rightarrow> participation_state \<Rightarrow> participation_state" where
  "update_hysteresis sample st =
    (if sample = Sample_Healthy
     then st\<lparr>pa_bad := 0, pa_good := min (saturating_add_u8 (pa_good st) 1) participation_hysteresis_samples\<rparr>
     else st\<lparr>pa_good := 0, pa_bad := min (saturating_add_u8 (pa_bad st) 1) participation_hysteresis_samples\<rparr>)"

definition required_peers_for_participation :: "machine_record list \<Rightarrow> machine_id \<Rightarrow> timestamp \<Rightarrow> machine_record list" where
  "required_peers_for_participation machines machine_id now =
    filter (\<lambda>m. machine_is_fresh m now)
      (filter (\<lambda>m. case mr_participation m of Participation_Disabled \<Rightarrow> False
                  | Participation_Enabled \<Rightarrow> True | Participation_Draining \<Rightarrow> True)
        (filter (\<lambda>m. mr_id m \<noteq> machine_id) machines))"

definition required_peer_is_healthy :: "(overlay_ip \<Rightarrow> tcp_probe_result option) \<Rightarrow> machine_record \<Rightarrow> bool" where
  "required_peer_is_healthy probes peer =
    (case map_option tp_status (probes (mr_overlay_ip peer)) of Some Probe_Reachable \<Rightarrow> True | _ \<Rightarrow> False)"

definition required_peers_health ::
    "bool \<Rightarrow> (overlay_ip \<Rightarrow> tcp_probe_result option) \<Rightarrow> machine_record list \<Rightarrow> required_peer_health" where
  "required_peers_health read_ok probes required =
    (let ids = map (\<lambda>m. machine_id_str (mr_id m)) required in
     if required = [] then \<lparr> rh_required = ids, rh_unhealthy = [] \<rparr>
     else if \<not> read_ok then \<lparr> rh_required = ids, rh_unhealthy = ids \<rparr>
     else \<lparr> rh_required = ids,
            rh_unhealthy = map (\<lambda>m. machine_id_str (mr_id m)) (filter (\<lambda>m. \<not> required_peer_is_healthy probes m) required) \<rparr>)"

definition next_participation :: "participation_state \<Rightarrow> participation \<Rightarrow> participation" where
  "next_participation st current =
    (case pa_forced st of
       Some p \<Rightarrow> p
     | None \<Rightarrow>
         (case current of
            Participation_Disabled \<Rightarrow>
              if participation_hysteresis_samples \<le> pa_good st then Participation_Enabled else Participation_Disabled
          | Participation_Enabled \<Rightarrow>
              if participation_hysteresis_samples \<le> pa_bad st then Participation_Disabled else Participation_Enabled
          | Participation_Draining \<Rightarrow> Participation_Draining))"

text \<open>
  What one sample observes: the listing, the clock, whether the device's peers could be read, and the
  results of the overlay probes. While the sample waits for its probes the writer may serve other
  commands, \<open>pi_between\<close>.
\<close>

record participation_input =
  pi_machines :: "(store_error, machine_record list) result"
  pi_now :: timestamp
  pi_read_ok :: bool
  pi_probes :: "overlay_ip \<Rightarrow> tcp_probe_result option"
  pi_between :: "self_record_mutation list"

definition observed_sample :: "machine_id \<Rightarrow> participation_input \<Rightarrow> machine_record list \<Rightarrow> peer_health_sample" where
  "observed_sample machine_id inp machines =
    health_sample (required_peers_health (pi_read_ok inp) (pi_probes inp)
      (required_peers_for_participation machines machine_id (pi_now inp)))"

definition participation_once ::
    "('s, 'e) upsert_self \<Rightarrow> machine_id \<Rightarrow> participation_input \<Rightarrow>
     participation_state \<times> 's self_writer \<Rightarrow> participation_state \<times> 's self_writer" where
  "participation_once upsert machine_id inp y =
    (case y of (st, w) \<Rightarrow>
      case pi_machines inp of
        Inl _ \<Rightarrow> (st, w)
      | Inr machines \<Rightarrow>
          let current = sw_authoritative w;
              w = fold (\<lambda>m w. snd (writer_command upsert m w)) (pi_between inp) w;
              st' = update_hysteresis (observed_sample machine_id inp machines) st;
              next = next_participation st' (mr_participation current)
          in if next \<noteq> mr_participation current
             then (st', snd (writer_command upsert (Set_Participation next) w))
             else (st', w))"

datatype participation_command = Part_Tick_Now | Part_Set_Forced "participation option"

definition participation_command_step ::
    "('s, 'e) upsert_self \<Rightarrow> machine_id \<Rightarrow> participation_command \<Rightarrow> participation_input \<Rightarrow>
     participation_state \<times> 's self_writer \<Rightarrow> participation_state \<times> 's self_writer" where
  "participation_command_step upsert machine_id command inp y =
    (case command of
       Part_Tick_Now \<Rightarrow> participation_once upsert machine_id inp y
     | Part_Set_Forced p \<Rightarrow> participation_once upsert machine_id inp (fst y\<lparr>pa_forced := p\<rparr>, snd y))"

section \<open>Subnet claims\<close>

text \<open>\<open>net_str\<close> is the \<open>Display\<close> of \<open>Ipv4Net\<close>.\<close>

definition push_claim :: "(ipv4_net \<Rightarrow> string) \<Rightarrow> machine_record \<Rightarrow> (string, string list) btree_map \<Rightarrow> (string, string list) btree_map" where
  "push_claim net_str m claims =
    (case mr_subnet m of None \<Rightarrow> claims | Some subnet \<Rightarrow> bt_push (net_str subnet) (machine_id_str (mr_id m)) claims)"

definition duplicate_subnet_claims :: "(ipv4_net \<Rightarrow> string) \<Rightarrow> machine_record list \<Rightarrow> (string \<times> string list) list" where
  "duplicate_subnet_claims net_str machines =
    map (\<lambda>(subnet, claimants). (subnet, sort_by cmp claimants))
      (filter (\<lambda>(subnet, claimants). \<not> length claimants < 2) (fold (push_claim net_str) machines []))"

record claim_monitor =
  cm_machines :: "(machine_id, machine_record) btree_map"
  cm_previous :: "(string \<times> string list) list"

definition claim_monitor_start :: "(ipv4_net \<Rightarrow> string) \<Rightarrow> machine_record list \<Rightarrow> claim_monitor" where
  "claim_monitor_start net_str snapshot =
    (let machines = bt_collect (map (\<lambda>m. (mr_id m, m)) snapshot)
     in \<lparr> cm_machines = machines, cm_previous = duplicate_subnet_claims net_str (bt_values machines) \<rparr>)"

fun claim_event :: "machine_event \<Rightarrow> (machine_id, machine_record) btree_map \<Rightarrow> (machine_id, machine_record) btree_map" where
  "claim_event (Machine_Added m) machines = bt_insert (mr_id m) m machines"
| "claim_event (Machine_Updated m) machines = bt_insert (mr_id m) m machines"
| "claim_event (Machine_Removed m) machines = bt_remove (mr_id m) machines"

definition claim_monitor_event :: "(ipv4_net \<Rightarrow> string) \<Rightarrow> machine_event \<Rightarrow> claim_monitor \<Rightarrow> claim_monitor" where
  "claim_monitor_event net_str event c =
    (let machines = claim_event event (cm_machines c);
         next_duplicates = duplicate_subnet_claims net_str (bt_values machines)
     in if next_duplicates \<noteq> cm_previous c
        then \<lparr> cm_machines = machines, cm_previous = next_duplicates \<rparr>
        else c\<lparr>cm_machines := machines\<rparr>)"

section \<open>Routes of the data plane\<close>

type_synonym ('d, 'e) route_op = "ipv4_net \<Rightarrow> ('d, 'e, unit) action"

definition ebpf_upsert :: "('d, 'e) route_op \<Rightarrow> machine_id \<Rightarrow> machine_record \<Rightarrow> 'd \<Rightarrow> 'd" where
  "ebpf_upsert upsert_route self m d =
    (if mr_id m = self then d
     else case mr_subnet m of None \<Rightarrow> d | Some subnet \<Rightarrow> snd (upsert_route subnet d))"

definition ebpf_remove :: "('d, 'e) route_op \<Rightarrow> machine_id \<Rightarrow> machine_record \<Rightarrow> 'd \<Rightarrow> 'd" where
  "ebpf_remove remove_route self m d =
    (if mr_id m = self then d
     else case mr_subnet m of None \<Rightarrow> d | Some subnet \<Rightarrow> snd (remove_route subnet d))"

definition ebpf_seed :: "('d, 'e) route_op \<Rightarrow> machine_id \<Rightarrow> machine_record list \<Rightarrow> 'd \<Rightarrow> 'd" where
  "ebpf_seed upsert_route self = fold (ebpf_upsert upsert_route self)"

fun ebpf_event :: "('d, 'e) route_op \<Rightarrow> ('d, 'e) route_op \<Rightarrow> machine_id \<Rightarrow> machine_event \<Rightarrow> 'd \<Rightarrow> 'd" where
  "ebpf_event upsert_route remove_route self (Machine_Added m) d = ebpf_upsert upsert_route self m d"
| "ebpf_event upsert_route remove_route self (Machine_Updated m) d = ebpf_upsert upsert_route self m d"
| "ebpf_event upsert_route remove_route self (Machine_Removed m) d = ebpf_remove remove_route self m d"

section \<open>The task set\<close>

datatype 'e task_set_error = Task_Subscribe 'e | Task_Join 'e

definition first_some :: "'a option \<Rightarrow> 'a \<Rightarrow> 'a option" where
  "first_some first x = (case first of None \<Rightarrow> Some x | Some y \<Rightarrow> Some y)"

text \<open>\<open>stop\<close> cancels the tasks and joins them; the outcomes of the joins are its argument.\<close>

definition task_set_stop :: "('e, unit) result list \<Rightarrow> ('e task_set_error, unit) result" where
  "task_set_stop joined =
    (case fold (\<lambda>r first. case r of Inl e \<Rightarrow> first_some first (Task_Join e) | Inr _ \<Rightarrow> first) joined None of
       Some e \<Rightarrow> Inl e
     | None \<Rightarrow> Inr ())"

section \<open>Histories\<close>

text \<open>
  A history of the tasks: ticks and commands of the participation task, ticks of the liveness and
  endpoint tasks, and records replaced from outside.
\<close>

datatype task_event =
    Ev_Participation_Tick participation_input
  | Ev_Participation_Command participation_command participation_input
  | Ev_Liveness "timestamp option" "overlay_ip option"
  | Ev_Endpoints "(string, string list) result"
  | Ev_Replace machine_record

type_synonym 's task_system = "participation_state \<times> 's self_writer"

fun task_step :: "('s, 'e) upsert_self \<Rightarrow> machine_id \<Rightarrow> task_event \<Rightarrow> 's task_system \<Rightarrow> 's task_system" where
  "task_step upsert i (Ev_Participation_Tick inp) y = participation_once upsert i inp y"
| "task_step upsert i (Ev_Participation_Command c inp) y = participation_command_step upsert i c inp y"
| "task_step upsert i (Ev_Liveness clock bridge) y = (fst y, publish_liveness upsert clock bridge (snd y))"
| "task_step upsert i (Ev_Endpoints detected) y = (fst y, endpoint_refresh upsert i detected (snd y))"
| "task_step upsert i (Ev_Replace r) y = (fst y, snd (writer_command upsert (Replace_Record r) (snd y)))"

definition run_tasks :: "('s, 'e) upsert_self \<Rightarrow> machine_id \<Rightarrow> task_event list \<Rightarrow> 's task_system \<Rightarrow> 's task_system" where
  "run_tasks upsert i = fold (task_step upsert i)"

fun event_input :: "task_event \<Rightarrow> participation_input option" where
  "event_input (Ev_Participation_Tick inp) = Some inp"
| "event_input (Ev_Participation_Command c inp) = Some inp"
| "event_input _ = None"

definition event_sample :: "machine_id \<Rightarrow> task_event \<Rightarrow> peer_health_sample list" where
  "event_sample i ev = (case event_input ev of None \<Rightarrow> []
    | Some inp \<Rightarrow> (case pi_machines inp of Inr machines \<Rightarrow> [observed_sample i inp machines] | Inl _ \<Rightarrow> []))"

definition samples :: "machine_id \<Rightarrow> task_event list \<Rightarrow> peer_health_sample list" where
  "samples i history = concat (map (event_sample i) history)"

fun event_forced :: "task_event \<Rightarrow> participation option \<Rightarrow> participation option" where
  "event_forced (Ev_Participation_Command (Part_Set_Forced p) inp) _ = p"
| "event_forced _ f = f"

definition last_three :: "'a \<Rightarrow> 'a list \<Rightarrow> bool" where
  "last_three x xs \<longleftrightarrow> 3 \<le> length xs \<and> (\<forall>y\<in>set (drop (length xs - 3) xs). y = x)"

section \<open>Hysteresis\<close>

definition trailing :: "'a \<Rightarrow> 'a list \<Rightarrow> nat" where
  "trailing x xs = length (takeWhile (\<lambda>y. y = x) (rev xs))"

lemma trailing_snoc: "trailing x (xs @ [y]) = (if y = x then Suc (trailing x xs) else 0)"
  by (simp add: trailing_def)

lemma trailing_three: "3 \<le> trailing x xs \<longleftrightarrow> last_three x xs"
proof (cases "\<exists>ys a b c. xs = ys @ [a, b, c]")
  case True
  then obtain ys a b c where "xs = ys @ [a, b, c]" by blast
  then show ?thesis by (auto simp: trailing_def last_three_def)
next
  case False
  have "\<not> 3 \<le> length xs"
  proof
    assume l: "3 \<le> length xs"
    have three: "\<exists>a b c. zs = [a, b, c]" if "length zs = 3" for zs :: "'a list"
      using that by (auto simp: numeral_3_eq_3 length_Suc_conv)
    have "length (drop (length xs - 3) xs) = 3" using l by simp
    then obtain a b c where "drop (length xs - 3) xs = [a, b, c]" using three by blast
    then show False using False append_take_drop_id[of "length xs - 3" xs] by metis
  qed
  moreover have "trailing x xs \<le> length xs"
    unfolding trailing_def using length_takeWhile_le[of _ "rev xs"] by simp
  ultimately show ?thesis by (simp add: last_three_def)
qed

definition counters_exact :: "peer_health_sample list \<Rightarrow> participation_state \<Rightarrow> bool" where
  "counters_exact xs st \<longleftrightarrow> unat (pa_good st) = min 3 (trailing Sample_Healthy xs) \<and>
    unat (pa_bad st) = min 3 (trailing Sample_Unhealthy xs)"

lemma unat_min_three:
  "unat a \<le> 3 \<Longrightarrow> unat (min (saturating_add_u8 a 1) participation_hysteresis_samples) = min 3 (Suc (unat a))"
proof -
  assume a: "unat a \<le> 3"
  consider "unat a = 0" | "unat a = 1" | "unat a = 2" | "unat a = 3" using a by linarith
  then have "a = 0 \<or> a = 1 \<or> a = 2 \<or> a = 3" by cases (simp_all add: word_unat_eq_iff)
  then show ?thesis by (auto simp: saturating_add_u8_def participation_hysteresis_samples_def)
qed

lemma update_hysteresis_exact:
  assumes "counters_exact xs st"
  shows "counters_exact (xs @ [s]) (update_hysteresis s st)"
proof -
  have le: "unat (pa_good st) \<le> 3" "unat (pa_bad st) \<le> 3" using assms by (simp_all add: counters_exact_def)
  show ?thesis
    using assms le unat_min_three
    by (cases s) (auto simp: counters_exact_def update_hysteresis_def trailing_snoc)
qed

lemma run_tasks_snoc: "run_tasks upsert i (history @ [ev]) y = task_step upsert i ev (run_tasks upsert i history y)"
  by (simp add: run_tasks_def)

lemma samples_snoc: "samples i (history @ [ev]) = samples i history @ event_sample i ev"
  by (simp add: samples_def)

lemma participation_once_state:
  "fst (participation_once upsert i inp (st, w)) =
    (case pi_machines inp of Inl _ \<Rightarrow> st | Inr machines \<Rightarrow> update_hysteresis (observed_sample i inp machines) st)"
  by (simp add: participation_once_def Let_def split: sum.split)

lemma task_step_state:
  "fst (task_step upsert i ev (st, w)) =
    (let st = st\<lparr>pa_forced := event_forced ev (pa_forced st)\<rparr>
     in case event_sample i ev of [] \<Rightarrow> st | s # _ \<Rightarrow> update_hysteresis s st)"
proof (cases ev)
  case (Ev_Participation_Command c inp)
  then show ?thesis
    by (cases c) (simp_all add: participation_command_step_def participation_once_state event_sample_def Let_def split: sum.split)
qed (simp_all add: participation_once_state event_sample_def split: sum.split)

lemma event_sample_cases: "event_sample i ev = [] \<or> (\<exists>s. event_sample i ev = [s])"
  by (auto simp: event_sample_def split: option.split sum.split)

lemma update_hysteresis_forced [simp]: "pa_forced (update_hysteresis s st) = pa_forced st"
  by (simp add: update_hysteresis_def)

lemma counters_exact_forced [simp]: "counters_exact xs (st\<lparr>pa_forced := f\<rparr>) \<longleftrightarrow> counters_exact xs st"
  by (simp add: counters_exact_def)

lemma run_tasks_counters:
  "counters_exact (samples i history) (fst (run_tasks upsert i history (participation_state_default, w))) \<and>
   pa_forced (fst (run_tasks upsert i history (participation_state_default, w))) = fold event_forced history None"
proof (induction history rule: rev_induct)
  case Nil
  then show ?case by (simp add: run_tasks_def samples_def counters_exact_def participation_state_default_def trailing_def)
next
  case (snoc ev history)
  obtain st v where r: "run_tasks upsert i history (participation_state_default, w) = (st, v)" by fastforce
  have st: "counters_exact (samples i history) st" "pa_forced st = fold event_forced history None"
    using snoc r by simp_all
  show ?case
    using event_sample_cases[of i ev] st
    by (auto simp: run_tasks_snoc r task_step_state samples_snoc update_hysteresis_exact)
qed


section \<open>The writer keeps the records in step\<close>

definition identity :: "machine_record \<Rightarrow> machine_id \<times> public_key \<times> overlay_ip" where
  "identity r = (mr_id r, mr_public_key r, mr_overlay_ip r)"

text \<open>
  The writer's state is well formed: its copy, the authoritative record and the stored record agree, and
  carry the identity of this machine.
\<close>

definition writer_wf :: "machine_id \<times> public_key \<times> overlay_ip \<Rightarrow> ('c, 'd) store_inner self_writer \<Rightarrow> bool" where
  "writer_wf ident w \<longleftrightarrow> sw_current w = sw_authoritative w \<and> identity (sw_authoritative w) = ident \<and>
    hm_get (st_machines (sw_store w)) (fst ident) = Some (sw_authoritative w)"

fun mutation_ok :: "machine_id \<times> public_key \<times> overlay_ip \<Rightarrow> self_record_mutation \<Rightarrow> bool" where
  "mutation_ok ident (Replace_Record r) \<longleftrightarrow> identity r = ident"
| "mutation_ok ident _ \<longleftrightarrow> True"

definition event_ok :: "machine_id \<times> public_key \<times> overlay_ip \<Rightarrow> task_event \<Rightarrow> bool" where
  "event_ok ident ev \<longleftrightarrow>
    (case event_input ev of Some inp \<Rightarrow> list_all (mutation_ok ident) (pi_between inp) | None \<Rightarrow> True) \<and>
    (case ev of Ev_Replace r \<Rightarrow> identity r = ident | _ \<Rightarrow> True)"

lemma apply_mutation_identity: "mutation_ok ident m \<Longrightarrow> identity r = ident \<Longrightarrow> identity (apply_mutation m r) = ident"
  by (cases m) (auto simp: identity_def Let_def split: option.split)

lemma upsert_self_machine_stores:
  "upsert_self_machine try_send r s = (Inr (), s') \<Longrightarrow> hm_get (st_machines s') k = (if k = mr_id r then Some r else hm_get (st_machines s) k)"
  by (auto simp: upsert_self_machine_def Let_def update_conv')

lemma writer_command_wf:
  assumes "writer_wf ident w" "mutation_ok ident m"
  shows "writer_wf ident (snd (writer_command (upsert_self_machine try_send) m w))"
proof -
  let ?r = "apply_mutation m (sw_current w)"
  have i: "identity ?r = ident"
    using assms apply_mutation_identity[of ident m "sw_current w"] by (simp add: writer_wf_def)
  obtain s' where u: "upsert_self_machine try_send ?r (sw_store w) = (Inr (), s')"
    by (simp add: upsert_self_machine_def Let_def)
  have "fst ident = mr_id ?r" using i by (auto simp: identity_def)
  then have "hm_get (st_machines s') (fst ident) = Some ?r"
    using upsert_self_machine_stores[OF u] by simp
  then show ?thesis using assms i u by (simp add: writer_command_def Let_def writer_wf_def)
qed

lemma fold_writer_wf:
  assumes "writer_wf ident w" "list_all (mutation_ok ident) ms"
  shows "writer_wf ident (fold (\<lambda>m w. snd (writer_command (upsert_self_machine try_send) m w)) ms w)"
  using assms by (induction ms arbitrary: w) (auto intro: writer_command_wf)

lemma participation_once_wf:
  assumes "writer_wf ident w" "list_all (mutation_ok ident) (pi_between inp)"
  shows "writer_wf ident (snd (participation_once (upsert_self_machine try_send) i inp (st, w)))"
  using fold_writer_wf[OF assms, of try_send] assms(1)
  by (auto simp: participation_once_def Let_def intro!: writer_command_wf split: sum.split)

lemma task_step_wf:
  assumes "writer_wf ident w" "event_ok ident ev"
  shows "writer_wf ident (snd (task_step (upsert_self_machine try_send) i ev (st, w)))"
proof (cases ev)
  case (Ev_Participation_Command c inp)
  then show ?thesis using assms
    by (cases c) (auto simp: participation_command_step_def event_ok_def intro!: participation_once_wf)
qed (use assms in \<open>auto simp: event_ok_def publish_liveness_def endpoint_refresh_def
  intro!: participation_once_wf writer_command_wf split: option.split sum.split\<close>)



text \<open>
  \<open>Mesh::update_authoritative_self_record\<close> reads the record, changes its copy and sends the whole of it
  to the writer: a mutation served in between is overwritten.
\<close>

lemma replace_loses_update:
  assumes "\<And>r s. fst (upsert r s) = Inr ()" and "sw_current w = sw_authoritative w" and "p \<noteq> mr_participation (sw_authoritative w)"
  defines "w1 \<equiv> snd (writer_command upsert (Set_Participation p) w)"
  defines "w2 \<equiv> snd (writer_command upsert (Replace_Record ((sw_authoritative w)\<lparr>mr_status := Status_Down\<rparr>)) w1)"
  shows "mr_participation (sw_authoritative w1) = p"
    and "mr_participation (sw_authoritative w2) = mr_participation (sw_authoritative w)"
proof -
  obtain s1 where u1: "upsert ((sw_authoritative w)\<lparr>mr_participation := p\<rparr>) (sw_store w) = (Inr (), s1)"
    using assms(1) by (metis prod.collapse)
  have c: "(sw_authoritative w)\<lparr>mr_participation := p\<rparr> \<noteq> sw_authoritative w"
    using assms(3) by (metis machine_record.select_convs(8) machine_record.surjective machine_record.update_convs(8))
  have w1: "w1 = w\<lparr>sw_store := s1, sw_authoritative := (sw_authoritative w)\<lparr>mr_participation := p\<rparr>,
      sw_current := (sw_authoritative w)\<lparr>mr_participation := p\<rparr>\<rparr>"
    using u1 c assms(2) by (simp add: w1_def writer_command_def Let_def)
  then show "mr_participation (sw_authoritative w1) = p" by simp
  obtain s2 where u2: "upsert ((sw_authoritative w)\<lparr>mr_status := Status_Down\<rparr>) s1 = (Inr (), s2)"
    using assms(1) by (metis prod.collapse)
  have "(sw_authoritative w)\<lparr>mr_status := Status_Down\<rparr> \<noteq> (sw_authoritative w)\<lparr>mr_participation := p\<rparr>"
    using assms(3) by (cases "sw_authoritative w") auto
  then show "mr_participation (sw_authoritative w2) = mr_participation (sw_authoritative w)"
    using u2 w1 by (simp add: w2_def writer_command_def Let_def)
qed

section \<open>Claims on subnets\<close>

definition claimants :: "(ipv4_net \<Rightarrow> string) \<Rightarrow> machine_record list \<Rightarrow> string \<Rightarrow> string list" where
  "claimants net_str machines subnet = map (\<lambda>m. machine_id_str (mr_id m))
    (filter (\<lambda>m. map_option net_str (mr_subnet m) = Some subnet) machines)"

lemma fold_push_claim:
  "bt_wf c \<Longrightarrow> bt_wf (fold (push_claim net_str) machines c) \<and>
    unwrap_or (bt_get (fold (push_claim net_str) machines c) k) [] = unwrap_or (bt_get c k) [] @ claimants net_str machines k"
proof (induction machines arbitrary: c)
  case (Cons m ms)
  have "bt_wf (push_claim net_str m c)" using Cons.prems by (simp add: push_claim_def split: option.split)
  from Cons.IH[OF this] show ?case
    by (auto simp: push_claim_def claimants_def split: option.split)
qed (simp add: claimants_def)

text \<open>
  The reported duplicates are exactly the subnets that at least two machines claim, each with the
  sorted ids of its claimants.
\<close>

lemma duplicate_subnet_claims_exact:
  "(subnet, ids) \<in> set (duplicate_subnet_claims net_str machines) \<longleftrightarrow>
    2 \<le> length (claimants net_str machines subnet) \<and> ids = sort_by cmp (claimants net_str machines subnet)"
proof -
  let ?c = "fold (push_claim net_str) machines []"
  have wf: "bt_wf ?c" and get: "unwrap_or (bt_get ?c subnet) [] = claimants net_str machines subnet"
    using fold_push_claim[of "[]" net_str machines subnet] by simp_all
  have mem: "(subnet, cs) \<in> set ?c \<longleftrightarrow> bt_get ?c subnet = Some cs" for cs
    using bt.entries_get[OF wf] .
  have "(subnet, ids) \<in> set (duplicate_subnet_claims net_str machines) \<longleftrightarrow>
      (\<exists>cs. bt_get ?c subnet = Some cs \<and> 2 \<le> length cs \<and> ids = sort_by cmp cs)"
    unfolding duplicate_subnet_claims_def using mem by (auto simp: not_less image_iff)
  also have "\<dots> \<longleftrightarrow> 2 \<le> length (claimants net_str machines subnet) \<and> ids = sort_by cmp (claimants net_str machines subnet)"
    using get by (cases "bt_get ?c subnet") auto
  finally show ?thesis .
qed

text \<open>The monitor's report is always that of the machines it knows.\<close>

lemma claim_monitor_current:
  "cm_previous (fold (claim_monitor_event net_str) events (claim_monitor_start net_str snapshot)) =
    duplicate_subnet_claims net_str (bt_values (cm_machines (fold (claim_monitor_event net_str) events (claim_monitor_start net_str snapshot))))"
  by (induction events rule: rev_induct) (auto simp: claim_monitor_start_def claim_monitor_event_def Let_def)

section \<open>Stale routes\<close>

text \<open>
  The data plane task forgets which subnet a machine had: an update to another subnet adds the new route
  and leaves the old one.
\<close>

lemma ebpf_update_keeps_old_route:
  fixes upsert remove :: "(ipv4_net set, unit) route_op"
  assumes "upsert = (\<lambda>n d. (Inr (), insert n d))" and "remove = (\<lambda>n d. (Inr (), d - {n}))"
    and "mr_id m \<noteq> self" and "mr_subnet m = Some old"
  shows "ebpf_event upsert remove self (Machine_Updated (m\<lparr>mr_subnet := Some new\<rparr>)) (ebpf_event upsert remove self (Machine_Added m) {}) =
    {old, new}"
  using assms by (auto simp: ebpf_upsert_def)

end
