(* ===== verification/Mesh_Orchestrator.thy ===== *)
theory Mesh_Orchestrator
  imports Mesh_Tasks Action_Logic
begin

text \<open>
  The orchestrator of a mesh, \<open>crates/ployz-orchestrator/src/mesh/orchestrator.rs\<close>: bringing the mesh
  up, tearing it down, detaching from it and restarting it on another subnet.

  The mesh is a record with the fields of the source; the sender halves of the task channels are flags
  for whether they are there, the task set is the list of the tasks spawned in it. The network driver,
  the store, the service runtime, the container network, the data plane and the clock are the
  ports \<open>mesh_ports\<close>, actions on a world \<open>'w\<close>. An operation is an action on the mesh and the world.
\<close>

section \<open>The mesh and its ports\<close>

datatype 'e port_error = Port_Failed 'e | Port_Operation string 'e | Port_Timeout string string

datatype 'e mesh_error =
    Mesh_Transition transition_error
  | Mesh_Port "'e port_error"
  | Mesh_Task "'e port_error task_set_error"

datatype mesh_task = Task_Probe_Listener | Task_Peer_Sync | Task_Self_Record_Writer | Task_Endpoint_Refresh
  | Task_Self_Liveness | Task_Participation | Task_Heartbeat | Task_Subnet_Claim_Monitor | Task_Ebpf_Sync

datatype runtime_store_mode = Store_Keep | Store_Stop

record ('n, 'k, 'dp) mesh =
  me_phase :: phase
  me_network :: 'n
  me_container_network :: "'k option"
  me_tasks :: "mesh_task list option"
  me_task_cancel :: bool
  me_peer_sync_tx :: bool
  me_heartbeat_tx :: bool
  me_self_liveness_tx :: bool
  me_participation_tx :: bool
  me_self_record_tx :: bool
  me_bootstrap_interval :: nat
  me_connection_timeout :: nat
  me_service_ready_timeout :: nat
  me_machine_id :: machine_id
  me_seed_records :: "machine_record list"
  me_authoritative_self :: "machine_record option"
  me_allow_disconnected :: bool
  me_dataplane :: "'dp option"
  me_wg_ifindex :: nat
  me_heartbeat_started :: bool

definition mesh_new :: "'n \<Rightarrow> 'k option \<Rightarrow> machine_id \<Rightarrow> ('n, 'k, 'dp) mesh" where
  "mesh_new network container_network machine_id =
    \<lparr> me_phase = Stopped, me_network = network, me_container_network = container_network, me_tasks = None,
      me_task_cancel = False, me_peer_sync_tx = False, me_heartbeat_tx = False, me_self_liveness_tx = False,
      me_participation_tx = False, me_self_record_tx = False, me_bootstrap_interval = 500,
      me_connection_timeout = 30000, me_service_ready_timeout = 15000, me_machine_id = machine_id,
      me_seed_records = [], me_authoritative_self = None, me_allow_disconnected = False, me_dataplane = None,
      me_wg_ifindex = 0, me_heartbeat_started = False \<rparr>"

definition with_bootstrap_timing :: "nat \<Rightarrow> nat \<Rightarrow> ('n, 'k, 'dp) mesh \<Rightarrow> ('n, 'k, 'dp) mesh" where
  "with_bootstrap_timing interval connection_timeout m =
    m\<lparr>me_bootstrap_interval := interval, me_connection_timeout := connection_timeout\<rparr>"

definition with_seed_records :: "machine_record list \<Rightarrow> ('n, 'k, 'dp) mesh \<Rightarrow> ('n, 'k, 'dp) mesh" where
  "with_seed_records seeds m = m\<lparr>me_seed_records := seeds\<rparr>"

definition with_disconnected_bootstrap_allowed :: "bool \<Rightarrow> ('n, 'k, 'dp) mesh \<Rightarrow> ('n, 'k, 'dp) mesh" where
  "with_disconnected_bootstrap_allowed allow m = m\<lparr>me_allow_disconnected := allow\<rparr>"

record ('n, 'k, 'dp, 'e, 'w) mesh_ports =
  po_network_up :: "'n \<Rightarrow> ('w, 'e, unit) action"
  po_network_down :: "'n \<Rightarrow> ('w, 'e, unit) action"
  po_set_peers :: "'n \<Rightarrow> machine_record list \<Rightarrow> ('w, 'e, unit) action"
  po_has_handshake :: "'n \<Rightarrow> 'w \<Rightarrow> bool \<times> 'w"
  po_docker_mode :: "'n \<Rightarrow> bool"
  po_runs_probe_listener :: "'n \<Rightarrow> bool"
  po_cn_ensure :: "'k \<Rightarrow> ('w, 'e, unit) action"
  po_cn_connect :: "'k \<Rightarrow> string \<Rightarrow> ipv4_addr option \<Rightarrow> ('w, 'e, unit) action"
  po_cn_remove :: "'k \<Rightarrow> ('w, 'e, unit) action"
  po_cn_v4 :: "'k \<Rightarrow> ipv4_addr"
  po_attach :: "('n \<Rightarrow> 'k \<Rightarrow> ('w, 'e, 'dp \<times> nat) action) option"
  po_detach :: "'dp \<Rightarrow> ('w, 'e, unit) action"
  po_runtime_start :: "('w, 'e, unit) action"
  po_runtime_stop :: "('w, 'e, unit) action"
  po_healthy :: "'w \<Rightarrow> bool \<times> 'w"
  po_store_init :: "('w, 'e, unit) action"
  po_list_machines :: "('w, 'e, machine_record list) action"
  po_subscribe_machines :: "('w, 'e, unit) action"
  po_sync_status :: "('w, 'e, sync_status) action"
  po_join_tasks :: "mesh_task list \<Rightarrow> 'w \<Rightarrow> ('e port_error, unit) result list \<times> 'w"
  po_replace_self :: "machine_record \<Rightarrow> 'w \<Rightarrow> machine_record option \<times> 'w"
  po_now_unix :: "'w \<Rightarrow> timestamp"
  po_clock :: "'w \<Rightarrow> nat"
  po_sleep :: "nat \<Rightarrow> 'w \<Rightarrow> 'w"

type_synonym ('n, 'k, 'dp, 'e, 'w, 'a) mesh_op = "(('n, 'k, 'dp) mesh \<times> 'w, 'e mesh_error, 'a) action"

section \<open>Actions on the mesh and the world\<close>

definition modify_mesh :: "(('n, 'k, 'dp) mesh \<Rightarrow> ('n, 'k, 'dp) mesh) \<Rightarrow> ('n, 'k, 'dp, 'e, 'w, unit) mesh_op" where
  "modify_mesh f = (\<lambda>(m, w). (Inr (), (f m, w)))"

definition with_mesh :: "(('n, 'k, 'dp) mesh \<Rightarrow> ('n, 'k, 'dp, 'e, 'w, 'a) mesh_op) \<Rightarrow> ('n, 'k, 'dp, 'e, 'w, 'a) mesh_op" where
  "with_mesh f = (\<lambda>(m, w). f m (m, w))"

definition port_act :: "('w, 'e, 'a) action \<Rightarrow> ('n, 'k, 'dp, 'e, 'w, 'a) mesh_op" where
  "port_act f = (\<lambda>(m, w). case f w of (r, w') \<Rightarrow> (map_err (\<lambda>e. Mesh_Port (Port_Failed e)) r, (m, w')))"

definition quiet_act :: "('w \<Rightarrow> 'a \<times> 'w) \<Rightarrow> ('n, 'k, 'dp, 'e, 'w, 'a) mesh_op" where
  "quiet_act f = (\<lambda>(m, w). case f w of (a, w') \<Rightarrow> (Inr a, (m, w')))"

definition try_act :: "('s, 'e, 'a) action \<Rightarrow> ('s, 'f, ('e, 'a) result) action" where
  "try_act f s = (case f s of (r, s') \<Rightarrow> (Inr r, s'))"

section \<open>Polling\<close>

text \<open>
  The deadline of \<open>tokio::time::timeout\<close>: an attempt that outlasts it is cut off, and so is a pause. The
  timer's resolution is a millisecond, the least a pause lasts.
\<close>

function poll_loop ::
    "('w \<Rightarrow> nat) \<Rightarrow> (nat \<Rightarrow> 'w \<Rightarrow> 'w) \<Rightarrow> ('w \<Rightarrow> bool \<times> 'w) \<Rightarrow> nat \<Rightarrow> nat \<Rightarrow> nat \<Rightarrow> nat \<Rightarrow> 'w \<Rightarrow> bool \<times> 'w" where
  "poll_loop clock sleep check limit max_interval elapsed interval w =
    (case check w of (ok, w') \<Rightarrow>
      let elapsed = elapsed + (clock w' - clock w); pause = max 1 interval in
      if limit < elapsed then (False, w')
      else if ok then (True, w')
      else if limit < elapsed + pause then (False, sleep (limit - elapsed) w')
      else poll_loop clock sleep check limit max_interval (elapsed + pause) (min (interval * 2) max_interval) (sleep interval w'))"
  by pat_completeness auto
termination
  by (relation "measure (\<lambda>(clock, sleep, check, limit, max_interval, elapsed, interval, w). Suc limit - elapsed)") auto

declare poll_loop.simps [simp del]

definition poll_until ::
    "('n, 'k, 'dp, 'e, 'w) mesh_ports \<Rightarrow> nat \<Rightarrow> nat \<Rightarrow> nat \<Rightarrow> ('w \<Rightarrow> bool \<times> 'w) \<Rightarrow> 'w \<Rightarrow> bool \<times> 'w" where
  "poll_until po limit initial_interval max_interval check =
    poll_loop (po_clock po) (po_sleep po) check limit max_interval 0 initial_interval"

definition ok_of :: "('w, 'e, 'a) action \<Rightarrow> 'w \<Rightarrow> bool \<times> 'w" where
  "ok_of f w = (case f w of (Inr _, w') \<Rightarrow> (True, w') | (Inl _, w') \<Rightarrow> (False, w'))"

definition wait_for_handshake :: "('n, 'k, 'dp, 'e, 'w) mesh_ports \<Rightarrow> ('n, 'k, 'dp, 'e, 'w, unit) mesh_op" where
  "wait_for_handshake po = with_mesh (\<lambda>m.
    bind_act (quiet_act (poll_until po 10000 200 200 (po_has_handshake po (me_network m)))) (\<lambda>ok.
    if ok then ret_act ()
    else fail_act (Mesh_Port (Port_Timeout ''handshake wait'' ''no WG handshake within 10s''))))"

definition wait_service_ready :: "('n, 'k, 'dp, 'e, 'w) mesh_ports \<Rightarrow> ('n, 'k, 'dp, 'e, 'w, unit) mesh_op" where
  "wait_service_ready po = with_mesh (\<lambda>m.
    bind_act (quiet_act (poll_until po (me_service_ready_timeout m) 50 1000 (po_healthy po))) (\<lambda>ok.
    if \<not> ok then fail_act (Mesh_Port (Port_Timeout ''service ready'' ''service did not become ready''))
    else ret_act ()))"

definition wait_store_init :: "('n, 'k, 'dp, 'e, 'w) mesh_ports \<Rightarrow> ('n, 'k, 'dp, 'e, 'w, unit) mesh_op" where
  "wait_store_init po =
    bind_act (quiet_act (poll_until po 30000 100 2000 (ok_of (po_store_init po)))) (\<lambda>init_ok.
    if \<not> init_ok then fail_act (Mesh_Port (Port_Timeout ''store init'' ''store did not become ready''))
    else
      bind_act (quiet_act (poll_until po 30000 100 2000 (ok_of (po_list_machines po)))) (\<lambda>query_ok.
      if \<not> query_ok then fail_act (Mesh_Port (Port_Timeout ''store init'' ''store queries did not succeed''))
      else ret_act ()))"

section \<open>Starting\<close>

definition apply_phase_event :: "phase_event \<Rightarrow> ('n, 'k, 'dp, 'e, 'w, unit) mesh_op" where
  "apply_phase_event event = (\<lambda>(m, w).
    case transition (me_phase m) event of
      Inl e \<Rightarrow> (Inl (Mesh_Transition e), (m, w))
    | Inr next \<Rightarrow> (Inr (), (m\<lparr>me_phase := next\<rparr>, w)))"

text \<open>Spawning tasks in the set that is there.\<close>

definition spawn :: "mesh_task list \<Rightarrow> ('n, 'k, 'dp) mesh \<Rightarrow> ('n, 'k, 'dp) mesh" where
  "spawn ts m = m\<lparr>me_tasks := map_option (\<lambda>old. old @ ts) (me_tasks m)\<rparr>"

definition subscribe_act :: "('n, 'k, 'dp, 'e, 'w) mesh_ports \<Rightarrow> ('n, 'k, 'dp, 'e, 'w, unit) mesh_op" where
  "subscribe_act po = (\<lambda>(m, w). case po_subscribe_machines po w of (r, w') \<Rightarrow>
    (map_err (\<lambda>e. Mesh_Task (Task_Subscribe (Port_Failed e))) r, (m, w')))"

definition start_peer_sync_task :: "('n, 'k, 'dp, 'e, 'w) mesh_ports \<Rightarrow> ('n, 'k, 'dp, 'e, 'w, unit) mesh_op" where
  "start_peer_sync_task po = with_mesh (\<lambda>m.
    if me_peer_sync_tx m then ret_act ()
    else
      bind_act (subscribe_act po) (\<lambda>_.
      modify_mesh (\<lambda>m. m\<lparr>me_peer_sync_tx := True, me_task_cancel := True,
        me_tasks := Some ((if po_runs_probe_listener po (me_network m) then [Task_Probe_Listener] else []) @ [Task_Peer_Sync])\<rparr>)))"

definition select_authoritative ::
    "('n, 'k, 'dp, 'e, 'w) mesh_ports \<Rightarrow> ('n, 'k, 'dp, 'e, 'w, unit) mesh_op" where
  "select_authoritative po = with_mesh (\<lambda>m.
    if me_authoritative_self m \<noteq> None then ret_act ()
    else
      bind_act (try_act (port_act (po_list_machines po))) (\<lambda>listed.
      let store_self = (case listed of Inr machines \<Rightarrow> find (\<lambda>x. mr_id x = me_machine_id m) machines | Inl _ \<Rightarrow> None);
          seed_self = find (\<lambda>x. mr_id x = me_machine_id m) (me_seed_records m)
      in case opt_or_else seed_self store_self of
           None \<Rightarrow> fail_act (Mesh_Task (Task_Subscribe (Port_Timeout ''self machine record'' ''authoritative self record missing'')))
         | Some r \<Rightarrow> modify_mesh (\<lambda>m. m\<lparr>me_authoritative_self := Some r\<rparr>)))"

definition spawn_background_tasks :: "('n, 'k, 'dp, 'e, 'w) mesh_ports \<Rightarrow> ('n, 'k, 'dp, 'e, 'w, unit) mesh_op" where
  "spawn_background_tasks po = with_mesh (\<lambda>m.
    if \<not> me_task_cancel m
    then fail_act (Mesh_Task (Task_Subscribe (Port_Timeout ''spawn_background_tasks'' ''peer sync task not started (no cancel token)'')))
    else
      bind_act (select_authoritative po) (\<lambda>_.
      bind_act (modify_mesh (\<lambda>m. spawn [Task_Self_Record_Writer, Task_Endpoint_Refresh] (m\<lparr>me_self_record_tx := True\<rparr>))) (\<lambda>_.
      bind_act (modify_mesh (\<lambda>m. spawn [Task_Self_Liveness] (m\<lparr>me_heartbeat_started := False, me_self_liveness_tx := True\<rparr>))) (\<lambda>_.
      bind_act (modify_mesh (\<lambda>m. spawn [Task_Participation] (m\<lparr>me_participation_tx := True\<rparr>))) (\<lambda>_.
      bind_act (modify_mesh (\<lambda>m. spawn [Task_Heartbeat] (m\<lparr>me_heartbeat_tx := True\<rparr>))) (\<lambda>_.
      bind_act (subscribe_act po) (\<lambda>_.
      bind_act (modify_mesh (spawn [Task_Subnet_Claim_Monitor])) (\<lambda>_.
      with_mesh (\<lambda>m.
        if me_dataplane m = None then ret_act ()
        else bind_act (subscribe_act po) (\<lambda>_. modify_mesh (spawn [Task_Ebpf_Sync])))))))))))"

text \<open>The bootstrap gate; the loop over the sync probe runs under the connection timeout.\<close>

function bootstrap_loop ::
    "('n, 'k, 'dp, 'e, 'w) mesh_ports \<Rightarrow> nat \<Rightarrow> nat \<Rightarrow> nat \<Rightarrow> 'w \<Rightarrow> bool \<times> 'w" where
  "bootstrap_loop po limit interval elapsed w =
    (case po_sync_status po w of (r, w') \<Rightarrow>
      let elapsed = elapsed + (po_clock po w' - po_clock po w); pause = max 1 interval in
      if limit < elapsed then (False, w')
      else if (case r of Inr status \<Rightarrow> status \<noteq> Disconnected | Inl _ \<Rightarrow> False) then (True, w')
      else if limit < elapsed + pause then (False, po_sleep po (limit - elapsed) w')
      else bootstrap_loop po limit interval (elapsed + pause) (po_sleep po interval w'))"
  by pat_completeness auto
termination
  by (relation "measure (\<lambda>(po, limit, interval, elapsed, w). Suc limit - elapsed)") auto

declare bootstrap_loop.simps [simp del]

definition bootstrap_gate :: "('n, 'k, 'dp, 'e, 'w) mesh_ports \<Rightarrow> ('n, 'k, 'dp, 'e, 'w, unit) mesh_op" where
  "bootstrap_gate po = with_mesh (\<lambda>m.
    bind_act (port_act (po_list_machines po)) (\<lambda>machines.
    if \<not> list_ex (\<lambda>x. mr_id x \<noteq> me_machine_id m) machines then apply_phase_event SyncComplete
    else if me_allow_disconnected m then apply_phase_event SyncComplete
    else
      bind_act (quiet_act (bootstrap_loop po (me_connection_timeout m) (me_bootstrap_interval m) 0)) (\<lambda>connected.
      if \<not> connected
      then fail_act (Mesh_Transition (BootstrapTimeout ''corrosion gossip could not reach any remote peer within the timeout''))
      else apply_phase_event SyncComplete)))"

definition start_container_network :: "('n, 'k, 'dp, 'e, 'w) mesh_ports \<Rightarrow> ('n, 'k, 'dp, 'e, 'w, unit) mesh_op" where
  "start_container_network po = with_mesh (\<lambda>m.
    case me_container_network m of
      None \<Rightarrow> ret_act ()
    | Some cn \<Rightarrow>
        bind_act (port_act (po_cn_ensure po cn)) (\<lambda>_.
        bind_act (if po_docker_mode po (me_network m)
          then port_act (po_cn_connect po cn ''ployz-networking'' (Some (po_cn_v4 po cn))) else ret_act ()) (\<lambda>_.
        case po_attach po of
          None \<Rightarrow> ret_act ()
        | Some attach \<Rightarrow>
            bind_act (port_act (attach (me_network m) cn)) (\<lambda>(dp, ifindex).
            modify_mesh (\<lambda>m. m\<lparr>me_wg_ifindex := ifindex, me_dataplane := Some dp\<rparr>)))))"

definition pre_start_peers :: "('n, 'k, 'dp, 'e, 'w) mesh_ports \<Rightarrow> ('n, 'k, 'dp, 'e, 'w, unit) mesh_op" where
  "pre_start_peers po = with_mesh (\<lambda>m.
    let peers = filter (\<lambda>x. mr_id x \<noteq> me_machine_id m) (me_seed_records m) in
    if peers = [] then ret_act ()
    else
      bind_act (try_act (port_act (po_set_peers po (me_network m) peers))) (\<lambda>(_ :: ('e mesh_error, unit) result).
      bind_act (try_act (wait_for_handshake po)) (\<lambda>(_ :: ('e mesh_error, unit) result). ret_act ())))"

definition bring_up :: "('n, 'k, 'dp, 'e, 'w) mesh_ports \<Rightarrow> ('n, 'k, 'dp, 'e, 'w, unit) mesh_op" where
  "bring_up po =
    bind_act (with_mesh (\<lambda>m. port_act (po_network_up po (me_network m)))) (\<lambda>_.
    bind_act (apply_phase_event NetworkReady) (\<lambda>_.
    bind_act (start_container_network po) (\<lambda>_.
    bind_act (pre_start_peers po) (\<lambda>_.
    bind_act (map_err_act (\<lambda>e. case e of Mesh_Port (Port_Failed x) \<Rightarrow> Mesh_Port (Port_Operation ''store runtime start'' x) | _ \<Rightarrow> e)
      (port_act (po_runtime_start po))) (\<lambda>_.
    bind_act (wait_service_ready po) (\<lambda>_.
    bind_act (wait_store_init po) (\<lambda>_.
    bind_act (start_peer_sync_task po) (\<lambda>_.
    bind_act (apply_phase_event ComponentsStarted) (\<lambda>_.
    bind_act (bootstrap_gate po) (\<lambda>_.
    spawn_background_tasks po))))))))))"

section \<open>Stopping\<close>

definition clear_task_channels :: "('n, 'k, 'dp) mesh \<Rightarrow> ('n, 'k, 'dp) mesh" where
  "clear_task_channels m =
    m\<lparr>me_peer_sync_tx := False, me_heartbeat_tx := False, me_self_liveness_tx := False,
      me_participation_tx := False, me_self_record_tx := False, me_task_cancel := False, me_heartbeat_started := False\<rparr>"

definition keep_first :: "'a option \<Rightarrow> ('a, unit) result \<Rightarrow> 'a option" where
  "keep_first first r = (case r of Inl e \<Rightarrow> first_some first e | Inr _ \<Rightarrow> first)"

definition stop_tasks :: "('n, 'k, 'dp, 'e, 'w) mesh_ports \<Rightarrow> ('n, 'k, 'dp, 'e, 'w, unit) mesh_op" where
  "stop_tasks po = (\<lambda>(m, w). case me_tasks m of
      None \<Rightarrow> (Inr (), (m, w))
    | Some ts \<Rightarrow> (case po_join_tasks po ts w of (joined, w') \<Rightarrow>
        (map_err Mesh_Task (task_set_stop joined), (m\<lparr>me_tasks := None\<rparr>, w'))))"

definition stop_dataplane :: "('n, 'k, 'dp, 'e, 'w) mesh_ports \<Rightarrow> ('n, 'k, 'dp, 'e, 'w, unit) mesh_op" where
  "stop_dataplane po = (\<lambda>(m, w). case me_dataplane m of
      None \<Rightarrow> (Inr (), (m, w))
    | Some dp \<Rightarrow> (case po_detach po dp w of (_, w') \<Rightarrow> (Inr (), (m\<lparr>me_dataplane := None\<rparr>, w'))))"

definition stop_runtime ::
    "('n, 'k, 'dp, 'e, 'w) mesh_ports \<Rightarrow> runtime_store_mode \<Rightarrow> ('n, 'k, 'dp, 'e, 'w, 'e mesh_error option) mesh_op" where
  "stop_runtime po store =
    bind_act (modify_mesh clear_task_channels) (\<lambda>_.
    bind_act (try_act (stop_tasks po)) (\<lambda>r1.
    let first = keep_first None r1 in
    bind_act (stop_dataplane po) (\<lambda>_.
    bind_act (modify_mesh (\<lambda>m. m\<lparr>me_wg_ifindex := 0\<rparr>)) (\<lambda>_.
    bind_act (if store = Store_Stop
      then try_act (map_err_act (\<lambda>e. case e of Mesh_Port (Port_Failed x) \<Rightarrow> Mesh_Port (Port_Operation ''store runtime stop'' x) | _ \<Rightarrow> e)
        (port_act (po_runtime_stop po)))
      else ret_act (Inr ())) (\<lambda>r2.
    let first = keep_first first r2 in
    bind_act (try_act (with_mesh (\<lambda>m. port_act (po_network_down po (me_network m))))) (\<lambda>r3.
    let first = keep_first first r3 in
    bind_act (try_act (with_mesh (\<lambda>m. case me_container_network m of
        None \<Rightarrow> ret_act () | Some cn \<Rightarrow> port_act (po_cn_remove po cn)))) (\<lambda>r4.
    ret_act (keep_first first r4))))))))"

definition teardown :: "('n, 'k, 'dp, 'e, 'w) mesh_ports \<Rightarrow> ('n, 'k, 'dp, 'e, 'w, unit) mesh_op" where
  "teardown po = bind_act (stop_runtime po Store_Stop) (\<lambda>_. ret_act ())"

section \<open>Operations\<close>

definition on_failure ::
    "('n, 'k, 'dp, 'e, 'w, unit) mesh_op \<Rightarrow> ('n, 'k, 'dp, 'e, 'w, unit) mesh_op \<Rightarrow> ('n, 'k, 'dp, 'e, 'w, unit) mesh_op" where
  "on_failure body cleanup =
    bind_act (try_act body) (\<lambda>r. case r of
      Inr _ \<Rightarrow> ret_act ()
    | Inl e \<Rightarrow> bind_act cleanup (\<lambda>_. bind_act (apply_phase_event ComponentFailed) (\<lambda>_. fail_act e)))"

definition mesh_up :: "('n, 'k, 'dp, 'e, 'w) mesh_ports \<Rightarrow> ('n, 'k, 'dp, 'e, 'w, unit) mesh_op" where
  "mesh_up po = bind_act (apply_phase_event UpRequested) (\<lambda>_. on_failure (bring_up po) (teardown po))"

definition mesh_detach :: "('n, 'k, 'dp, 'e, 'w) mesh_ports \<Rightarrow> ('n, 'k, 'dp, 'e, 'w, unit) mesh_op" where
  "mesh_detach po =
    bind_act (apply_phase_event DetachRequested) (\<lambda>_.
    bind_act (modify_mesh clear_task_channels) (\<lambda>_. stop_tasks po))"

text \<open>\<open>update_authoritative_self_record\<close>: through the writer when it runs, else in place.\<close>

definition update_authoritative_self_record ::
    "('n, 'k, 'dp, 'e, 'w) mesh_ports \<Rightarrow> (machine_record \<Rightarrow> machine_record) \<Rightarrow> ('n, 'k, 'dp, 'e, 'w, machine_record option) mesh_op" where
  "update_authoritative_self_record po update = (\<lambda>(m, w).
    case me_authoritative_self m of
      None \<Rightarrow> (Inr None, (m, w))
    | Some current \<Rightarrow>
        let next = update current in
        if me_self_record_tx m
        then (case po_replace_self po next w of
                (None, w') \<Rightarrow> (Inr None, (m, w'))
              | (Some r, w') \<Rightarrow> (Inr (Some r), (m\<lparr>me_authoritative_self := Some r\<rparr>, w')))
        else (Inr (Some next), (m\<lparr>me_authoritative_self := Some next\<rparr>, w)))"

definition mesh_destroy :: "('n, 'k, 'dp, 'e, 'w) mesh_ports \<Rightarrow> ('n, 'k, 'dp, 'e, 'w, unit) mesh_op" where
  "mesh_destroy po =
    bind_act (apply_phase_event DestroyRequested) (\<lambda>_.
    bind_act (\<lambda>(m, w). let now = po_now_unix po w in
      update_authoritative_self_record po
        (\<lambda>r. r\<lparr>mr_status := Status_Down, mr_last_heartbeat := now, mr_updated_at := now\<rparr>) (m, w)) (\<lambda>_.
    bind_act (stop_runtime po Store_Stop) (\<lambda>first_err.
    bind_act (apply_phase_event TeardownComplete) (\<lambda>_.
    case first_err of Some e \<Rightarrow> fail_act e | None \<Rightarrow> ret_act ()))))"

definition restart_runtime_for_subnet_change ::
    "('n, 'k, 'dp, 'e, 'w) mesh_ports \<Rightarrow> 'n \<Rightarrow> 'k option \<Rightarrow> ('n, 'k, 'dp, 'e, 'w, unit) mesh_op" where
  "restart_runtime_for_subnet_change po network container_network =
    bind_act (apply_phase_event DestroyRequested) (\<lambda>_.
    bind_act (stop_runtime po Store_Keep) (\<lambda>_.
    bind_act (modify_mesh (\<lambda>m. m\<lparr>me_network := network, me_container_network := container_network\<rparr>)) (\<lambda>_.
    bind_act (apply_phase_event TeardownComplete) (\<lambda>_.
    bind_act (apply_phase_event UpRequested) (\<lambda>_.
    on_failure (bring_up po) (bind_act (stop_runtime po Store_Keep) (\<lambda>_. ret_act ())))))))"

record mesh_ready_status =
  ry_ready :: bool
  ry_phase :: phase
  ry_store_healthy :: bool
  ry_sync_connected :: bool
  ry_heartbeat_started :: bool

definition ready_status ::
    "('n, 'k, 'dp, 'e, 'w) mesh_ports \<Rightarrow> ('n, 'k, 'dp) mesh \<Rightarrow> 'w \<Rightarrow> mesh_ready_status \<times> 'w" where
  "ready_status po m w =
    (case po_healthy po w of (store_healthy, w) \<Rightarrow>
     case po_list_machines po w of (listed, w) \<Rightarrow>
     let has_remote_store_peer = (case listed of Inr ms \<Rightarrow> list_ex (\<lambda>x. mr_id x \<noteq> me_machine_id m) ms | Inl _ \<Rightarrow> False);
         has_remote_seed_peer = list_ex (\<lambda>x. mr_id x \<noteq> me_machine_id m) (me_seed_records m);
         (sync_connected, w) =
           (if has_remote_store_peer \<or> has_remote_seed_peer
            then (case po_sync_status po w of
                    (Inr Disconnected, w) \<Rightarrow> (False, w) | (Inr _, w) \<Rightarrow> (True, w) | (Inl _, w) \<Rightarrow> (False, w))
            else (True, w))
     in (\<lparr> ry_ready = (me_phase m = Running \<and> store_healthy \<and> sync_connected \<and> me_heartbeat_started m),
           ry_phase = me_phase m, ry_store_healthy = store_healthy, ry_sync_connected = sync_connected,
           ry_heartbeat_started = me_heartbeat_started m \<rparr>, w))"

section \<open>Rules for actions on the mesh\<close>

text \<open>\<open>mesh_triple\<close>: a triple of \<open>Action_Logic\<close> whose conditions are on the mesh, for every world.\<close>

definition mesh_triple ::
    "(('n, 'k, 'dp) mesh \<Rightarrow> bool) \<Rightarrow> ('n, 'k, 'dp, 'e, 'w, 'a) mesh_op \<Rightarrow> (('n, 'k, 'dp) mesh \<Rightarrow> bool) \<Rightarrow>
     (('n, 'k, 'dp) mesh \<Rightarrow> bool) \<Rightarrow> bool" where
  "mesh_triple P f Q E \<longleftrightarrow> hoare (\<lambda>s. P (fst s)) f (\<lambda>_ s. Q (fst s)) (\<lambda>s. E (fst s))"

named_theorems mesh_rules \<open>introduction rules for actions on the mesh\<close>

lemma mesh_bind [mesh_rules]:
  "mesh_triple P f R E \<Longrightarrow> (\<And>a. mesh_triple R (g a) Q E) \<Longrightarrow> mesh_triple P (bind_act f g) Q E"
  unfolding mesh_triple_def by (rule hoare_bind)

lemma mesh_ret [mesh_rules]: "(\<And>m. P m \<Longrightarrow> Q m) \<Longrightarrow> mesh_triple P (ret_act a) Q E"
  unfolding mesh_triple_def by (rule hoare_ret) simp

lemma mesh_fail [mesh_rules]: "(\<And>m. P m \<Longrightarrow> E m) \<Longrightarrow> mesh_triple P (fail_act e) Q E"
  unfolding mesh_triple_def by (rule hoare_fail) simp

lemma mesh_conseq:
  "mesh_triple P' f Q' E' \<Longrightarrow> (\<And>m. P m \<Longrightarrow> P' m) \<Longrightarrow> (\<And>m. Q' m \<Longrightarrow> Q m) \<Longrightarrow> (\<And>m. E' m \<Longrightarrow> E m) \<Longrightarrow> mesh_triple P f Q E"
  unfolding mesh_triple_def by (rule hoare_conseq)

lemma mesh_port:
  "(\<And>m. P m \<Longrightarrow> Q m) \<Longrightarrow> (\<And>m. P m \<Longrightarrow> E m) \<Longrightarrow> mesh_triple P (port_act f) Q E"
  by (auto simp: mesh_triple_def hoare_def port_act_def split: prod.split sum.split)

lemma mesh_subscribe:
  "(\<And>m. P m \<Longrightarrow> Q m) \<Longrightarrow> (\<And>m. P m \<Longrightarrow> E m) \<Longrightarrow> mesh_triple P (subscribe_act po) Q E"
  by (auto simp: mesh_triple_def hoare_def subscribe_act_def split: prod.split sum.split)

lemma mesh_quiet: "(\<And>m. P m \<Longrightarrow> Q m) \<Longrightarrow> mesh_triple P (quiet_act f) Q E"
  by (auto simp: mesh_triple_def hoare_def quiet_act_def split: prod.split)

lemma mesh_modify: "(\<And>m. P m \<Longrightarrow> Q (f m)) \<Longrightarrow> mesh_triple P (modify_mesh f) Q E"
  by (auto simp: mesh_triple_def hoare_def modify_mesh_def split: prod.split)

lemma mesh_with: "(\<And>m0. P m0 \<Longrightarrow> mesh_triple (\<lambda>m. m = m0) (f m0) Q E) \<Longrightarrow> mesh_triple P (with_mesh f) Q E"
  by (auto simp: mesh_triple_def hoare_def with_mesh_def split: prod.split)

lemma mesh_map_err: "mesh_triple P f Q E \<Longrightarrow> mesh_triple P (map_err_act g f) Q E"
  unfolding mesh_triple_def by (rule hoare_map_err)

lemma mesh_try:
  assumes "mesh_triple P f Q Q"
  shows "mesh_triple P (try_act f) Q E"
  unfolding mesh_triple_def
proof (rule hoareI)
  fix s r s' assume P: "P (fst s)" and run: "try_act f s = (Inr r, s')"
  have "f s = (r, s')" using run by (simp add: try_act_def split: prod.splits)
  then show "Q (fst s')"
    using assms P unfolding mesh_triple_def by (cases r) (auto dest: hoare_Inr hoare_Inl)
qed (simp add: try_act_def split: prod.splits)

lemma mesh_apply:
  "(\<And>m p. P m \<Longrightarrow> transition (me_phase m) ev = Inr p \<Longrightarrow> Q (m\<lparr>me_phase := p\<rparr>)) \<Longrightarrow>
   (\<And>m e. P m \<Longrightarrow> transition (me_phase m) ev = Inl e \<Longrightarrow> E m) \<Longrightarrow> mesh_triple P (apply_phase_event ev) Q E"
  by (auto simp: mesh_triple_def hoare_def apply_phase_event_def split: prod.split sum.split)

lemma mesh_triple_Inr: "mesh_triple P f Q E \<Longrightarrow> P m \<Longrightarrow> f (m, w) = (Inr a, (m', w')) \<Longrightarrow> Q m'"
  unfolding mesh_triple_def using hoare_Inr[of "\<lambda>s. P (fst s)" f "\<lambda>_ s. Q (fst s)" "\<lambda>s. E (fst s)" "(m, w)"] by fastforce

lemma mesh_triple_Inl: "mesh_triple P f Q E \<Longrightarrow> P m \<Longrightarrow> f (m, w) = (Inl e, (m', w')) \<Longrightarrow> E m'"
  unfolding mesh_triple_def using hoare_Inl[of "\<lambda>s. P (fst s)" f "\<lambda>_ s. Q (fst s)" "\<lambda>s. E (fst s)" "(m, w)"] by fastforce

text \<open>An action that leaves the mesh as it is, whatever it returns.\<close>

definition keeps_mesh :: "('n, 'k, 'dp, 'e, 'w, 'a) mesh_op \<Rightarrow> bool" where
  "keeps_mesh f \<longleftrightarrow> (\<forall>s. fst (snd (f s)) = fst s)"

lemma keeps_meshI: "(\<And>s r s'. f s = (r, s') \<Longrightarrow> fst s' = fst s) \<Longrightarrow> keeps_mesh f"
  unfolding keeps_mesh_def by (metis prod.collapse)

lemma keeps_meshD: "keeps_mesh f \<Longrightarrow> f s = (r, s') \<Longrightarrow> fst s' = fst s"
  unfolding keeps_mesh_def by (metis snd_conv)

lemma keeps_mesh_triple: "keeps_mesh f \<Longrightarrow> (\<And>m. P m \<Longrightarrow> Q m) \<Longrightarrow> (\<And>m. P m \<Longrightarrow> E m) \<Longrightarrow> mesh_triple P f Q E"
proof -
  assume k: "keeps_mesh f" and q: "\<And>m. P m \<Longrightarrow> Q m" and e: "\<And>m. P m \<Longrightarrow> E m"
  show ?thesis
    unfolding mesh_triple_def
  proof (rule hoareI)
    fix s a s' assume "P (fst s)" "f s = (Inr a, s')"
    then show "Q (fst s')" using keeps_meshD[OF k] q by metis
  next
    fix s x s' assume "P (fst s)" "f s = (Inl x, s')"
    then show "E (fst s')" using keeps_meshD[OF k] e by metis
  qed
qed

lemma keeps_bind:
  assumes "keeps_mesh f" "\<And>a. keeps_mesh (g a)"
  shows "keeps_mesh (bind_act f g)"
proof (rule keeps_meshI)
  fix s r s'' assume run: "bind_act f g s = (r, s'')"
  obtain x s' where f: "f s = (x, s')" by (cases "f s")
  show "fst s'' = fst s"
  proof (cases x)
    case (Inl e)
    then show ?thesis using run f keeps_meshD[OF assms(1) f] by (simp add: bind_act_def)
  next
    case (Inr a)
    then have "g a s' = (r, s'')" using run f by (simp add: bind_act_def)
    from keeps_meshD[OF assms(2) this] show ?thesis using keeps_meshD[OF assms(1) f] by simp
  qed
qed

lemma keeps_simple [simp]: "keeps_mesh (ret_act a)" "keeps_mesh (fail_act e)" "keeps_mesh (port_act p)" "keeps_mesh (quiet_act q)"
  by (auto simp: keeps_mesh_def ret_act_def fail_act_def port_act_def quiet_act_def split: prod.split)

lemma keeps_with: "(\<And>m. keeps_mesh (f m)) \<Longrightarrow> keeps_mesh (with_mesh f)"
  by (auto simp: keeps_mesh_def with_mesh_def)

lemma keeps_try: "keeps_mesh f \<Longrightarrow> keeps_mesh (try_act f)"
  by (rule keeps_meshI) (auto simp: try_act_def split: prod.splits dest: keeps_meshD)

lemma keeps_map_err: "keeps_mesh f \<Longrightarrow> keeps_mesh (map_err_act g f)"
  by (rule keeps_meshI) (auto simp: map_err_act_def split: prod.splits dest: keeps_meshD)

lemma keeps_waits: "keeps_mesh (wait_for_handshake po)" "keeps_mesh (wait_service_ready po)" "keeps_mesh (wait_store_init po)"
  unfolding wait_for_handshake_def wait_service_ready_def wait_store_init_def
  by (auto intro!: keeps_with keeps_bind)

lemma keeps_pre_start: "keeps_mesh (pre_start_peers po)"
  unfolding pre_start_peers_def Let_def
  by (auto intro!: keeps_with keeps_bind keeps_try keeps_waits)

section \<open>What the operations leave\<close>

text \<open>No task and no channel; and nothing of the runtime at all.\<close>

definition no_tasks :: "('n, 'k, 'dp) mesh \<Rightarrow> bool" where
  "no_tasks m \<longleftrightarrow> me_tasks m = None \<and> \<not> me_task_cancel m \<and> \<not> me_peer_sync_tx m \<and> \<not> me_heartbeat_tx m \<and>
    \<not> me_self_liveness_tx m \<and> \<not> me_participation_tx m \<and> \<not> me_self_record_tx m"

definition torn_down :: "('n, 'k, 'dp) mesh \<Rightarrow> bool" where
  "torn_down m \<longleftrightarrow> no_tasks m \<and> me_dataplane m = None \<and> me_wg_ifindex m = 0"

definition syncing :: "('n, 'k, 'dp) mesh \<Rightarrow> bool" where
  "syncing m \<longleftrightarrow> me_task_cancel m \<and> me_peer_sync_tx m \<and> (\<exists>ts. me_tasks m = Some ts \<and> Task_Peer_Sync \<in> set ts)"

definition required_tasks :: "('n, 'k, 'dp) mesh \<Rightarrow> mesh_task set" where
  "required_tasks m = {Task_Peer_Sync, Task_Self_Record_Writer, Task_Endpoint_Refresh, Task_Self_Liveness,
    Task_Participation, Task_Heartbeat, Task_Subnet_Claim_Monitor} \<union> (if me_dataplane m = None then {} else {Task_Ebpf_Sync})"

definition fully_up :: "('n, 'k, 'dp) mesh \<Rightarrow> bool" where
  "fully_up m \<longleftrightarrow> me_phase m = Running \<and> (\<exists>ts. me_tasks m = Some ts \<and> required_tasks m \<subseteq> set ts) \<and> me_task_cancel m \<and>
    me_peer_sync_tx m \<and> me_heartbeat_tx m \<and> me_self_liveness_tx m \<and> me_participation_tx m \<and> me_self_record_tx m \<and>
    me_authoritative_self m \<noteq> None"

definition in_startup :: "('n, 'k, 'dp) mesh \<Rightarrow> bool" where
  "in_startup m \<longleftrightarrow> me_phase m \<in> {Starting, Provisioning, Bootstrapping, Running}"

lemma no_tasks_phase [simp]: "no_tasks (m\<lparr>me_phase := p\<rparr>) \<longleftrightarrow> no_tasks m" "torn_down (m\<lparr>me_phase := p\<rparr>) \<longleftrightarrow> torn_down m"
  "syncing (m\<lparr>me_phase := p\<rparr>) \<longleftrightarrow> syncing m"
  by (simp_all add: no_tasks_def torn_down_def syncing_def)

lemma startup_phases [simp]:
  "me_phase m = Starting \<Longrightarrow> in_startup m" "me_phase m = Provisioning \<Longrightarrow> in_startup m"
  "me_phase m = Bootstrapping \<Longrightarrow> in_startup m" "me_phase m = Running \<Longrightarrow> in_startup m"
  by (simp_all add: in_startup_def)

lemma start_container_network_triple:
  "mesh_triple (\<lambda>m. me_phase m = Provisioning \<and> no_tasks m) (start_container_network po)
    (\<lambda>m. me_phase m = Provisioning \<and> no_tasks m) in_startup"
  unfolding start_container_network_def
  apply (rule mesh_with)
  subgoal for m0
    by (cases "me_container_network m0"; cases "po_attach po")
       (auto intro!: mesh_ret mesh_port mesh_modify mesh_bind[where R = "\<lambda>m. m = m0"] simp: no_tasks_def)
  done

lemma start_peer_sync_triple:
  "mesh_triple (\<lambda>m. me_phase m = Provisioning \<and> no_tasks m) (start_peer_sync_task po)
    (\<lambda>m. me_phase m = Provisioning \<and> syncing m) in_startup"
  unfolding start_peer_sync_task_def
  by (rule mesh_with)
     (auto simp: no_tasks_def syncing_def intro!: mesh_bind[where R = "\<lambda>m. me_phase m = Provisioning"] mesh_subscribe mesh_modify)

lemma bootstrap_gate_triple:
  "mesh_triple (\<lambda>m. me_phase m = Bootstrapping \<and> syncing m) (bootstrap_gate po)
    (\<lambda>m. me_phase m = Running \<and> syncing m) in_startup"
proof -
  have sync: "mesh_triple (\<lambda>m. me_phase m = Bootstrapping \<and> syncing m) (apply_phase_event SyncComplete)
      (\<lambda>m. me_phase m = Running \<and> syncing m) in_startup"
    by (rule mesh_apply) auto
  show ?thesis
    unfolding bootstrap_gate_def
    by (rule mesh_with, rule mesh_bind[where R = "\<lambda>m. me_phase m = Bootstrapping \<and> syncing m"])
       (auto intro!: mesh_port mesh_fail mesh_quiet sync mesh_bind[where R = "\<lambda>m. me_phase m = Bootstrapping \<and> syncing m"])
qed

lemma select_authoritative_triple:
  "mesh_triple (\<lambda>m. me_phase m = Running \<and> syncing m) (select_authoritative po)
    (\<lambda>m. me_phase m = Running \<and> syncing m \<and> me_authoritative_self m \<noteq> None) in_startup"
  unfolding select_authoritative_def Let_def
  apply (rule mesh_with)
  subgoal for m0
    by (auto intro!: mesh_ret mesh_fail mesh_modify mesh_bind[where R = "\<lambda>m. m = m0"] mesh_try mesh_port
        simp: syncing_def split: option.split)
  done

lemma spawn_simps [simp]:
  "me_phase (spawn ts m) = me_phase m" "me_task_cancel (spawn ts m) = me_task_cancel m" "me_dataplane (spawn ts m) = me_dataplane m"
  "me_peer_sync_tx (spawn ts m) = me_peer_sync_tx m" "me_heartbeat_tx (spawn ts m) = me_heartbeat_tx m"
  "me_self_liveness_tx (spawn ts m) = me_self_liveness_tx m" "me_participation_tx (spawn ts m) = me_participation_tx m"
  "me_self_record_tx (spawn ts m) = me_self_record_tx m" "me_authoritative_self (spawn ts m) = me_authoritative_self m"
  "me_tasks (spawn ts m) = map_option (\<lambda>old. old @ ts) (me_tasks m)"
  by (simp_all add: spawn_def)

text \<open>The tasks spawned so far, and the channels that go with them.\<close>

fun channel_open :: "mesh_task \<Rightarrow> ('n, 'k, 'dp) mesh \<Rightarrow> bool" where
  "channel_open Task_Self_Record_Writer m = me_self_record_tx m"
| "channel_open Task_Self_Liveness m = me_self_liveness_tx m"
| "channel_open Task_Participation m = me_participation_tx m"
| "channel_open Task_Heartbeat m = me_heartbeat_tx m"
| "channel_open _ m = True"

definition spawned :: "mesh_task list \<Rightarrow> ('n, 'k, 'dp) mesh \<Rightarrow> bool" where
  "spawned ts m \<longleftrightarrow> me_phase m = Running \<and> syncing m \<and> me_authoritative_self m \<noteq> None \<and>
    set ts \<subseteq> set (case me_tasks m of Some old \<Rightarrow> old | None \<Rightarrow> []) \<and> (\<forall>t \<in> set ts. channel_open t m)"

lemma spawned_startup: "spawned ts m \<Longrightarrow> in_startup m"
  by (simp add: spawned_def)

lemma channel_open_spawn [simp]: "channel_open t (spawn ts m) \<longleftrightarrow> channel_open t m"
  by (cases t) simp_all

lemma channel_open_set:
  assumes "channel_open t m"
  shows "channel_open t (m\<lparr>me_self_record_tx := True\<rparr>)"
    and "channel_open t (m\<lparr>me_heartbeat_started := False, me_self_liveness_tx := True\<rparr>)"
    and "channel_open t (m\<lparr>me_participation_tx := True\<rparr>)" and "channel_open t (m\<lparr>me_heartbeat_tx := True\<rparr>)"
proof -
  show "channel_open t (m\<lparr>me_self_record_tx := True\<rparr>)" using assms by (cases t) simp_all
  show "channel_open t (m\<lparr>me_heartbeat_started := False, me_self_liveness_tx := True\<rparr>)" using assms by (cases t) simp_all
  show "channel_open t (m\<lparr>me_participation_tx := True\<rparr>)" using assms by (cases t) simp_all
  show "channel_open t (m\<lparr>me_heartbeat_tx := True\<rparr>)" using assms by (cases t) simp_all
qed

lemma spawned_step:
  assumes m: "spawned ts m" and same: "me_phase m' = me_phase m" "me_task_cancel m' = me_task_cancel m"
      "me_peer_sync_tx m' = me_peer_sync_tx m" "me_authoritative_self m' = me_authoritative_self m" "me_tasks m' = me_tasks m"
    and mono: "\<And>t. channel_open t m \<Longrightarrow> channel_open t m'" and new: "\<And>t. t \<in> set us \<Longrightarrow> channel_open t m'"
  shows "spawned (ts @ us) (spawn us m')"
proof -
  have "syncing m" using m by (simp add: spawned_def)
  then obtain old where "me_tasks m = Some old" by (auto simp: syncing_def)
  then show ?thesis using m same mono new by (auto simp: spawned_def syncing_def)
qed

lemma spawned_more:
  assumes "spawned ts m"
  shows "spawned (ts @ [Task_Self_Record_Writer, Task_Endpoint_Refresh]) (spawn [Task_Self_Record_Writer, Task_Endpoint_Refresh] (m\<lparr>me_self_record_tx := True\<rparr>))"
    and "spawned (ts @ [Task_Self_Liveness]) (spawn [Task_Self_Liveness] (m\<lparr>me_heartbeat_started := False, me_self_liveness_tx := True\<rparr>))"
    and "spawned (ts @ [Task_Participation]) (spawn [Task_Participation] (m\<lparr>me_participation_tx := True\<rparr>))"
    and "spawned (ts @ [Task_Heartbeat]) (spawn [Task_Heartbeat] (m\<lparr>me_heartbeat_tx := True\<rparr>))"
    and "spawned (ts @ [Task_Subnet_Claim_Monitor]) (spawn [Task_Subnet_Claim_Monitor] m)"
    and "spawned (ts @ [Task_Ebpf_Sync]) (spawn [Task_Ebpf_Sync] m)"
  by (rule spawned_step[OF assms]; auto simp: channel_open_set)+

lemma spawn_bind:
  "(\<And>m. spawned ts m \<Longrightarrow> spawned (ts @ us) (f m)) \<Longrightarrow> (\<And>a. mesh_triple (spawned (ts @ us)) (g a) Q E) \<Longrightarrow>
   mesh_triple (spawned ts) (bind_act (modify_mesh f) g) Q E"
  by (rule mesh_bind[where R = "spawned (ts @ us)"]) (auto intro!: mesh_modify)

abbreviation background_tasks :: "mesh_task list" where
  "background_tasks \<equiv> (((([] @ [Task_Self_Record_Writer, Task_Endpoint_Refresh]) @ [Task_Self_Liveness]) @ [Task_Participation]) @
    [Task_Heartbeat]) @ [Task_Subnet_Claim_Monitor]"

lemma spawned_fully_up:
  "spawned background_tasks m \<Longrightarrow> me_dataplane m = None \<Longrightarrow> fully_up m"
  "spawned (background_tasks @ [Task_Ebpf_Sync]) m \<Longrightarrow> fully_up m"
  by (auto simp: spawned_def fully_up_def required_tasks_def syncing_def)

lemma ebpf_task_triple:
  "mesh_triple (spawned background_tasks) (with_mesh (\<lambda>m. if me_dataplane m = None then ret_act ()
    else bind_act (subscribe_act po) (\<lambda>_. modify_mesh (spawn [Task_Ebpf_Sync])))) fully_up in_startup"
proof (rule mesh_with)
  fix m0 :: "('a, 'b, 'c) mesh" assume m0: "spawned background_tasks m0"
  show "mesh_triple (\<lambda>m. m = m0) (if me_dataplane m0 = None then ret_act ()
    else bind_act (subscribe_act po) (\<lambda>_. modify_mesh (spawn [Task_Ebpf_Sync]))) fully_up in_startup"
  proof (cases "me_dataplane m0")
    case None
    then show ?thesis using spawned_fully_up(1)[OF m0] by (auto intro!: mesh_ret)
  next
    case (Some dp)
    have "mesh_triple (\<lambda>m. m = m0) (bind_act (subscribe_act po) (\<lambda>_. modify_mesh (spawn [Task_Ebpf_Sync]))) fully_up in_startup"
      by (rule mesh_bind[where R = "\<lambda>m. m = m0"])
         (auto intro!: mesh_subscribe mesh_modify spawned_startup[OF m0] spawned_fully_up(2)[OF spawned_more(6)[OF m0]])
    then show ?thesis using Some by simp
  qed
qed

lemma spawn_background_tasks_triple:
  "mesh_triple (\<lambda>m. me_phase m = Running \<and> syncing m) (spawn_background_tasks po) fully_up in_startup"
  unfolding spawn_background_tasks_def
  apply (rule mesh_with)
  subgoal premises running for m0
    apply (subst if_not_P, use running in \<open>simp add: syncing_def\<close>)
    apply (rule mesh_bind[where R = "spawned []"])
     apply (rule mesh_conseq[OF select_authoritative_triple], use running in simp, simp add: spawned_def, assumption)
    apply (rule spawn_bind[OF spawned_more(1)], assumption)
    apply (rule spawn_bind[OF spawned_more(2)], assumption)
    apply (rule spawn_bind[OF spawned_more(3)], assumption)
    apply (rule spawn_bind[OF spawned_more(4)], assumption)
    apply (rule mesh_bind, rule mesh_subscribe, assumption, erule spawned_startup)
    by (rule spawn_bind[OF spawned_more(5)], assumption, rule ebpf_task_triple)
  done

lemma bring_up_triple:
  "mesh_triple (\<lambda>m. me_phase m = Starting \<and> no_tasks m) (bring_up po) fully_up in_startup"
proof -
  let ?P = "\<lambda>m. me_phase m = Provisioning \<and> no_tasks m"
  have ready: "mesh_triple (\<lambda>m. me_phase m = Starting \<and> no_tasks m) (apply_phase_event NetworkReady) ?P in_startup"
    by (rule mesh_apply) auto
  have started: "mesh_triple (\<lambda>m. me_phase m = Provisioning \<and> syncing m) (apply_phase_event ComponentsStarted)
      (\<lambda>m. me_phase m = Bootstrapping \<and> syncing m) in_startup"
    by (rule mesh_apply) auto
  have keep: "mesh_triple ?P f ?P in_startup" if "keeps_mesh f" for f :: "('n, 'k, 'dp, 'e, 'w, unit) mesh_op"
    by (rule keeps_mesh_triple[OF that]) auto
  show ?thesis
    unfolding bring_up_def
    apply (rule mesh_bind[where R = "\<lambda>m. me_phase m = Starting \<and> no_tasks m"])
     apply (rule keeps_mesh_triple, rule keeps_with, simp, simp, simp)
    apply (rule mesh_bind[OF ready])
    apply (rule mesh_bind[OF start_container_network_triple])
    apply (rule mesh_bind[OF keep[OF keeps_pre_start]])
    apply (rule mesh_bind[OF keep], rule keeps_map_err, simp)
    apply (rule mesh_bind[OF keep[OF keeps_waits(2)]])
    apply (rule mesh_bind[OF keep[OF keeps_waits(3)]])
    apply (rule mesh_bind[OF start_peer_sync_triple])
    apply (rule mesh_bind[OF started])
    by (rule mesh_bind[OF bootstrap_gate_triple spawn_background_tasks_triple])
qed

text \<open>Stopping the runtime never fails: what the parts report is collected, and every part is stopped.\<close>

lemma stop_tasks_triple:
  "mesh_triple (\<lambda>m. no_tasks (m\<lparr>me_tasks := None\<rparr>) \<and> me_phase m = p) (stop_tasks po)
    (\<lambda>m. no_tasks m \<and> me_phase m = p) (\<lambda>m. no_tasks m \<and> me_phase m = p)"
  by (auto simp: mesh_triple_def hoare_def stop_tasks_def no_tasks_def split: option.split prod.split)

lemma stop_dataplane_triple:
  "mesh_triple (\<lambda>m. no_tasks m \<and> me_phase m = p) (stop_dataplane po)
    (\<lambda>m. no_tasks m \<and> me_dataplane m = None \<and> me_phase m = p) (\<lambda>_. False)"
  by (auto simp: mesh_triple_def hoare_def stop_dataplane_def no_tasks_def split: option.split prod.split)

lemma stop_runtime_triple:
  "mesh_triple (\<lambda>m. me_phase m = p) (stop_runtime po store) (\<lambda>m. torn_down m \<and> me_phase m = p) (\<lambda>_. False)"
proof -
  let ?T = "\<lambda>m. torn_down m \<and> me_phase m = p"
  have keep: "mesh_triple ?T (try_act f) ?T (\<lambda>_. False)" if "keeps_mesh f" for f :: "('n, 'k, 'dp, 'e, 'w, unit) mesh_op"
    by (rule mesh_try, rule keeps_mesh_triple[OF that])
  show ?thesis
    unfolding stop_runtime_def Let_def
    apply (rule mesh_bind[where R = "\<lambda>m. no_tasks (m\<lparr>me_tasks := None\<rparr>) \<and> me_phase m = p"])
     apply (rule mesh_modify, simp add: no_tasks_def clear_task_channels_def)
    apply (rule mesh_bind[OF mesh_try[OF stop_tasks_triple]])
    apply (rule mesh_bind[OF stop_dataplane_triple])
    apply (rule mesh_bind[where R = ?T], rule mesh_modify, simp add: torn_down_def no_tasks_def)
    apply (rule mesh_bind[where R = ?T])
     apply (cases store; simp)
      apply (rule mesh_ret, assumption)
     apply (rule keep, rule keeps_map_err, simp)
    apply (rule mesh_bind[OF keep], rule keeps_with, simp)
    apply (rule mesh_bind[OF keep], rule keeps_with, simp split: option.split)
    by (rule mesh_ret)
qed

section \<open>Outcomes\<close>

text \<open>How an attempt to start ends: everything up, or an error with everything torn down.\<close>

definition start_outcome :: "('e mesh_error, unit) result \<Rightarrow> ('n, 'k, 'dp) mesh \<Rightarrow> bool" where
  "start_outcome r m \<longleftrightarrow> (case r of
      Inr _ \<Rightarrow> fully_up m
    | Inl e \<Rightarrow> torn_down m \<and>
        (me_phase m = Stopped \<or> me_phase m = Running \<and> e = Mesh_Transition (Invalid Running ComponentFailed)))"

lemma on_failure_outcome:
  fixes body cleanup :: "('n, 'k, 'dp, 'e, 'w, unit) mesh_op"
  assumes body: "mesh_triple P body fully_up in_startup"
    and cleanup: "\<And>p. mesh_triple (\<lambda>m. me_phase m = p) cleanup (\<lambda>m. torn_down m \<and> me_phase m = p) (\<lambda>_. False)"
    and P: "P m" and run: "on_failure body cleanup (m, w) = (r, (m', w'))"
  shows "start_outcome r m'"
proof -
  obtain rb m1 w1 where b: "body (m, w) = (rb, (m1, w1))" by (cases "body (m, w)") auto
  show ?thesis
  proof (cases rb)
    case (Inr u)
    then have "r = Inr ()" "m' = m1" using run b by (simp_all add: on_failure_def bind_act_def try_act_def ret_act_def)
    then show ?thesis using mesh_triple_Inr[OF body P] b Inr by (simp add: start_outcome_def)
  next
    case (Inl e)
    have up: "in_startup m1" using mesh_triple_Inl[OF body P] b Inl by blast
    obtain rc m2 w2 where c: "cleanup (m1, w1) = (rc, (m2, w2))" by (cases "cleanup (m1, w1)") auto
    have ok: "\<exists>u. rc = Inr u" using mesh_triple_Inl[OF cleanup refl] c by (cases rc) auto
    then have down: "torn_down m2" "me_phase m2 = me_phase m1" using mesh_triple_Inr[OF cleanup refl] c by blast+
    have "bind_act (apply_phase_event ComponentFailed) (\<lambda>_. fail_act e) (m2, w2) = (r, (m', w'))"
      using run b c ok Inl by (auto simp: on_failure_def bind_act_def try_act_def)
    then show ?thesis
      using up down by (auto simp: start_outcome_def in_startup_def apply_phase_event_def bind_act_def fail_act_def)
  qed
qed

lemma teardown_triple:
  "mesh_triple (\<lambda>m. me_phase m = p) (bind_act (stop_runtime po store) (\<lambda>_. ret_act ()))
    (\<lambda>m. torn_down m \<and> me_phase m = p) (\<lambda>_. False)"
  "mesh_triple (\<lambda>m. me_phase m = p) (teardown po) (\<lambda>m. torn_down m \<and> me_phase m = p) (\<lambda>_. False)"
  unfolding teardown_def by (rule mesh_bind[OF stop_runtime_triple], rule mesh_ret, assumption)+

lemma mesh_up_cases:
  assumes "mesh_up po (m, w) = (r, (m', w'))"
  obtains "me_phase m \<noteq> Stopped" "r = Inl (Mesh_Transition (Invalid (me_phase m) UpRequested))" "m' = m" "w' = w"
    | "me_phase m = Stopped" "on_failure (bring_up po) (teardown po) (m\<lparr>me_phase := Starting\<rparr>, w) = (r, (m', w'))"
  using assms by (cases "me_phase m") (auto simp: mesh_up_def bind_act_def apply_phase_event_def)


section \<open>Destroying, detaching, restarting\<close>

lemma mesh_triple_run: "mesh_triple P f Q Q \<Longrightarrow> P m \<Longrightarrow> f (m, w) = (r, (m', w')) \<Longrightarrow> Q m'"
  by (cases r) (auto dest: mesh_triple_Inr mesh_triple_Inl)

lemma update_authoritative_triple:
  "mesh_triple (\<lambda>m. me_phase m = p) (\<lambda>(m, w). update_authoritative_self_record po (f w) (m, w)) (\<lambda>m. me_phase m = p) (\<lambda>_. False)"
  by (auto simp: mesh_triple_def hoare_def update_authoritative_self_record_def Let_def split: option.splits prod.splits if_splits)

lemma mesh_destroy_triple:
  "mesh_triple (\<lambda>m. me_phase m \<noteq> Stopping) (mesh_destroy po) (\<lambda>m. me_phase m = Stopped \<and> torn_down m)
    (\<lambda>m. me_phase m = Stopped \<and> torn_down m)"
proof -
  let ?D = "\<lambda>m. me_phase m = Stopped \<and> torn_down m"
  have start: "mesh_triple (\<lambda>m. me_phase m \<noteq> Stopping) (apply_phase_event DestroyRequested) (\<lambda>m. me_phase m = Stopping) ?D"
    by (rule mesh_apply; case_tac "me_phase m"; simp)
  have stop: "mesh_triple (\<lambda>m. me_phase m = Stopping) (stop_runtime po Store_Stop) (\<lambda>m. torn_down m \<and> me_phase m = Stopping) ?D"
    by (rule mesh_conseq[OF stop_runtime_triple]) auto
  have finish: "mesh_triple (\<lambda>m. torn_down m \<and> me_phase m = Stopping) (apply_phase_event TeardownComplete) ?D ?D"
    by (rule mesh_apply) auto
  show ?thesis
    unfolding mesh_destroy_def Let_def
    apply (rule mesh_bind[OF start])
    apply (rule mesh_bind[OF mesh_conseq[OF update_authoritative_triple]], assumption, assumption, simp)
    apply (rule mesh_bind[OF stop])
    apply (rule mesh_bind[OF finish])
    subgoal for _ _ first by (cases first) (auto intro: mesh_ret mesh_fail)
    done
qed

text \<open>
  C27. Destroying a mesh that is not already being torn down always ends stopped with every task, channel and the data
  plane gone, whatever the tasks, the store runtime, the network and the container network answer; the first error
  is returned only after that. A mesh that is being torn down rejects the request unchanged.
\<close>

theorem mesh_destroy_outcome:
  fixes po :: "('n, 'k, 'dp, 'e, 'w) mesh_ports"
  assumes run: "mesh_destroy po (m, w) = (r, (m', w'))"
  shows "(if me_phase m = Stopping then r = Inl (Mesh_Transition (Invalid Stopping DestroyRequested)) \<and> m' = m \<and> w' = w
    else me_phase m' = Stopped \<and> torn_down m')"
proof (cases "me_phase m = Stopping")
  case True
  then show ?thesis using run by (simp add: mesh_destroy_def bind_act_def apply_phase_event_def)
next
  case False
  from mesh_triple_run[OF mesh_destroy_triple this run] False show ?thesis by simp
qed

section \<open>The life of a mesh\<close>

text \<open>
  A step is one operation with any outcome of the ports, or something the running tasks and the world do: the
  heartbeat flag and the authoritative self record are shared with the tasks.
\<close>

inductive mesh_step :: "('n, 'k, 'dp, 'e, 'w) mesh_ports \<Rightarrow> ('n, 'k, 'dp) mesh \<times> 'w \<Rightarrow> ('n, 'k, 'dp) mesh \<times> 'w \<Rightarrow> bool"
  for po where
  step_up: "mesh_up po s = (r, s') \<Longrightarrow> mesh_step po s s'"
| step_detach: "mesh_detach po s = (r, s') \<Longrightarrow> mesh_step po s s'"
| step_destroy: "mesh_destroy po s = (r, s') \<Longrightarrow> mesh_step po s s'"
| step_restart: "restart_runtime_for_subnet_change po n cn s = (r, s') \<Longrightarrow> mesh_step po s s'"
| step_tasks: "mesh_step po (m, w) (m\<lparr>me_heartbeat_started := b, me_authoritative_self := map_option f (me_authoritative_self m)\<rparr>, w')"

inductive mesh_reachable :: "('n, 'k, 'dp, 'e, 'w) mesh_ports \<Rightarrow> ('n, 'k, 'dp) mesh \<times> 'w \<Rightarrow> bool" for po where
  reach_new: "mesh_reachable po
    (with_disconnected_bootstrap_allowed allow (with_seed_records seeds (with_bootstrap_timing i t (mesh_new n cn me))), w)"
| reach_step: "mesh_reachable po s \<Longrightarrow> mesh_step po s s' \<Longrightarrow> mesh_reachable po s'"

definition mesh_inv :: "('n, 'k, 'dp) mesh \<Rightarrow> bool" where
  "mesh_inv m \<longleftrightarrow> me_phase m = Stopped \<and> no_tasks m \<or> me_phase m = Running \<and> (fully_up m \<or> torn_down m)"

lemma start_outcome_inv: "start_outcome r m \<Longrightarrow> mesh_inv m"
  by (auto simp: start_outcome_def mesh_inv_def torn_down_def fully_up_def split: sum.splits)

lemma on_failure_inv:
  assumes "mesh_triple P body fully_up in_startup"
    and "\<And>p. mesh_triple (\<lambda>m. me_phase m = p) cleanup (\<lambda>m. torn_down m \<and> me_phase m = p) (\<lambda>_. False)"
  shows "mesh_triple P (on_failure body cleanup) mesh_inv mesh_inv"
  unfolding mesh_triple_def
proof (rule hoareI)
  fix s r s' assume P: "P (fst s)" and run: "on_failure body cleanup s = (Inr r, s')"
  show "mesh_inv (fst s')"
    by (rule start_outcome_inv, rule on_failure_outcome[OF assms, of "fst s" "snd s" "Inr r" _ "snd s'"]) (simp_all add: P run)
next
  fix s r s' assume P: "P (fst s)" and run: "on_failure body cleanup s = (Inl r, s')"
  show "mesh_inv (fst s')"
    by (rule start_outcome_inv, rule on_failure_outcome[OF assms, of "fst s" "snd s" "Inl r" _ "snd s'"]) (simp_all add: P run)
qed

lemma mesh_detach_triple: "mesh_triple mesh_inv (mesh_detach po) mesh_inv mesh_inv"
proof -
  have stop: "mesh_triple (\<lambda>m. no_tasks (m\<lparr>me_tasks := None\<rparr>) \<and> me_phase m = Stopped) (stop_tasks po) mesh_inv mesh_inv"
    by (rule mesh_conseq[OF stop_tasks_triple]) (auto simp: mesh_inv_def)
  show ?thesis
    unfolding mesh_detach_def
    apply (rule mesh_bind[where R = "\<lambda>m. me_phase m = Stopped"])
     apply (rule mesh_apply; auto simp: mesh_inv_def)
    apply (rule mesh_bind[OF _ stop])
    by (rule mesh_modify) (simp add: clear_task_channels_def no_tasks_def)
qed

lemma restart_triple:
  "mesh_triple mesh_inv (restart_runtime_for_subnet_change po n cn) mesh_inv mesh_inv"
proof -
  have start: "mesh_triple mesh_inv (apply_phase_event DestroyRequested) (\<lambda>m. me_phase m = Stopping) mesh_inv"
    by (rule mesh_apply) (auto simp: mesh_inv_def)
  have stop: "mesh_triple (\<lambda>m. me_phase m = Stopping) (stop_runtime po Store_Keep) (\<lambda>m. torn_down m \<and> me_phase m = Stopping) mesh_inv"
    by (rule mesh_conseq[OF stop_runtime_triple]) auto
  show ?thesis
    unfolding restart_runtime_for_subnet_change_def
    apply (rule mesh_bind[OF start])
    apply (rule mesh_bind[OF stop])
    apply (rule mesh_bind[where R = "\<lambda>m. no_tasks m \<and> me_phase m = Stopping"], rule mesh_modify)
     apply (simp add: torn_down_def no_tasks_def)
    apply (rule mesh_bind[where R = "\<lambda>m. no_tasks m \<and> me_phase m = Stopped"], rule mesh_apply, simp, simp)
    apply (rule mesh_bind[where R = "\<lambda>m. me_phase m = Starting \<and> no_tasks m"], rule mesh_apply, simp, simp)
    by (rule on_failure_inv[OF bring_up_triple teardown_triple(1)])
qed

lemma mesh_up_triple: "mesh_triple mesh_inv (mesh_up po) mesh_inv mesh_inv"
  unfolding mesh_up_def
  apply (rule mesh_bind[where R = "\<lambda>m. me_phase m = Starting \<and> no_tasks m"])
   apply (rule mesh_apply; auto simp: mesh_inv_def)
  by (rule on_failure_inv[OF bring_up_triple teardown_triple(2)])

lemma mesh_step_inv:
  assumes "mesh_step po s s'" "mesh_inv (fst s)"
  shows "mesh_inv (fst s')"
  using assms
proof (cases rule: mesh_step.cases)
  case (step_destroy r)
  have "me_phase (fst s) \<noteq> Stopping" using assms(2) by (auto simp: mesh_inv_def)
  then have "me_phase (fst s') = Stopped \<and> torn_down (fst s')"
    using mesh_triple_run[OF mesh_destroy_triple, of "fst s" po "snd s" r "fst s'" "snd s'"] step_destroy by simp
  then show ?thesis by (simp add: mesh_inv_def torn_down_def)
next
  case (step_tasks m w b f w')
  then show ?thesis
    using assms(2) by (auto simp: mesh_inv_def fully_up_def torn_down_def no_tasks_def required_tasks_def)
qed (use assms(2) mesh_triple_run[OF mesh_up_triple, of "fst s" po "snd s" _ "fst s'" "snd s'"]
      mesh_triple_run[OF mesh_detach_triple, of "fst s" po "snd s" _ "fst s'" "snd s'"]
      mesh_triple_run[OF restart_triple, of "fst s" po _ _ "snd s" _ "fst s'" "snd s'"] in simp)+

text \<open>
  C4. However a mesh is brought up, detached, destroyed and restarted on another subnet, in any order and with any
  failure of the network, the store, the runtime and the tasks, between two operations it is in one of two phases:
  stopped, with no task and no channel left, or running, and then either every task of the mesh runs with its
  channel and the self record is known, or everything is torn down (the failure after the bootstrap gate).
\<close>

theorem mesh_lifecycle:
  assumes "mesh_reachable po s"
  shows "mesh_inv (fst s)"
  using assms
proof (induction rule: mesh_reachable.induct)
  case (reach_new allow seeds i t n cn me w)
  then show ?case
    by (simp add: mesh_inv_def no_tasks_def mesh_new_def with_bootstrap_timing_def with_seed_records_def
        with_disconnected_bootstrap_allowed_def)
qed (rule mesh_step_inv)

section \<open>Witnesses\<close>

text \<open>Ports whose world counts the subscriptions, the one of index \<open>k\<close> failing.\<close>

definition lone_record :: machine_record where
  "lone_record = machine_record_seed (MachineId ''m'') (PublicKey []) (OverlayIp []) None []"

definition counting_ports :: "nat \<Rightarrow> (unit, unit, unit, string, nat) mesh_ports" where
  "counting_ports k = \<lparr> po_network_up = \<lambda>_ w. (Inr (), w), po_network_down = \<lambda>_ w. (Inr (), w), po_set_peers = \<lambda>_ _ w. (Inr (), w),
    po_has_handshake = \<lambda>_ w. (True, w), po_docker_mode = \<lambda>_. False, po_runs_probe_listener = \<lambda>_. True,
    po_cn_ensure = \<lambda>_ w. (Inr (), w), po_cn_connect = \<lambda>_ _ _ w. (Inr (), w), po_cn_remove = \<lambda>_ w. (Inr (), w),
    po_cn_v4 = \<lambda>_. 0, po_attach = None, po_detach = \<lambda>_ w. (Inr (), w), po_runtime_start = \<lambda>w. (Inr (), w),
    po_runtime_stop = \<lambda>w. (Inr (), w), po_healthy = \<lambda>w. (True, w), po_store_init = \<lambda>w. (Inr (), w),
    po_list_machines = \<lambda>w. (Inr [lone_record], w),
    po_subscribe_machines = \<lambda>w. (if w = k then Inl ''subscribe failed'' else Inr (), Suc w),
    po_sync_status = \<lambda>w. (Inr Disconnected, w), po_join_tasks = \<lambda>ts w. (map (\<lambda>_. Inr ()) ts, w),
    po_replace_self = \<lambda>r w. (Some r, w), po_now_unix = \<lambda>_. 7, po_clock = \<lambda>_. 0, po_sleep = \<lambda>_ w. w \<rparr>"

definition lone_mesh :: "(unit, unit, unit) mesh" where
  "lone_mesh = mesh_new () None (MachineId ''m'')"

lemma poll_now: "check w = (True, w) \<Longrightarrow> poll_loop clock sleep check limit max_interval 0 interval w = (True, w)"
  by (simp add: poll_loop.simps)

lemmas mesh_eval = counting_ports_def lone_mesh_def lone_record_def machine_record_seed_def mesh_new_def mesh_up_def on_failure_def
  bring_up_def bind_act_def apply_phase_event_def with_mesh_def port_act_def start_container_network_def pre_start_peers_def try_act_def
  map_err_act_def wait_service_ready_def wait_store_init_def quiet_act_def poll_until_def poll_now ok_of_def ret_act_def fail_act_def
  start_peer_sync_task_def subscribe_act_def modify_mesh_def bootstrap_gate_def spawn_background_tasks_def select_authoritative_def
  spawn_def teardown_def stop_runtime_def clear_task_channels_def stop_tasks_def stop_dataplane_def task_set_stop_def keep_first_def

lemma lone_up: "fst (mesh_up (counting_ports 9) (lone_mesh, 0)) = Inr ()"
  by (simp add: mesh_eval)

text \<open>
  The subscription of the subnet claim monitor fails after the bootstrap gate: the error of the caller is the
  rejected transition, and the mesh says running with nothing running.
\<close>

lemma up_failure_after_running:
  "fst (mesh_up (counting_ports 1) (lone_mesh, 0)) = Inl (Mesh_Transition (Invalid Running ComponentFailed))"
  "me_phase (fst (snd (mesh_up (counting_ports 1) (lone_mesh, 0)))) = Running"
  by (simp_all add: mesh_eval)


theorem mesh_destroy_outcome_witness:
  "me_phase (fst (snd (mesh_destroy (counting_ports 9) (snd (mesh_up (counting_ports 9) (lone_mesh, 0)))))) = Stopped"
proof -
  define m where "m = fst (snd (mesh_up (counting_ports 9) (lone_mesh, 0)))"
  define w where "w = snd (snd (mesh_up (counting_ports 9) (lone_mesh, 0)))"
  have s: "snd (mesh_up (counting_ports 9) (lone_mesh, 0)) = (m, w)" by (simp add: m_def w_def)
  have "me_phase m \<noteq> Stopping" unfolding m_def by (simp add: mesh_eval)
  then show ?thesis
    unfolding s using mesh_destroy_outcome[of "counting_ports 9" m w "fst (mesh_destroy (counting_ports 9) (m, w))"
        "fst (snd (mesh_destroy (counting_ports 9) (m, w)))" "snd (snd (mesh_destroy (counting_ports 9) (m, w)))"] by simp
qed

theorem mesh_lifecycle_witness:
  "me_phase (fst (snd (mesh_up (counting_ports 9) (lone_mesh, 0)))) = Running \<and>
   mesh_inv (fst (snd (mesh_up (counting_ports 9) (lone_mesh, 0))))"
proof
  have new: "lone_mesh = with_disconnected_bootstrap_allowed False (with_seed_records [] (with_bootstrap_timing 500 30000
      (mesh_new () None (MachineId ''m''))))"
    by (simp add: lone_mesh_def mesh_new_def with_bootstrap_timing_def with_seed_records_def with_disconnected_bootstrap_allowed_def)
  have "mesh_reachable (counting_ports 9) (lone_mesh, 0)" unfolding new by (rule mesh_reachable.reach_new)
  then have "mesh_reachable (counting_ports 9) (snd (mesh_up (counting_ports 9) (lone_mesh, 0)))"
    by (rule mesh_reachable.reach_step) (rule mesh_step.step_up, rule prod.collapse[symmetric])
  then show "mesh_inv (fst (snd (mesh_up (counting_ports 9) (lone_mesh, 0))))" by (rule mesh_lifecycle)
qed (simp add: mesh_eval)

end
