(* ===== verification/Ebpf_Dataplane.thy ===== *)
theory Ebpf_Dataplane
  imports Mesh_Tasks Ipam
begin

text \<open>
  The data plane of a machine: the traffic classifiers in the kernel (\<open>ebpf/src/main.rs\<close> and the types of
  \<open>crates/ebpf-common/src/lib.rs\<close>), the tool that loads them and edits their maps
  (\<open>crates/ployz-bpfctl/src/linux.rs\<close>) and the daemon's two ways to reach the maps
  (\<open>crates/ployz-runtime-backends/src/mesh/dataplane.rs\<close>: directly, or through the tool in a container).

  The classifiers are built for \<open>bpfel\<close>, a little-endian machine: \<open>to_be\<close> and \<open>from_be\<close> reverse the
  bytes. A packet is the record \<open>skb\<close> of what \<open>TcContext\<close> gives the program; the header types of the crate
  \<open>network_types\<close> are the record \<open>header_ops\<close> and their documented layout the locale \<open>header_layout\<close>. The maps of
  one loaded program are \<open>bpf_maps\<close>; the host keeps the programs that were loaded, which of them is attached to
  which bridge and which of their maps are pinned.
\<close>

unbundle bit_operations_syntax

section \<open>Bytes\<close>

definition be32 :: "8 word \<Rightarrow> 8 word \<Rightarrow> 8 word \<Rightarrow> 8 word \<Rightarrow> 32 word" where
  "be32 a b c d = push_bit 24 (ucast a) OR push_bit 16 (ucast b) OR push_bit 8 (ucast c) OR ucast d"

definition byte32 :: "nat \<Rightarrow> 32 word \<Rightarrow> 8 word" where
  "byte32 i w = ucast (drop_bit (8 * i) w)"

definition swap32 :: "32 word \<Rightarrow> 32 word" where
  "swap32 w = be32 (byte32 0 w) (byte32 1 w) (byte32 2 w) (byte32 3 w)"

definition be16 :: "8 word \<Rightarrow> 8 word \<Rightarrow> 16 word" where
  "be16 a b = push_bit 8 (ucast a) OR ucast b"

definition to_ne_bytes :: "32 word \<Rightarrow> 8 word list" where
  "to_ne_bytes w = [byte32 0 w, byte32 1 w, byte32 2 w, byte32 3 w]"

section \<open>The types shared with the kernel\<close>

record route_key =
  rk_network :: "32 word"
  rk_prefix_len :: "32 word"

record route_entry =
  re_ifindex :: "32 word"

record packet_event =
  ev_ts_ns :: "64 word"
  ev_src_addr :: "8 word list"
  ev_dst_addr :: "8 word list"
  ev_src_port :: "16 word"
  ev_dst_port :: "16 word"
  ev_pkt_len :: "32 word"
  ev_proto :: "8 word"
  ev_direction :: "8 word"

section \<open>Packets and headers\<close>

text \<open>\<open>sk_load off n\<close>: the \<open>n\<close> bytes at \<open>off\<close>, or \<open>None\<close> when the packet is shorter.\<close>

record skb =
  sk_load :: "nat \<Rightarrow> nat \<Rightarrow> 8 word list option"
  sk_len :: "32 word"

datatype ether_type = Ether_Ipv4 | Ether_Ipv6 | Ether_Other

record ipv4_hdr =
  ih_proto :: "8 word"
  ih_src_addr :: "32 word"
  ih_dst_addr :: "32 word"

record header_ops =
  ho_eth_len :: nat
  ho_ether_type :: "8 word list \<Rightarrow> ether_type"
  ho_ipv4_size :: nat
  ho_ipv4 :: "8 word list \<Rightarrow> ipv4_hdr"

definition header_std :: header_ops where
  "header_std =
    \<lparr> ho_eth_len = 14,
      ho_ether_type = (\<lambda>bs. if bs ! 12 = 0x08 \<and> bs ! 13 = 0x00 then Ether_Ipv4
        else if bs ! 12 = 0x86 \<and> bs ! 13 = 0xdd then Ether_Ipv6 else Ether_Other),
      ho_ipv4_size = 20,
      ho_ipv4 = (\<lambda>bs. \<lparr> ih_proto = bs ! 9, ih_src_addr = be32 (bs ! 15) (bs ! 14) (bs ! 13) (bs ! 12),
        ih_dst_addr = be32 (bs ! 19) (bs ! 18) (bs ! 17) (bs ! 16) \<rparr>) \<rparr>"

definition skb_of :: "8 word list \<Rightarrow> skb" where
  "skb_of bs = \<lparr> sk_load = (\<lambda>off n. if off + n \<le> length bs then Some (take n (drop off bs)) else None),
    sk_len = word_of_nat (length bs) \<rparr>"

section \<open>The classifiers\<close>

definition max_routes :: nat where
  "max_routes = 256"

record bpf_maps =
  bm_routes :: "(route_key, route_entry) hash_map"
  bm_wg_ifindex :: "32 word"
  bm_observe :: "32 word"

definition bpf_load :: bpf_maps where
  "bpf_load = \<lparr> bm_routes = [], bm_wg_ifindex = 0, bm_observe = 0 \<rparr>"

fun try_prefixes :: "(route_key, route_entry) hash_map \<Rightarrow> 32 word \<Rightarrow> nat list \<Rightarrow> 32 word option" where
  "try_prefixes routes dest_ip [] = None"
| "try_prefixes routes dest_ip (prefix_len # rest) =
    (let mask = push_bit (32 - prefix_len) (NOT 0);
         network = swap32 (dest_ip AND mask)
     in case hm_get routes \<lparr> rk_network = network, rk_prefix_len = word_of_nat prefix_len \<rparr> of
          Some entry \<Rightarrow> Some (re_ifindex entry)
        | None \<Rightarrow> try_prefixes routes dest_ip rest)"

definition try_classify_ipv4 :: "header_ops \<Rightarrow> bpf_maps \<Rightarrow> skb \<Rightarrow> 32 word option" where
  "try_classify_ipv4 ho m ctx =
    Option.bind (sk_load ctx (ho_eth_len ho) (ho_ipv4_size ho)) (\<lambda>bs.
    let dest_ip = swap32 (ih_dst_addr (ho_ipv4 ho bs)) in try_prefixes (bm_routes m) dest_ip [32, 24, 16, 8])"

definition try_classify_ipv6 :: "header_ops \<Rightarrow> bpf_maps \<Rightarrow> skb \<Rightarrow> 32 word option" where
  "try_classify_ipv6 ho m ctx =
    Option.bind (sk_load ctx (ho_eth_len ho + 24) 1) (\<lambda>bs.
    if hd bs = 0xfd then Some (bm_wg_ifindex m) else None)"

definition try_classify :: "header_ops \<Rightarrow> bpf_maps \<Rightarrow> skb \<Rightarrow> 32 word option" where
  "try_classify ho m ctx =
    Option.bind (sk_load ctx 0 (ho_eth_len ho)) (\<lambda>bs.
    case ho_ether_type ho bs of
      Ether_Ipv4 \<Rightarrow> try_classify_ipv4 ho m ctx
    | Ether_Ipv6 \<Rightarrow> try_classify_ipv6 ho m ctx
    | Ether_Other \<Rightarrow> None)"

definition extract_ports :: "skb \<Rightarrow> nat \<Rightarrow> 8 word \<Rightarrow> 16 word \<times> 16 word" where
  "extract_ports ctx transport_offset proto =
    (if proto \<noteq> 6 \<and> proto \<noteq> 17 then (0, 0)
     else case sk_load ctx transport_offset 2 of
       None \<Rightarrow> (0, 0)
     | Some s \<Rightarrow> (case sk_load ctx (transport_offset + 2) 2 of
         None \<Rightarrow> (0, 0)
       | Some d \<Rightarrow> (be16 (s ! 0) (s ! 1), be16 (d ! 0) (d ! 1))))"

definition v4_mapped :: "8 word list \<Rightarrow> 8 word list" where
  "v4_mapped raw = replicate 10 0 @ [0xff, 0xff] @ raw"

definition build_ipv4_event :: "header_ops \<Rightarrow> 64 word \<Rightarrow> skb \<Rightarrow> 8 word \<Rightarrow> packet_event option" where
  "build_ipv4_event ho now ctx direction =
    Option.bind (sk_load ctx (ho_eth_len ho) (ho_ipv4_size ho)) (\<lambda>bs.
    let iphdr = ho_ipv4 ho bs; proto = ih_proto iphdr;
        (src_port, dst_port) = extract_ports ctx (ho_eth_len ho + 20) proto
    in Some \<lparr> ev_ts_ns = now, ev_src_addr = v4_mapped (to_ne_bytes (ih_src_addr iphdr)),
      ev_dst_addr = v4_mapped (to_ne_bytes (ih_dst_addr iphdr)), ev_src_port = src_port, ev_dst_port = dst_port,
      ev_pkt_len = sk_len ctx, ev_proto = proto, ev_direction = direction \<rparr>)"

definition build_ipv6_event :: "header_ops \<Rightarrow> 64 word \<Rightarrow> skb \<Rightarrow> 8 word \<Rightarrow> packet_event option" where
  "build_ipv6_event ho now ctx direction =
    Option.bind (sk_load ctx (ho_eth_len ho) 40) (\<lambda>bs.
    let proto = bs ! 6; (src_port, dst_port) = extract_ports ctx (ho_eth_len ho + 40) proto
    in Some \<lparr> ev_ts_ns = now, ev_src_addr = take 16 (drop 8 bs), ev_dst_addr = take 16 (drop 24 bs),
      ev_src_port = src_port, ev_dst_port = dst_port, ev_pkt_len = sk_len ctx, ev_proto = proto, ev_direction = direction \<rparr>)"

text \<open>The event a packet puts on the perf buffer, if any.\<close>

definition try_emit :: "header_ops \<Rightarrow> bpf_maps \<Rightarrow> 64 word \<Rightarrow> skb \<Rightarrow> 8 word \<Rightarrow> packet_event option" where
  "try_emit ho m now ctx direction =
    (if bm_observe m \<noteq> 1 then None
     else Option.bind (sk_load ctx 0 (ho_eth_len ho)) (\<lambda>bs.
       case ho_ether_type ho bs of
         Ether_Ipv4 \<Rightarrow> build_ipv4_event ho now ctx direction
       | Ether_Ipv6 \<Rightarrow> build_ipv6_event ho now ctx direction
       | Ether_Other \<Rightarrow> None))"

datatype tc_verdict = TC_Act_Ok | TC_Redirect "32 word"

definition ployz_egress :: "header_ops \<Rightarrow> bpf_maps \<Rightarrow> 64 word \<Rightarrow> skb \<Rightarrow> tc_verdict \<times> packet_event option" where
  "ployz_egress ho m now ctx =
    (let target = try_classify ho m ctx; event = try_emit ho m now ctx 0
     in (case target of Some ifindex \<Rightarrow> TC_Redirect ifindex | None \<Rightarrow> TC_Act_Ok, event))"

definition ployz_ingress :: "header_ops \<Rightarrow> bpf_maps \<Rightarrow> 64 word \<Rightarrow> skb \<Rightarrow> tc_verdict \<times> packet_event option" where
  "ployz_ingress ho m now ctx = (TC_Act_Ok, try_emit ho m now ctx 1)"

section \<open>The maps from user space\<close>

definition subnet_to_key :: "ipnet_ops \<Rightarrow> ipv4_net \<Rightarrow> route_key" where
  "subnet_to_key net subnet =
    \<lparr> rk_network = swap32 (net_network net subnet), rk_prefix_len = (case subnet of Ipv4Net _ p \<Rightarrow> word_of_nat p) \<rparr>"

text \<open>Inserting into a hash map of the kernel fails when the key is new and the map is full.\<close>

definition routes_insert :: "route_key \<Rightarrow> route_entry \<Rightarrow> (bpf_maps, string, unit) action" where
  "routes_insert key entry m =
    (if hm_contains (bm_routes m) key \<or> length (bm_routes m) < max_routes
     then (Inr (), m\<lparr>bm_routes := hm_insert key entry (bm_routes m)\<rparr>)
     else (Inl ''map full'', m))"

definition routes_remove :: "route_key \<Rightarrow> bpf_maps \<Rightarrow> bpf_maps" where
  "routes_remove key m = m\<lparr>bm_routes := hm_remove key (bm_routes m)\<rparr>"

datatype observe_mode = Observe_Disabled | Observe_Enabled

definition native_upsert_route :: "ipnet_ops \<Rightarrow> ipv4_net \<Rightarrow> 32 word \<Rightarrow> (bpf_maps, string, unit) action" where
  "native_upsert_route net subnet ifindex = routes_insert (subnet_to_key net subnet) \<lparr> re_ifindex = ifindex \<rparr>"

definition native_remove_route :: "ipnet_ops \<Rightarrow> ipv4_net \<Rightarrow> (bpf_maps, string, unit) action" where
  "native_remove_route net subnet m = (Inr (), routes_remove (subnet_to_key net subnet) m)"

definition native_set_observe :: "observe_mode \<Rightarrow> (bpf_maps, string, unit) action" where
  "native_set_observe mode m =
    (let value = (case mode of Observe_Disabled \<Rightarrow> 0 | Observe_Enabled \<Rightarrow> 1) in (Inr (), m\<lparr>bm_observe := value\<rparr>))"

section \<open>The tool\<close>

text \<open>
  The programs a host has loaded, by number; which is attached to which bridge, and which one's maps and programs are
  pinned. The tables of interfaces, the parser of subnets and whether the kernel takes a program are the environment.
\<close>

record bpf_host =
  bh_loaded :: "bpf_maps list"
  bh_egress :: "(string \<times> nat) list"
  bh_ingress :: "(string \<times> nat) list"
  bh_pin_routes :: "nat option"
  bh_pin_observe :: "nat option"
  bh_pin_egress :: "nat option"
  bh_pin_ingress :: "nat option"

record ctl_env =
  ce_net :: ipnet_ops
  ce_parse_net :: "string \<Rightarrow> ipv4_net option"
  ce_net_str :: "ipv4_net \<Rightarrow> string"
  ce_ifindex :: "string \<Rightarrow> nat"
  ce_takes_program :: "string \<Rightarrow> string \<Rightarrow> bool"

definition resolve_ifindex :: "ctl_env \<Rightarrow> string \<Rightarrow> (string, 32 word) result" where
  "resolve_ifindex env ifname =
    (if ce_ifindex env ifname = 0 then Inl (''interface '' @ ifname @ '' not found'')
     else Inr (word_of_nat (ce_ifindex env ifname)))"

definition update_loaded :: "nat \<Rightarrow> (bpf_maps \<Rightarrow> bpf_maps) \<Rightarrow> bpf_host \<Rightarrow> bpf_host" where
  "update_loaded i f h = h\<lparr>bh_loaded := (bh_loaded h)[i := f (bh_loaded h ! i)]\<rparr>"

definition attach_tc_classifier :: "ctl_env \<Rightarrow> nat \<Rightarrow> string \<Rightarrow> string \<Rightarrow> (bpf_host, string, unit) action" where
  "attach_tc_classifier env i program bridge h =
    (if \<not> ce_takes_program env program bridge then (Inl (''attach '' @ program), h)
     else if program = ''ployz_egress'' then (Inr (), h\<lparr>bh_egress := bh_egress h @ [(bridge, i)]\<rparr>)
     else (Inr (), h\<lparr>bh_ingress := bh_ingress h @ [(bridge, i)]\<rparr>))"

definition pin_routes :: "nat \<Rightarrow> (bpf_host, string, unit) action" where
  "pin_routes i h = (case bh_pin_routes h of Some _ \<Rightarrow> (Inl ''pin routes'', h) | None \<Rightarrow> (Inr (), h\<lparr>bh_pin_routes := Some i\<rparr>))"

definition pin_observe :: "nat \<Rightarrow> (bpf_host, string, unit) action" where
  "pin_observe i h =
    (case bh_pin_observe h of Some _ \<Rightarrow> (Inl ''pin observe_flag'', h) | None \<Rightarrow> (Inr (), h\<lparr>bh_pin_observe := Some i\<rparr>))"

definition pin_programs :: "nat \<Rightarrow> (bpf_host, string, unit) action" where
  "pin_programs i h =
    (let h = (case bh_pin_egress h of Some _ \<Rightarrow> h | None \<Rightarrow> h\<lparr>bh_pin_egress := Some i\<rparr>);
         h = (case bh_pin_ingress h of Some _ \<Rightarrow> h | None \<Rightarrow> h\<lparr>bh_pin_ingress := Some i\<rparr>)
     in (Inr (), h))"

definition cmd_attach :: "ctl_env \<Rightarrow> string list \<Rightarrow> (bpf_host, string, unit) action" where
  "cmd_attach env args h = (case args of
      bridge # wg_ifname # _ \<Rightarrow>
        (case resolve_ifindex env wg_ifname of
           Inl e \<Rightarrow> (Inl e, h)
         | Inr wg_ifindex \<Rightarrow>
             let i = length (bh_loaded h) in
             bind_act (\<lambda>h. (Inr (), h\<lparr>bh_loaded := bh_loaded h @ [bpf_load]\<rparr>)) (\<lambda>_.
             bind_act (attach_tc_classifier env i ''ployz_egress'' bridge) (\<lambda>_.
             bind_act (attach_tc_classifier env i ''ployz_ingress'' bridge) (\<lambda>_.
             bind_act (\<lambda>h. (Inr (), update_loaded i (\<lambda>m. m\<lparr>bm_wg_ifindex := wg_ifindex\<rparr>) h)) (\<lambda>_.
             bind_act (pin_routes i) (\<lambda>_.
             bind_act (pin_observe i) (\<lambda>_. pin_programs i)))))) h)
    | _ \<Rightarrow> (Inl ''usage: attach <bridge-ifname> <wg-ifname>'', h))"

definition cmd_detach :: "string list \<Rightarrow> (bpf_host, string, unit) action" where
  "cmd_detach args h = (case args of
      bridge # _ \<Rightarrow>
        (Inr (), h\<lparr>bh_egress := filter (\<lambda>(b, _). b \<noteq> bridge) (bh_egress h),
          bh_ingress := filter (\<lambda>(b, _). b \<noteq> bridge) (bh_ingress h), bh_pin_routes := None, bh_pin_observe := None,
          bh_pin_egress := None, bh_pin_ingress := None\<rparr>)
    | [] \<Rightarrow> (Inl ''usage: detach <bridge-ifname>'', h))"

definition on_routes :: "(bpf_maps, string, unit) action \<Rightarrow> (bpf_host, string, unit) action" where
  "on_routes f h = (case bh_pin_routes h of
      None \<Rightarrow> (Inl ''open routes'', h)
    | Some i \<Rightarrow> (case f (bh_loaded h ! i) of (r, m) \<Rightarrow> (r, update_loaded i (\<lambda>_. m) h)))"

definition cmd_route :: "ctl_env \<Rightarrow> string list \<Rightarrow> (bpf_host, string, unit) action" where
  "cmd_route env args h = (case args of
      [] \<Rightarrow> (Inl ''usage: route <add|del> <subnet> [ifindex]'', h)
    | subcmd # rest \<Rightarrow>
        if subcmd = ''add'' then (case rest of
            subnet_str # ifindex_str # _ \<Rightarrow>
              (case (ce_parse_net env subnet_str, parse_uint 32 ifindex_str) of
                 (Some subnet, Some ifindex) \<Rightarrow>
                   on_routes (routes_insert (subnet_to_key (ce_net env) subnet) \<lparr> re_ifindex = word_of_nat ifindex \<rparr>) h
               | _ \<Rightarrow> (Inl ''parse'', h))
          | _ \<Rightarrow> (Inl ''usage: route add <subnet> <ifindex>'', h))
        else if subcmd = ''del'' then (case rest of
            subnet_str # _ \<Rightarrow>
              (case ce_parse_net env subnet_str of
                 Some subnet \<Rightarrow> on_routes (\<lambda>m. (Inr (), routes_remove (subnet_to_key (ce_net env) subnet) m)) h
               | None \<Rightarrow> (Inl ''parse'', h))
          | [] \<Rightarrow> (Inl ''usage: route del <subnet>'', h))
        else (Inl (''unknown route subcommand: '' @ subcmd), h))"

definition cmd_observe :: "string list \<Rightarrow> (bpf_host, string, unit) action" where
  "cmd_observe args h = (case args of
      [] \<Rightarrow> (Inl ''usage: observe <on|off>'', h)
    | state # _ \<Rightarrow>
        (case (if state = ''on'' then Some 1 else if state = ''off'' then Some 0 else None) of
           None \<Rightarrow> (Inl (''unknown observe state: '' @ state @ '' (expected on|off)''), h)
         | Some value \<Rightarrow> (case bh_pin_observe h of
             None \<Rightarrow> (Inl ''open observe_flag'', h)
           | Some i \<Rightarrow> (Inr (), update_loaded i (\<lambda>m. m\<lparr>bm_observe := value\<rparr>) h))))"

definition ctl_main :: "ctl_env \<Rightarrow> string list \<Rightarrow> (bpf_host, string, unit) action" where
  "ctl_main env args h = (case args of
      _ # cmd # rest \<Rightarrow>
        if cmd = ''attach'' then cmd_attach env rest h
        else if cmd = ''detach'' then cmd_detach rest h
        else if cmd = ''route'' then cmd_route env rest h
        else if cmd = ''observe'' then cmd_observe rest h
        else (Inl ''unknown command'', h)
    | _ \<Rightarrow> (Inl ''usage: ployz-bpfctl <attach|detach|route|observe> ...'', h))"

section \<open>The daemon's data planes\<close>

definition ctl_bin :: string where
  "ctl_bin = ''/usr/local/bin/ployz-bpfctl''"

record container_dataplane =
  cd_container :: string
  cd_bridge :: string

text \<open>\<open>docker\<close>: whether docker runs the command line it is given.\<close>

definition container_exec ::
    "ctl_env \<Rightarrow> (string list \<Rightarrow> bool) \<Rightarrow> container_dataplane \<Rightarrow> string list \<Rightarrow> (bpf_host, string, unit) action" where
  "container_exec env docker dp cmd h =
    (let full_cmd = [''exec'', ''--privileged'', cd_container dp, ''nsenter'', ''--net=/proc/1/ns/net'', ''--''] @ cmd
     in if \<not> docker full_cmd then (Inl ''ebpf exec'', h) else ctl_main env cmd h)"

definition container_attach ::
    "ctl_env \<Rightarrow> (string list \<Rightarrow> bool) \<Rightarrow> string \<Rightarrow> string \<Rightarrow> string \<Rightarrow> (bpf_host, string, container_dataplane) action" where
  "container_attach env docker wg_container_name bridge_ifname wg_ifname =
    (let dataplane = \<lparr> cd_container = wg_container_name, cd_bridge = bridge_ifname \<rparr>
     in bind_act (container_exec env docker dataplane [ctl_bin, ''attach'', bridge_ifname, wg_ifname]) (\<lambda>_. ret_act dataplane))"

definition container_set_observe ::
    "ctl_env \<Rightarrow> (string list \<Rightarrow> bool) \<Rightarrow> container_dataplane \<Rightarrow> observe_mode \<Rightarrow> (bpf_host, string, unit) action" where
  "container_set_observe env docker dp mode =
    container_exec env docker dp [ctl_bin, ''observe'', case mode of Observe_Enabled \<Rightarrow> ''on'' | Observe_Disabled \<Rightarrow> ''off'']"

definition container_upsert_route ::
    "ctl_env \<Rightarrow> (string list \<Rightarrow> bool) \<Rightarrow> container_dataplane \<Rightarrow> ipv4_net \<Rightarrow> 32 word \<Rightarrow> (bpf_host, string, unit) action" where
  "container_upsert_route env docker dp subnet ifindex =
    container_exec env docker dp [ctl_bin, ''route'', ''add'', ce_net_str env subnet, fmt_dec (unat ifindex)]"

definition container_remove_route ::
    "ctl_env \<Rightarrow> (string list \<Rightarrow> bool) \<Rightarrow> container_dataplane \<Rightarrow> ipv4_net \<Rightarrow> (bpf_host, string, unit) action" where
  "container_remove_route env docker dp subnet h =
    (case container_exec env docker dp [ctl_bin, ''route'', ''del'', ce_net_str env subnet] h of (_, h') \<Rightarrow> (Inr (), h'))"

definition container_detach ::
    "ctl_env \<Rightarrow> (string list \<Rightarrow> bool) \<Rightarrow> container_dataplane \<Rightarrow> (bpf_host, string, unit) action" where
  "container_detach env docker dp h =
    (case container_exec env docker dp [ctl_bin, ''detach'', cd_bridge dp] h of (_, h') \<Rightarrow> (Inr (), h'))"

record native_dataplane =
  nd_bpf :: nat
  nd_bridge :: string

definition native_attach :: "ctl_env \<Rightarrow> string \<Rightarrow> (bpf_host, string, native_dataplane) action" where
  "native_attach env bridge_ifname h =
    (let i = length (bh_loaded h) in
     bind_act (\<lambda>h. (Inr (), h\<lparr>bh_loaded := bh_loaded h @ [bpf_load]\<rparr>)) (\<lambda>_.
     bind_act (attach_tc_classifier env i ''ployz_egress'' bridge_ifname) (\<lambda>_.
     bind_act (attach_tc_classifier env i ''ployz_ingress'' bridge_ifname) (\<lambda>_.
     ret_act \<lparr> nd_bpf = i, nd_bridge = bridge_ifname \<rparr>))) h)"

definition native_detach :: "native_dataplane \<Rightarrow> bpf_host \<Rightarrow> bpf_host" where
  "native_detach dp h =
    h\<lparr>bh_egress := filter (\<lambda>(b, _). b \<noteq> nd_bridge dp) (bh_egress h),
      bh_ingress := filter (\<lambda>(b, _). b \<noteq> nd_bridge dp) (bh_ingress h)\<rparr>"

definition on_loaded :: "nat \<Rightarrow> (bpf_maps, string, unit) action \<Rightarrow> (bpf_host, string, unit) action" where
  "on_loaded i f h = (case f (bh_loaded h ! i) of (r, m) \<Rightarrow> (r, update_loaded i (\<lambda>_. m) h))"

datatype ebpf_dataplane = Dp_Native native_dataplane | Dp_Container container_dataplane

fun dp_set_observe :: "ctl_env \<Rightarrow> (string list \<Rightarrow> bool) \<Rightarrow> ebpf_dataplane \<Rightarrow> observe_mode \<Rightarrow> (bpf_host, string, unit) action" where
  "dp_set_observe env docker (Dp_Native dp) mode = on_loaded (nd_bpf dp) (native_set_observe mode)"
| "dp_set_observe env docker (Dp_Container dp) mode = container_set_observe env docker dp mode"

fun dp_upsert_route ::
    "ctl_env \<Rightarrow> (string list \<Rightarrow> bool) \<Rightarrow> ebpf_dataplane \<Rightarrow> ipv4_net \<Rightarrow> 32 word \<Rightarrow> (bpf_host, string, unit) action" where
  "dp_upsert_route env docker (Dp_Native dp) subnet ifindex = on_loaded (nd_bpf dp) (native_upsert_route (ce_net env) subnet ifindex)"
| "dp_upsert_route env docker (Dp_Container dp) subnet ifindex = container_upsert_route env docker dp subnet ifindex"

fun dp_remove_route :: "ctl_env \<Rightarrow> (string list \<Rightarrow> bool) \<Rightarrow> ebpf_dataplane \<Rightarrow> ipv4_net \<Rightarrow> (bpf_host, string, unit) action" where
  "dp_remove_route env docker (Dp_Native dp) subnet = on_loaded (nd_bpf dp) (native_remove_route (ce_net env) subnet)"
| "dp_remove_route env docker (Dp_Container dp) subnet = container_remove_route env docker dp subnet"

fun dp_detach :: "ctl_env \<Rightarrow> (string list \<Rightarrow> bool) \<Rightarrow> ebpf_dataplane \<Rightarrow> (bpf_host, string, unit) action" where
  "dp_detach env docker (Dp_Native dp) h = (Inr (), native_detach dp h)"
| "dp_detach env docker (Dp_Container dp) h = container_detach env docker dp h"

text \<open>
  \<open>DefaultDataplaneFactory::attach\<close>: the data plane and the interface index its routes will use. \<open>native\<close> is the
  build feature; the names of the bridge and of the WireGuard interface come from the container network and the driver.
\<close>

definition factory_attach ::
    "bool \<Rightarrow> ctl_env \<Rightarrow> (string list \<Rightarrow> bool) \<Rightarrow> string \<Rightarrow> (string, string) result \<Rightarrow> (string \<Rightarrow> string) \<Rightarrow>
     (bpf_host, string, ebpf_dataplane \<times> 32 word) action" where
  "factory_attach native env docker container_name bridge attachment_ifname =
    bind_act (lift_res bridge) (\<lambda>bridge_ifname.
    let wg_ifname = attachment_ifname bridge_ifname in
    if native then
      bind_act (lift_res (resolve_ifindex env wg_ifname)) (\<lambda>wg_ifindex.
      bind_act (native_attach env bridge_ifname) (\<lambda>dp. ret_act (Dp_Native dp, wg_ifindex)))
    else
      bind_act (container_attach env docker container_name bridge_ifname wg_ifname) (\<lambda>dp. ret_act (Dp_Container dp, 0)))"

section \<open>Byte order\<close>

lemma byte32_be32 [simp]:
  "byte32 3 (be32 a b c d) = a" "byte32 2 (be32 a b c d) = b" "byte32 (Suc 0) (be32 a b c d) = c" "byte32 0 (be32 a b c d) = d"
proof -
  note bits = byte32_def be32_def bit_simps
  show "byte32 3 (be32 a b c d) = a" by (rule bit_word_eqI) (auto simp: bits dest: bit_imp_le_length)
  show "byte32 2 (be32 a b c d) = b" by (rule bit_word_eqI) (auto simp: bits dest: bit_imp_le_length)
  show "byte32 (Suc 0) (be32 a b c d) = c" by (rule bit_word_eqI) (auto simp: bits dest: bit_imp_le_length)
  show "byte32 0 (be32 a b c d) = d" by (rule bit_word_eqI) (auto simp: bits dest: bit_imp_le_length)
qed

lemma be32_bytes: "be32 (byte32 3 w) (byte32 2 w) (byte32 1 w) (byte32 0 w) = w"
proof (rule bit_word_eqI)
  fix n assume n: "n < LENGTH(32)"
  consider "n < 8" | k where "n = 8 + k" "k < 8" | k where "n = 16 + k" "k < 8" | k where "n = 24 + k" "k < 8"
  proof -
    have "n < 8 \<or> (\<exists>k<8. n = 8 + k) \<or> (\<exists>k<8. n = 16 + k) \<or> (\<exists>k<8. n = 24 + k)"
      using n by simp presburger
    then show thesis using that by blast
  qed
  then show "bit (be32 (byte32 3 w) (byte32 2 w) (byte32 1 w) (byte32 0 w)) n \<longleftrightarrow> bit w n"
    using n by cases (auto simp: byte32_def be32_def bit_simps)
qed

lemma swap32_be32 [simp]: "swap32 (be32 a b c d) = be32 d c b a"
  by (simp add: swap32_def)

lemma swap32_swap32 [simp]: "swap32 (swap32 w) = w"
  using be32_bytes[of w] by (simp add: swap32_def)

lemma swap32_inject [simp]: "swap32 v = swap32 w \<longleftrightarrow> v = w"
  by (metis swap32_swap32)

section \<open>Longest prefixes\<close>

locale header_layout =
  fixes ho :: header_ops
  assumes eth_len: "ho_eth_len ho = 14"
    and ether_ipv4: "length bs = 14 \<Longrightarrow> ho_ether_type ho bs = Ether_Ipv4 \<longleftrightarrow> bs ! 12 = 0x08 \<and> bs ! 13 = 0x00"
    and ether_ipv6: "length bs = 14 \<Longrightarrow> ho_ether_type ho bs = Ether_Ipv6 \<longleftrightarrow> bs ! 12 = 0x86 \<and> bs ! 13 = 0xdd"
    and ipv4_size: "ho_ipv4_size ho = 20"
    and ipv4: "length bs = 20 \<Longrightarrow> ho_ipv4 ho bs = \<lparr> ih_proto = bs ! 9, ih_src_addr = be32 (bs ! 15) (bs ! 14) (bs ! 13) (bs ! 12),
      ih_dst_addr = be32 (bs ! 19) (bs ! 18) (bs ! 17) (bs ! 16) \<rparr>"
begin

lemma load_header:
  assumes "34 \<le> length bs" "bs ! 12 = 0x08" "bs ! 13 = 0x00"
  shows "try_classify ho m (skb_of bs) =
    try_prefixes (bm_routes m) (be32 (bs ! 30) (bs ! 31) (bs ! 32) (bs ! 33)) [32, 24, 16, 8]"
proof -
  have "ho_ether_type ho (take 14 bs) = Ether_Ipv4" using assms by (subst ether_ipv4) auto
  moreover have "swap32 (ih_dst_addr (ho_ipv4 ho (take 20 (drop 14 bs)))) = be32 (bs ! 30) (bs ! 31) (bs ! 32) (bs ! 33)"
    using assms(1) by (subst ipv4) (auto simp: nth_drop)
  ultimately show ?thesis
    using assms(1) by (simp add: try_classify_def try_classify_ipv4_def skb_of_def eth_len ipv4_size del: try_prefixes.simps)
qed

lemma load_ula:
  assumes "39 \<le> length bs" "bs ! 12 = 0x86" "bs ! 13 = 0xdd" "bs ! 38 = 0xfd"
  shows "try_classify ho m (skb_of bs) = Some (bm_wg_ifindex m)"
proof -
  have "ho_ether_type ho (take 14 bs) = Ether_Ipv6" using assms by (subst ether_ipv6) auto
  moreover have "hd (take 1 (drop 38 bs)) = 0xfd" using assms by (simp add: hd_drop_conv_nth)
  ultimately show ?thesis
    using assms(1) by (simp add: try_classify_def try_classify_ipv6_def skb_of_def eth_len)
qed

end

interpretation std_headers: header_layout header_std
  by unfold_locales (auto simp: header_std_def)

lemma and_prefix_mask: "k \<le> 32 \<Longrightarrow> unat ((d :: 32 word) AND push_bit k (NOT 0)) = unat d div 2 ^ k * 2 ^ k"
proof -
  assume k: "k \<le> 32"
  have "d AND push_bit k (NOT 0) = push_bit k (drop_bit k d)"
    by (rule bit_word_eqI) (auto simp: bit_simps)
  moreover have "unat (push_bit k (drop_bit k d)) = unat d div 2 ^ k * 2 ^ k"
  proof -
    have "unat d div 2 ^ k * 2 ^ k \<le> unat d" by simp
    also have d: "unat d < 2 ^ 32" using unsigned_less[of d] by simp
    finally have small: "unat d div 2 ^ k * 2 ^ k < 2 ^ 32" .
    have "unat (push_bit k (drop_bit k d)) = take_bit 32 (push_bit k (drop_bit k (unat d)))"
      by (simp only: unsigned_push_bit_eq unsigned_drop_bit_eq) (use d in \<open>simp add: take_bit_eq_mod drop_bit_eq_div\<close>)
    then show ?thesis using small by (simp add: push_bit_eq_mult drop_bit_eq_div take_bit_eq_mod)
  qed
  ultimately show ?thesis by simp
qed

abbreviation route_table :: "bpf_maps \<Rightarrow> route_key \<Rightarrow> 32 word option" where
  "route_table m key \<equiv> map_option re_ifindex (hm_get (bm_routes m) key)"

definition same_block :: "nat \<Rightarrow> ipv4_addr \<Rightarrow> ipv4_addr \<Rightarrow> bool" where
  "same_block p a b \<longleftrightarrow> unat a div block_size p = unat b div block_size p"

context ipnet_spec
begin

lemma network_mask: "p \<le> 32 \<Longrightarrow> net_network ops (Ipv4Net d p) = d AND push_bit (32 - p) (NOT 0)"
  unfolding word_unat_eq_iff and_prefix_mask[OF diff_le_self] by (simp add: network block_size_def)

lemma key_same_block:
  assumes "p \<le> 32" "same_block p a b"
  shows "subnet_to_key ops (Ipv4Net a p) = subnet_to_key ops (Ipv4Net b p)"
proof -
  have "net_network ops (Ipv4Net a p) = net_network ops (Ipv4Net b p)"
    using assms by (simp add: word_unat_eq_iff network same_block_def)
  then show ?thesis by (simp add: subnet_to_key_def)
qed

lemma try_prefixes_exact:
  "\<forall>p\<in>set ps. p \<le> 32 \<Longrightarrow> try_prefixes (bm_routes m) d ps =
    (case find (\<lambda>p. route_table m (subnet_to_key ops (Ipv4Net d p)) \<noteq> None) ps of
       Some p \<Rightarrow> route_table m (subnet_to_key ops (Ipv4Net d p)) | None \<Rightarrow> None)"
  by (induction ps) (auto simp: Let_def subnet_to_key_def network_mask split: option.split)

end

lemma egress_prefixes:
  assumes "header_layout ho" and "ipnet_spec net" and "34 \<le> length bs" and "bs ! 12 = 0x08" and "bs ! 13 = 0x00"
    and d: "d = be32 (bs ! 30) (bs ! 31) (bs ! 32) (bs ! 33)"
  shows "fst (ployz_egress ho m now (skb_of bs)) =
    (case find (\<lambda>p. route_table m (subnet_to_key net (Ipv4Net d p)) \<noteq> None) [32, 24, 16, 8] of
       Some p \<Rightarrow> TC_Redirect (the (route_table m (subnet_to_key net (Ipv4Net d p))))
     | None \<Rightarrow> TC_Act_Ok)"
proof -
  have "try_classify ho m (skb_of bs) = try_prefixes (bm_routes m) d [32, 24, 16, 8]"
    unfolding d by (rule header_layout.load_header[OF assms(1,3,4,5)])
  then show ?thesis
    using ipnet_spec.try_prefixes_exact[OF assms(2), of "[32, 24, 16, 8]" m d]
    by (auto simp: ployz_egress_def Let_def find_Some_iff split: option.splits)
qed

text \<open>A route of any other prefix length is never found, though user space accepts it.\<close>

lemma other_prefixes_ignored:
  assumes "header_layout ho" and "34 \<le> length bs" and "bs ! 12 = 0x08" and "bs ! 13 = 0x00"
    and "\<And>k. route_table m k \<noteq> None \<Longrightarrow> rk_prefix_len k \<notin> {8, 16, 24, 32}"
  shows "fst (ployz_egress ho m now (skb_of bs)) = TC_Act_Ok"
proof -
  define d where "d = be32 (bs ! 30) (bs ! 31) (bs ! 32) (bs ! 33)"
  have "route_table m (subnet_to_key ipnet_std (Ipv4Net d p)) = None" if "p \<in> {8, 16, 24, 32}" for p
  proof (rule ccontr)
    assume "route_table m (subnet_to_key ipnet_std (Ipv4Net d p)) \<noteq> None"
    from assms(5)[OF this] show False using that by (auto simp: subnet_to_key_def)
  qed
  then show ?thesis
    unfolding egress_prefixes[OF assms(1) ipnet.ipnet_spec_axioms assms(2-4) d_def] by simp
qed

text \<open>
  C20. The classifier in the kernel finds the most specific route. An IPv4 packet is redirected to an interface exactly
  when the route that user space installed for the block of its destination, at prefix length 32, 24, 16 or 8, leads
  there and no longer one of these prefixes has a route; the byte order of the keys written from user space and of
  those computed from the packet agrees. Without such a route the packet passes.
\<close>

theorem egress_longest_prefix:
  assumes "header_layout ho" and "ipnet_spec net" and "34 \<le> length bs" and "bs ! 12 = 0x08" and "bs ! 13 = 0x00"
    and d: "d = be32 (bs ! 30) (bs ! 31) (bs ! 32) (bs ! 33)"
  shows "fst (ployz_egress ho m now (skb_of bs)) =
    (case find (\<lambda>p. route_table m (subnet_to_key net (Ipv4Net d p)) \<noteq> None) [32, 24, 16, 8] of
       Some p \<Rightarrow> TC_Redirect (the (route_table m (subnet_to_key net (Ipv4Net d p))))
     | None \<Rightarrow> TC_Act_Ok)"
  by (rule egress_prefixes[OF assms])

section \<open>The interface of a data plane\<close>

text \<open>
  \<open>MeshDataplane\<close>: an upsert sets one route or changes nothing, and succeeds while the routes fit; a removal drops one
  route or changes nothing. \<open>valid\<close> says that the data plane is attached, \<open>table\<close> reads its routes.
\<close>

fun history_ok :: "(ipv4_net \<Rightarrow> 'q) \<Rightarrow> machine_id \<Rightarrow> 'q set \<Rightarrow> (machine_id, machine_record) btree_map \<Rightarrow> machine_event list \<Rightarrow> bool" where
  "history_ok key self K machines [] = True"
| "history_ok key self K machines (ev # evs) =
    ((case ev of
        Machine_Removed m \<Rightarrow> list_all (\<lambda>m'. mr_id m' = self \<or> mr_subnet m' = None \<or> mr_subnet m = None \<or>
          key (the (mr_subnet m')) \<noteq> key (the (mr_subnet m))) (bt_values (claim_event ev machines))
      | Machine_Added m \<Rightarrow> mr_subnet m = None \<or> key (the (mr_subnet m)) \<in> K
      | Machine_Updated m \<Rightarrow> mr_subnet m = None \<or> key (the (mr_subnet m)) \<in> K) \<and>
     history_ok key self K (claim_event ev machines) evs)"

locale mesh_dataplane =
  fixes valid :: "'h \<Rightarrow> bool" and table :: "'h \<Rightarrow> 'q \<Rightarrow> 32 word option" and key :: "ipv4_net \<Rightarrow> 'q"
    and upsert :: "ipv4_net \<Rightarrow> 32 word \<Rightarrow> ('h, string, unit) action" and remove :: "ipv4_net \<Rightarrow> ('h, string, unit) action"
    and capacity :: nat
  assumes upsert_run: "valid h \<Longrightarrow> upsert s i h = (r, h') \<Longrightarrow>
      valid h' \<and> table h' = (case r of Inr _ \<Rightarrow> (table h)(key s \<mapsto> i) | Inl _ \<Rightarrow> table h)"
    and upsert_fits: "valid h \<Longrightarrow> finite K \<Longrightarrow> card K \<le> capacity \<Longrightarrow> insert (key s) (dom (table h)) \<subseteq> K \<Longrightarrow>
      fst (upsert s i h) = Inr ()"
    and remove_run: "valid h \<Longrightarrow> remove s h = (r, h') \<Longrightarrow>
      valid h' \<and> (table h' = (table h)(key s := None) \<or> table h' = table h)"
begin

definition synced :: "machine_id \<Rightarrow> 32 word \<Rightarrow> 'q set \<Rightarrow> (machine_id, machine_record) btree_map \<Rightarrow> 'h \<Rightarrow> bool" where
  "synced self i K machines h \<longleftrightarrow> valid h \<and> bt_wf machines \<and> (\<forall>j m. bt_get machines j = Some m \<longrightarrow> mr_id m = j) \<and>
    dom (table h) \<subseteq> K \<and> ran (table h) \<subseteq> {i} \<and>
    (\<forall>j m s. bt_get machines j = Some m \<longrightarrow> j \<noteq> self \<longrightarrow> mr_subnet m = Some s \<longrightarrow> table h (key s) = Some i)"

lemma synced_get:
  "synced self i K machines h \<Longrightarrow> bt_get machines j = Some m \<Longrightarrow> j \<noteq> self \<Longrightarrow> mr_subnet m = Some s \<Longrightarrow> table h (key s) = Some i"
  unfolding synced_def by blast

lemma synced_only: "synced self i K machines h \<Longrightarrow> table h k = Some y \<Longrightarrow> y = i"
  unfolding synced_def by (meson ranI singletonD subsetD)

lemma synced_put:
  assumes s: "synced self i K machines h" and K: "finite K" "card K \<le> capacity"
    and key: "mr_subnet m = None \<or> key (the (mr_subnet m)) \<in> K"
  shows "synced self i K (bt_insert (mr_id m) m machines) (ebpf_upsert (\<lambda>s. upsert s i) self m h)"
proof (cases "mr_id m = self \<or> mr_subnet m = None")
  case True
  then show ?thesis using s by (auto simp: synced_def ebpf_upsert_def)
next
  case False
  then obtain n where n: "mr_subnet m = Some n" "mr_id m \<noteq> self" by auto
  obtain r h' where run: "upsert n i h = (r, h')" by (cases "upsert n i h")
  have "fst (upsert n i h) = Inr ()"
    by (rule upsert_fits[OF _ K]) (use s key n in \<open>auto simp: synced_def\<close>)
  then have "valid h'" "table h' = (table h)(key n \<mapsto> i)"
    using upsert_run[of h n i r h'] run s by (auto simp: synced_def)
  then show ?thesis
    using s key n run by (auto simp: synced_def ebpf_upsert_def ran_def dom_def split: if_splits)
qed

lemma synced_drop:
  assumes s: "synced self i K machines h"
    and other: "list_all (\<lambda>m'. mr_id m' = self \<or> mr_subnet m' = None \<or> mr_subnet m = None \<or>
      key (the (mr_subnet m')) \<noteq> key (the (mr_subnet m))) (bt_values (bt_remove (mr_id m) machines))"
  shows "synced self i K (bt_remove (mr_id m) machines) (ebpf_remove remove self m h)"
proof -
  let ?M = "bt_remove (mr_id m) machines"
  have wf: "bt_wf machines" and keyed: "\<And>j m. bt_get machines j = Some m \<Longrightarrow> mr_id m = j"
    using s by (auto simp: synced_def)
  have get: "bt_get ?M = (bt_get machines)(mr_id m := None)" by (rule map_of_bt_remove[OF wf])
  show ?thesis
  proof (cases "mr_id m = self \<or> mr_subnet m = None")
    case True
    then show ?thesis using s wf get by (auto simp: synced_def ebpf_remove_def split: if_splits)
  next
    case False
    then obtain n where n: "mr_subnet m = Some n" "mr_id m \<noteq> self" by auto
    obtain r h' where run: "remove n h = (r, h')" by (cases "remove n h")
    have t: "valid h'" "table h' = (table h)(key n := None) \<or> table h' = table h"
      using remove_run[of h n r h'] run s by (auto simp: synced_def)
    have cover: "table h' (key q) = Some i" if j: "bt_get ?M j = Some m'" "j \<noteq> self" "mr_subnet m' = Some q" for j m' q
    proof -
      have "m' \<in> set (bt_values ?M)" using j(1) by (force simp: bt_values_def dest: map_of_SomeD)
      moreover have "mr_id m' = j" "bt_get machines j = Some m'" using j(1) keyed by (auto simp: get split: if_splits)
      ultimately have "key q \<noteq> key n" using other n j by (auto simp: list_all_iff)
      moreover have "table h (key q) = Some i" using s \<open>bt_get machines j = Some m'\<close> j by (auto simp: synced_def)
      ultimately show ?thesis using t(2) by auto
    qed
    have "dom (table h') \<subseteq> dom (table h)" "ran (table h') \<subseteq> ran (table h)" using t(2) by (auto simp: ran_def split: if_splits)
    then have in_K: "dom (table h') \<subseteq> K" "ran (table h') \<subseteq> {i}" using s unfolding synced_def by blast+
    have keyed': "\<And>j m'. bt_get ?M j = Some m' \<Longrightarrow> mr_id m' = j" using keyed by (auto simp: get split: if_splits)
    have "ebpf_remove remove self m h = h'" using n run by (simp add: ebpf_remove_def)
    then show ?thesis
      unfolding synced_def using t(1) wf cover in_K keyed' by (simp only: bt_wf_remove) blast
  qed
qed

lemma synced_history:
  "finite K \<Longrightarrow> card K \<le> capacity \<Longrightarrow> synced self i K machines h \<Longrightarrow> history_ok key self K machines evs \<Longrightarrow>
   synced self i K (fold claim_event evs machines) (fold (ebpf_event (\<lambda>s. upsert s i) remove self) evs h)"
proof (induction evs arbitrary: machines h)
  case (Cons ev evs)
  have "synced self i K (claim_event ev machines) (ebpf_event (\<lambda>s. upsert s i) remove self ev h)"
    using Cons.prems by (cases ev) (auto intro: synced_put synced_drop)
  then show ?case using Cons by simp
qed simp

end

section \<open>Both data planes implement the interface\<close>

text \<open>
  The index of the program whose maps a data plane edits. Attached: the program is loaded and runs on the bridge; the
  tool's data plane also needs its pinned map, docker and the printed form of a subnet read back.
\<close>

fun dp_index :: "ebpf_dataplane \<Rightarrow> bpf_host \<Rightarrow> nat option" where
  "dp_index (Dp_Native dp) h = Some (nd_bpf dp)"
| "dp_index (Dp_Container dp) h = bh_pin_routes h"

fun dp_bridge :: "ebpf_dataplane \<Rightarrow> string" where
  "dp_bridge (Dp_Native dp) = nd_bridge dp"
| "dp_bridge (Dp_Container dp) = cd_bridge dp"

definition dp_valid :: "ctl_env \<Rightarrow> (string list \<Rightarrow> bool) \<Rightarrow> ebpf_dataplane \<Rightarrow> bpf_host \<Rightarrow> bool" where
  "dp_valid env docker dp h \<longleftrightarrow> (\<exists>i. dp_index dp h = Some i \<and> i < length (bh_loaded h) \<and> (dp_bridge dp, i) \<in> set (bh_egress h) \<and>
      hm_wf (bm_routes (bh_loaded h ! i))) \<and>
    (case dp of Dp_Native _ \<Rightarrow> True | Dp_Container _ \<Rightarrow> (\<forall>cmd. docker cmd) \<and> (\<forall>s. ce_parse_net env (ce_net_str env s) = Some s))"

definition dp_maps :: "ebpf_dataplane \<Rightarrow> bpf_host \<Rightarrow> bpf_maps" where
  "dp_maps dp h = bh_loaded h ! the (dp_index dp h)"

definition dp_table :: "ebpf_dataplane \<Rightarrow> bpf_host \<Rightarrow> route_key \<Rightarrow> 32 word option" where
  "dp_table dp h = (\<lambda>k. route_table (dp_maps dp h) k)"

lemma routes_insert_run:
  assumes "routes_insert key entry m = (r, m')"
  shows "(\<lambda>k. route_table m' k) = (case r of Inr _ \<Rightarrow> (\<lambda>k. route_table m k)(key \<mapsto> re_ifindex entry) | Inl _ \<Rightarrow> (\<lambda>k. route_table m k))"
    and "hm_wf (bm_routes m) \<Longrightarrow> hm_wf (bm_routes m')"
  using assms by (auto simp: routes_insert_def fun_eq_iff hm.wf_insert update_conv' split: if_splits)

lemma routes_insert_fits:
  assumes "hm_wf (bm_routes m)" "finite K" "card K \<le> max_routes" "insert key (dom (\<lambda>k. route_table m k)) \<subseteq> K"
  shows "fst (routes_insert key entry m) = Inr ()"
proof (cases "hm_contains (bm_routes m) key")
  case False
  have keys: "dom (\<lambda>k. route_table m k) = fst ` set (bm_routes m)" by (auto simp: dom_def dom_map_of_conv_image_fst[symmetric])
  then have "key \<notin> fst ` set (bm_routes m)" using False by (auto simp: hm_contains_def map_of_eq_None_iff)
  then have "card (insert key (fst ` set (bm_routes m))) = Suc (length (bm_routes m))"
    using assms(1) by (simp add: hm_wf_def card_image distinct_map distinct_card)
  then have "length (bm_routes m) < max_routes" using card_mono[OF assms(2,4)] assms(3) by (simp only: keys)
  then show ?thesis by (simp add: routes_insert_def)
qed (simp add: routes_insert_def)

lemma routes_remove_run:
  "(\<lambda>k. route_table (routes_remove key m) k) = (\<lambda>k. route_table m k)(key := None)"
  "hm_wf (bm_routes m) \<Longrightarrow> hm_wf (bm_routes (routes_remove key m))"
  by (auto simp: routes_remove_def fun_eq_iff delete_conv' hm.wf_remove)

lemma container_route_add:
  assumes "dp_valid env docker (Dp_Container dp) h"
  shows "container_upsert_route env docker dp s i h =
    on_routes (routes_insert (subnet_to_key (ce_net env) s) \<lparr> re_ifindex = i \<rparr>) h"
proof -
  have "parse_uint 32 (fmt_dec (unat i)) = Some (unat i)"
    by (rule parse_uint_fmt_dec) (use unsigned_less[of i] in simp)
  then show ?thesis
    using assms by (simp add: container_upsert_route_def container_exec_def ctl_main_def cmd_route_def dp_valid_def)
qed

lemma container_route_del:
  assumes "dp_valid env docker (Dp_Container dp) h"
  shows "snd (container_remove_route env docker dp s h) =
    snd (on_routes (\<lambda>m. (Inr (), routes_remove (subnet_to_key (ce_net env) s) m)) h)"
  using assms
  by (simp add: container_remove_route_def container_exec_def ctl_main_def cmd_route_def dp_valid_def split: prod.split)

lemma on_loaded_run:
  assumes "on_loaded i f h = (r, h')" "i < length (bh_loaded h)"
  obtains m where "f (bh_loaded h ! i) = (r, m)" "h' = update_loaded i (\<lambda>_. m) h" "bh_loaded h' ! i = m"
  using assms by (auto simp: on_loaded_def update_loaded_def split: prod.splits)

lemma dp_upsert_on_loaded:
  assumes "dp_valid env docker dp h" "dp_index dp h = Some i"
  shows "dp_upsert_route env docker dp s x h = on_loaded i (routes_insert (subnet_to_key (ce_net env) s) \<lparr> re_ifindex = x \<rparr>) h"
  using assms container_route_add[of env docker _ h s x]
  by (cases dp) (auto simp: native_upsert_route_def on_routes_def on_loaded_def)

lemma dp_remove_on_loaded:
  assumes "dp_valid env docker dp h" "dp_index dp h = Some i"
  shows "snd (dp_remove_route env docker dp s h) =
    snd (on_loaded i (\<lambda>m. (Inr (), routes_remove (subnet_to_key (ce_net env) s) m)) h)"
  using assms container_route_del[of env docker _ h s]
  by (cases dp) (auto simp: native_remove_route_def on_routes_def on_loaded_def split: prod.split)

lemma dp_valid_update:
  assumes "dp_valid env docker dp h" "dp_index dp h = Some i" "hm_wf (bm_routes m)"
  shows "dp_valid env docker dp (update_loaded i (\<lambda>_. m) h)" "dp_table dp (update_loaded i (\<lambda>_. m) h) = (\<lambda>k. route_table m k)"
proof -
  have "dp_index dp (update_loaded i (\<lambda>_. m) h) = Some i" using assms(2) by (cases dp) (auto simp: update_loaded_def)
  then show "dp_valid env docker dp (update_loaded i (\<lambda>_. m) h)"
      "dp_table dp (update_loaded i (\<lambda>_. m) h) = (\<lambda>k. route_table m k)"
    using assms by (auto simp: dp_valid_def update_loaded_def dp_table_def dp_maps_def)
qed

interpretation ebpf: mesh_dataplane "dp_valid env docker dp" "dp_table dp" "subnet_to_key (ce_net env)"
    "dp_upsert_route env docker dp" "dp_remove_route env docker dp" max_routes
  for env docker dp
proof
  fix h s x r h'
  assume v: "dp_valid env docker dp h"
  then obtain i where i: "dp_index dp h = Some i" "i < length (bh_loaded h)" "hm_wf (bm_routes (bh_loaded h ! i))"
    by (auto simp: dp_valid_def)
  have here: "dp_table dp h = (\<lambda>k. route_table (bh_loaded h ! i) k)" by (simp add: dp_table_def dp_maps_def i(1))
  show "dp_valid env docker dp h' \<and>
      dp_table dp h' = (case r of Inl _ \<Rightarrow> dp_table dp h | Inr _ \<Rightarrow> (dp_table dp h)(subnet_to_key (ce_net env) s \<mapsto> x))"
    if "dp_upsert_route env docker dp s x h = (r, h')"
  proof -
    from that have "on_loaded i (routes_insert (subnet_to_key (ce_net env) s) \<lparr> re_ifindex = x \<rparr>) h = (r, h')"
      by (simp only: dp_upsert_on_loaded[OF v i(1)])
    then obtain m where m: "routes_insert (subnet_to_key (ce_net env) s) \<lparr> re_ifindex = x \<rparr> (bh_loaded h ! i) = (r, m)"
        "h' = update_loaded i (\<lambda>_. m) h"
      by (rule on_loaded_run[OF _ i(2)])
    show ?thesis
      using dp_valid_update[OF v i(1) routes_insert_run(2)[OF m(1) i(3)]] routes_insert_run(1)[OF m(1)]
      by (auto simp: m(2) here split: sum.split)
  qed
  show "dp_valid env docker dp h' \<and>
      (dp_table dp h' = (dp_table dp h)(subnet_to_key (ce_net env) s := None) \<or> dp_table dp h' = dp_table dp h)"
    if "dp_remove_route env docker dp s h = (r, h')"
  proof -
    have "h' = update_loaded i (\<lambda>_. routes_remove (subnet_to_key (ce_net env) s) (bh_loaded h ! i)) h"
      using dp_remove_on_loaded[OF v i(1), of s] that by (simp add: on_loaded_def)
    then show ?thesis
      using dp_valid_update[OF v i(1) routes_remove_run(2)[OF i(3)]] by (simp add: routes_remove_run(1) here)
  qed
next
  fix h K s x
  assume v: "dp_valid env docker dp h"
    and K: "finite K" "card K \<le> max_routes" "insert (subnet_to_key (ce_net env) s) (dom (dp_table dp h)) \<subseteq> K"
  then obtain i where i: "dp_index dp h = Some i" "hm_wf (bm_routes (bh_loaded h ! i))" by (auto simp: dp_valid_def)
  have "fst (routes_insert (subnet_to_key (ce_net env) s) \<lparr> re_ifindex = x \<rparr> (bh_loaded h ! i)) = Inr ()"
    by (rule routes_insert_fits[OF i(2) K(1,2)]) (use K(3) i(1) in \<open>simp add: dp_table_def dp_maps_def\<close>)
  then show "fst (dp_upsert_route env docker dp s x h) = Inr ()"
    by (simp add: dp_upsert_on_loaded[OF v i(1)] on_loaded_def split: prod.split) (metis fst_conv)
qed

section \<open>From attaching to a packet\<close>

lemma attach_run:
  assumes "attach_tc_classifier env i prog bridge h = (r, h')"
  shows "bh_loaded h' = bh_loaded h" "bh_pin_routes h' = bh_pin_routes h" "set (bh_egress h) \<subseteq> set (bh_egress h')"
    "r = Inr u \<Longrightarrow> prog = ''ployz_egress'' \<Longrightarrow> (bridge, i) \<in> set (bh_egress h')"
  using assms by (auto simp: attach_tc_classifier_def split: if_splits)

lemma native_attach_run:
  assumes "native_attach env bridge h = (Inr dp, h')"
  shows "nd_bpf dp = length (bh_loaded h)" "nd_bridge dp = bridge" "bh_loaded h' = bh_loaded h @ [bpf_load]"
    "(bridge, length (bh_loaded h)) \<in> set (bh_egress h')"
proof -
  let ?i = "length (bh_loaded h)"
  obtain h1 where h1: "attach_tc_classifier env ?i ''ployz_egress'' bridge (h\<lparr>bh_loaded := bh_loaded h @ [bpf_load]\<rparr>) = (Inr (), h1)"
      "attach_tc_classifier env ?i ''ployz_ingress'' bridge h1 = (Inr (), h')" "dp = \<lparr> nd_bpf = ?i, nd_bridge = bridge \<rparr>"
    using assms by (auto simp: native_attach_def Let_def bind_act_Inr ret_act_def)
  then show "nd_bpf dp = ?i" "nd_bridge dp = bridge" "bh_loaded h' = bh_loaded h @ [bpf_load]" "(bridge, ?i) \<in> set (bh_egress h')"
    using attach_run[OF h1(1)] attach_run[OF h1(2)] by auto
qed

lemma cmd_attach_run:
  assumes "cmd_attach env (bridge # wg # rest) h = (Inr u, h')"
  shows "bh_pin_routes h' = Some (length (bh_loaded h))" "(bridge, length (bh_loaded h)) \<in> set (bh_egress h')"
    "\<exists>x. resolve_ifindex env wg = Inr x \<and> bh_loaded h' = bh_loaded h @ [bpf_load\<lparr>bm_wg_ifindex := x\<rparr>]"
proof -
  obtain x where x: "resolve_ifindex env wg = Inr x" using assms by (auto simp: cmd_attach_def split: sum.splits)
  let ?i = "length (bh_loaded h)"
  define h1 where "h1 = h\<lparr>bh_loaded := bh_loaded h @ [bpf_load]\<rparr>"
  obtain h2 where h2: "attach_tc_classifier env ?i ''ployz_egress'' bridge h1 = (Inr (), h2)" "\<exists>h3.
      attach_tc_classifier env ?i ''ployz_ingress'' bridge h2 = (Inr (), h3) \<and> (\<exists>h5 h6.
      pin_routes ?i (update_loaded ?i (\<lambda>m. m\<lparr>bm_wg_ifindex := x\<rparr>) h3) = (Inr (), h5) \<and> pin_observe ?i h5 = (Inr (), h6) \<and>
      pin_programs ?i h6 = (Inr u, h'))"
    using assms x by (auto simp: cmd_attach_def Let_def bind_act_Inr h1_def)
  then obtain h3 h5 h6 where h3: "attach_tc_classifier env ?i ''ployz_ingress'' bridge h2 = (Inr (), h3)"
      "pin_routes ?i (update_loaded ?i (\<lambda>m. m\<lparr>bm_wg_ifindex := x\<rparr>) h3) = (Inr (), h5)" "pin_observe ?i h5 = (Inr (), h6)"
      "pin_programs ?i h6 = (Inr u, h')" by blast
  have l3: "bh_loaded h3 = bh_loaded h @ [bpf_load]" using attach_run(1)[OF h2(1)] attach_run(1)[OF h3(1)] by (simp add: h1_def)
  have e3: "(bridge, ?i) \<in> set (bh_egress h3)" using attach_run(4)[OF h2(1)] attach_run(3)[OF h3(1)] by blast
  have h5: "h5 = (update_loaded ?i (\<lambda>m. m\<lparr>bm_wg_ifindex := x\<rparr>) h3)\<lparr>bh_pin_routes := Some ?i\<rparr>"
    using h3(2) by (auto simp: pin_routes_def split: option.splits)
  have "bh_loaded h' = bh_loaded h5" "bh_egress h' = bh_egress h5" "bh_pin_routes h' = bh_pin_routes h5"
    using h3(3,4) by (auto simp: pin_observe_def pin_programs_def Let_def split: option.splits)
  then show "bh_pin_routes h' = Some ?i" "(bridge, ?i) \<in> set (bh_egress h')"
      "\<exists>x. resolve_ifindex env wg = Inr x \<and> bh_loaded h' = bh_loaded h @ [bpf_load\<lparr>bm_wg_ifindex := x\<rparr>]"
    using e3 l3 x by (auto simp: h5 update_loaded_def)
qed

text \<open>A fresh data plane of either kind is attached and has no route.\<close>

lemma factory_attach_fresh:
  assumes "factory_attach native env docker name bridge ifname h = (Inr (dp, x), h')"
    and "\<not> native \<Longrightarrow> (\<forall>cmd. docker cmd) \<and> (\<forall>s. ce_parse_net env (ce_net_str env s) = Some s)"
  shows "dp_valid env docker dp h' \<and> dp_table dp h' = (\<lambda>_. None)"
proof (cases native)
  case True
  then obtain b n where "native_attach env b h = (Inr n, h')" "dp = Dp_Native n"
    using assms(1) by (auto simp: factory_attach_def Let_def bind_act_Inr ret_act_def lift_res_def)
  then show ?thesis
    using native_attach_run[of env b h n h']
    by (simp add: dp_valid_def dp_table_def dp_maps_def bpf_load_def hm_wf_def)
next
  case False
  then obtain b c where c: "container_attach env docker name b (ifname b) h = (Inr c, h')" "dp = Dp_Container c"
    using assms(1) by (auto simp: factory_attach_def Let_def bind_act_Inr ret_act_def lift_res_def)
  then have "cmd_attach env [b, ifname b] h = (Inr (), h')" "cd_bridge c = b"
    using assms(2)[OF False]
    by (auto simp: container_attach_def container_exec_def ctl_main_def Let_def bind_act_Inr ret_act_def)
  then show ?thesis
    using cmd_attach_run[of env b "ifname b" "[]" h "()" h'] assms(2)[OF False] c(2)
    by (auto simp: dp_valid_def dp_table_def dp_maps_def bpf_load_def hm_wf_def)
qed

text \<open>
  The index the routes get: in the container build it is always 0, and in the native build the index that IPv6
  traffic is redirected to stays 0, because nothing writes it.
\<close>

lemma container_routes_use_ifindex_zero:
  "factory_attach False env docker name bridge ifname h = (Inr (dp, x), h') \<Longrightarrow> x = 0"
  by (auto simp: factory_attach_def Let_def bind_act_Inr ret_act_def lift_res_def)

lemma native_ula_ifindex_zero:
  assumes "factory_attach True env docker name bridge ifname h = (Inr (dp, x), h')"
  shows "bm_wg_ifindex (dp_maps dp h') = 0"
proof -
  obtain b n where "native_attach env b h = (Inr n, h')" "dp = Dp_Native n"
    using assms by (auto simp: factory_attach_def Let_def bind_act_Inr ret_act_def lift_res_def)
  then show ?thesis using native_attach_run[of env b h n h'] by (simp add: dp_maps_def bpf_load_def)
qed

lemma find_exists:
  assumes "\<exists>x\<in>set xs. P x"
  obtains x where "find P xs = Some x" "P x"
  using assms by (cases "find P xs") (auto simp: find_None_iff find_Some_iff)

lemma seed_is_added:
  "ebpf_seed up self snapshot h = fold (ebpf_event up rm self) (map Machine_Added snapshot) h"
  "bt_collect (map (\<lambda>m. (mr_id m, m)) snapshot) = fold claim_event (map Machine_Added snapshot) []"
proof -
  have "(\<lambda>m. ebpf_event up rm self (Machine_Added m)) = ebpf_upsert up self" by (simp add: fun_eq_iff)
  then show "ebpf_seed up self snapshot h = fold (ebpf_event up rm self) (map Machine_Added snapshot) h"
    by (simp add: ebpf_seed_def fold_map comp_def)
  have "(\<lambda>m. claim_event (Machine_Added m)) = (\<lambda>m. bt_insert (mr_id m) m)" by (simp add: fun_eq_iff)
  then show "bt_collect (map (\<lambda>m. (mr_id m, m)) snapshot) = fold claim_event (map Machine_Added snapshot) []"
    by (simp add: bt_collect_def fold_map comp_def)
qed


section \<open>Witnesses\<close>

definition example_env :: ctl_env where
  "example_env = \<lparr> ce_net = ipnet_std, ce_parse_net = (\<lambda>_. None), ce_net_str = (\<lambda>_. ''''), ce_ifindex = (\<lambda>_. 7),
    ce_takes_program = (\<lambda>_ _. True) \<rparr>"

definition empty_host :: bpf_host where
  "empty_host = \<lparr> bh_loaded = [], bh_egress = [], bh_ingress = [], bh_pin_routes = None, bh_pin_observe = None,
    bh_pin_egress = None, bh_pin_ingress = None \<rparr>"

text \<open>A packet to 10.210.1.5, and a machine that has the subnet 10.210.1.0/24.\<close>

definition example_packet :: "8 word list" where
  "example_packet = replicate 12 0 @ [8, 0] @ replicate 16 0 @ [10, 210, 1, 5]"

definition example_subnet :: ipv4_net where
  "example_subnet = Ipv4Net 0x0AD20100 24"

definition example_peer :: machine_record where
  "example_peer = machine_record_seed (MachineId ''b'') (PublicKey []) (OverlayIp []) (Some example_subnet) []"

lemma example_packet_fields:
  "34 \<le> length example_packet" "example_packet ! 12 = 0x08" "example_packet ! 13 = 0x00"
  "be32 (example_packet ! 30) (example_packet ! 31) (example_packet ! 32) (example_packet ! 33) = 0x0AD20105"
  by (simp_all add: example_packet_def nth_append be32_def push_bit_eq_mult)

theorem egress_longest_prefix_witness:
  "fst (ployz_egress header_std (bpf_load\<lparr>bm_routes := [(subnet_to_key ipnet_std example_subnet, \<lparr> re_ifindex = 7 \<rparr>)]\<rparr>) 0
    (skb_of example_packet)) = TC_Redirect 7"
proof -
  define m where "m = bpf_load\<lparr>bm_routes := [(subnet_to_key ipnet_std example_subnet, \<lparr> re_ifindex = 7 \<rparr>)]\<rparr>"
  have key: "subnet_to_key ipnet_std (Ipv4Net 0x0AD20105 24) = subnet_to_key ipnet_std example_subnet"
    unfolding example_subnet_def by (rule ipnet.key_same_block) (simp_all add: same_block_def block_size_def)
  have other: "subnet_to_key ipnet_std (Ipv4Net 0x0AD20105 32) \<noteq> subnet_to_key ipnet_std example_subnet"
    by (simp add: subnet_to_key_def example_subnet_def)
  show ?thesis
    unfolding m_def[symmetric]
      egress_longest_prefix[OF std_headers.header_layout_axioms ipnet.ipnet_spec_axioms example_packet_fields(1-3) example_packet_fields(4)[symmetric]]
    using other by (simp add: key m_def)
qed


end
