(* ===== verification/Corrosion_Stream.thy ===== *)
theory Corrosion_Stream
  imports Ployz_Prelude "HOL-Library.Word"
begin

text \<open>
  The streams of the corrosion client, \<open>crates/ployz-corrosion/src/client.rs\<close>: the decoder that cuts a body into lines
  (\<open>LinesBytesCodec\<close>) and the subscription that survives lost connections (\<open>SubscriptionStream\<close>).

  A buffer is a list of bytes. The decoder's loop is a \<open>function\<close> with a termination proof. \<open>FramedRead\<close> of
  \<open>tokio_util\<close> calls it: it appends what it reads to the buffer and decodes until there is no further line, which is
  \<open>drain\<close>. What the connection yields to the subscription is the datatype \<open>poll_input\<close>.
\<close>

section \<open>Lines\<close>

type_synonym bytes = "8 word list"

abbreviation newline :: "8 word" where
  "newline \<equiv> 10"

abbreviation carriage_return :: "8 word" where
  "carriage_return \<equiv> 13"

record lines_codec =
  lc_next_index :: nat
  lc_max_length :: nat
  lc_is_discarding :: bool

definition usize_max :: nat where
  "usize_max = 2 ^ 64 - 1"

definition lines_codec_default :: lines_codec where
  "lines_codec_default = \<lparr> lc_next_index = 0, lc_max_length = usize_max, lc_is_discarding = False \<rparr>"

datatype codec_error = Codec_Cursor | Max_Line_Length_Exceeded

definition truncate_cr :: "bytes \<Rightarrow> bytes" where
  "truncate_cr line = (if line \<noteq> [] \<and> last line = carriage_return then butlast line else line)"

type_synonym decode_result = "(codec_error, bytes option) result \<times> lines_codec \<times> bytes"

function decode :: "lines_codec \<Rightarrow> bytes \<Rightarrow> decode_result" where
  "decode c buf =
    (let read_to = min (min (lc_max_length c + 1) usize_max) (length buf) in
     if read_to < lc_next_index c then (Inl Codec_Cursor, c, buf)
     else
       let search_window = drop (lc_next_index c) (take read_to buf);
           newline_offset = position (\<lambda>b. b = newline) search_window
       in case newline_offset of
            Some offset \<Rightarrow>
              if lc_is_discarding c
              then decode (c\<lparr>lc_is_discarding := False, lc_next_index := 0\<rparr>) (drop (offset + lc_next_index c + 1) buf)
              else
                let newline_index = offset + lc_next_index c;
                    line = take newline_index buf
                in (Inr (Some (truncate_cr line)), c\<lparr>lc_next_index := 0\<rparr>, drop (newline_index + 1) buf)
          | None \<Rightarrow>
              if lc_is_discarding c
              then
                (let buf' = drop read_to buf; c' = c\<lparr>lc_next_index := 0\<rparr>
                 in if buf' = [] then (Inr None, c', buf') else decode c' buf')
              else if lc_max_length c < length buf then (Inl Max_Line_Length_Exceeded, c\<lparr>lc_is_discarding := True\<rparr>, buf)
              else (Inr None, c\<lparr>lc_next_index := read_to\<rparr>, buf))"
  by pat_completeness auto
termination
  by (relation "measure (\<lambda>(c, buf). length buf)") (auto simp: usize_max_def min_def dest!: position_Some[OF sym] split: if_splits)

declare decode.simps [simp del]

definition decode_eof :: "lines_codec \<Rightarrow> bytes \<Rightarrow> decode_result" where
  "decode_eof c buf = (case decode c buf of
      (Inl e, c, buf) \<Rightarrow> (Inl e, c, buf)
    | (Inr (Some frame), c, buf) \<Rightarrow> (Inr (Some frame), c, buf)
    | (Inr None, c, buf) \<Rightarrow>
        if buf = [] \<or> buf = [carriage_return] then (Inr None, c, buf)
        else
          let line = take (length buf) buf; line = take (length line - 1) line
          in (Inr (Some (truncate_cr line)), c\<lparr>lc_next_index := 0\<rparr>, []))"

lemma decode_shrinks: "decode c buf = (Inr (Some line), c', buf') \<Longrightarrow> length buf' < length buf"
proof (induction c buf rule: decode.induct)
  case (1 c buf)
  let ?r = "min (min (lc_max_length c + 1) usize_max) (length buf)"
  let ?w = "drop (lc_next_index c) (take ?r buf)"
  have r: "\<not> ?r < lc_next_index c" using "1.prems" by (auto simp: decode.simps[of c buf] Let_def split: if_splits)
  show ?case
  proof (cases "position (\<lambda>b. b = newline) ?w")
    case (Some offset)
    then have nonempty: "buf \<noteq> []" by (auto dest: position_Some)
    show ?thesis
    proof (cases "lc_is_discarding c")
      case True
      then have "length buf' < length (drop (offset + lc_next_index c + 1) buf)"
        using "1.IH"(2)[OF refl r refl refl Some True] "1.prems" Some r
        by (simp add: decode.simps[of c buf] Let_def)
      then show ?thesis by simp
    next
      case False
      then show ?thesis using "1.prems" Some r nonempty by (auto simp: decode.simps[of c buf] Let_def)
    qed
  next
    case None
    then have d: "lc_is_discarding c" "drop ?r buf \<noteq> []"
      using "1.prems" r by (auto simp: decode.simps[of c buf] Let_def split: if_splits)
    have "decode (c\<lparr>lc_next_index := 0\<rparr>) (drop ?r buf) = (Inr (Some line), c', buf')"
      using "1.prems" None r d by (auto simp: decode.simps[of c buf] Let_def split: if_splits)
    from "1.IH"(1)[OF refl r refl refl None d(1) refl refl d(2) this] show ?thesis by simp
  qed
qed

text \<open>Decoding until there is no further line, and reading a body chunk by chunk.\<close>

function drain :: "lines_codec \<Rightarrow> bytes \<Rightarrow> (codec_error, bytes list) result \<times> lines_codec \<times> bytes" where
  "drain c buf = (case decode c buf of
      (Inl e, c', buf') \<Rightarrow> (Inl e, c', buf')
    | (Inr None, c', buf') \<Rightarrow> (Inr [], c', buf')
    | (Inr (Some line), c', buf') \<Rightarrow> (case drain c' buf' of
        (Inr lines, c'', buf'') \<Rightarrow> (Inr (line # lines), c'', buf'')
      | (Inl e, c'', buf'') \<Rightarrow> (Inl e, c'', buf'')))"
  by pat_completeness auto
termination
  by (relation "measure (\<lambda>(c, buf). length buf)") (auto dest: decode_shrinks[OF sym])

declare drain.simps [simp del]

fun read_chunks :: "lines_codec \<Rightarrow> bytes \<Rightarrow> bytes list \<Rightarrow> (codec_error, bytes list) result \<times> lines_codec \<times> bytes" where
  "read_chunks c buf [] = (Inr [], c, buf)"
| "read_chunks c buf (chunk # chunks) = (case drain c (buf @ chunk) of
      (Inl e, c', buf') \<Rightarrow> (Inl e, c', buf')
    | (Inr lines, c', buf') \<Rightarrow> (case read_chunks c' buf' chunks of
        (Inr lines', c'', buf'') \<Rightarrow> (Inr (lines @ lines'), c'', buf'')
      | (Inl e, c'', buf'') \<Rightarrow> (Inl e, c'', buf'')))"

section \<open>Lines of a text\<close>

text \<open>The reference: the lines that are complete, without their line ends, and what follows the last one.\<close>

function split_lines :: "bytes \<Rightarrow> bytes list \<times> bytes" where
  "split_lines bs = (case position (\<lambda>b. b = newline) bs of
      None \<Rightarrow> ([], bs)
    | Some i \<Rightarrow> (case split_lines (drop (i + 1) bs) of (ls, rest) \<Rightarrow> (truncate_cr (take i bs) # ls, rest)))"
  by pat_completeness auto
termination
  by (relation "measure length") (auto dest: position_Some)

declare split_lines.simps [simp del]

definition codec_inv :: "lines_codec \<Rightarrow> bytes \<Rightarrow> bool" where
  "codec_inv c buf \<longleftrightarrow> \<not> lc_is_discarding c \<and> lc_max_length c = usize_max \<and> length buf \<le> usize_max \<and>
    lc_next_index c \<le> length buf \<and> newline \<notin> set (take (lc_next_index c) buf)"

lemma position_append: "(\<forall>x\<in>set xs. \<not> p x) \<Longrightarrow> position p (xs @ ys) = map_option (\<lambda>i. i + length xs) (position p ys)"
  by (induction xs) (auto simp: option.map_comp comp_def option.map_ident)

lemma decode_exact:
  assumes "codec_inv c buf"
  shows "decode c buf = (case position (\<lambda>b. b = newline) buf of
      Some i \<Rightarrow> (Inr (Some (truncate_cr (take i buf))), c\<lparr>lc_next_index := 0\<rparr>, drop (i + 1) buf)
    | None \<Rightarrow> (Inr None, c\<lparr>lc_next_index := length buf\<rparr>, buf))"
proof -
  have "buf = take (lc_next_index c) buf @ drop (lc_next_index c) buf" by simp
  then have pos: "position (\<lambda>b. b = newline) buf =
      map_option (\<lambda>i. i + lc_next_index c) (position (\<lambda>b. b = newline) (drop (lc_next_index c) buf))"
    using position_append[of "take (lc_next_index c) buf" "\<lambda>b. b = newline" "drop (lc_next_index c) buf"] assms
    by (auto simp: codec_inv_def min_absorb2)
  have "min (min (lc_max_length c + 1) usize_max) (length buf) = length buf" using assms by (simp add: codec_inv_def)
  then show ?thesis
    using assms unfolding pos by (simp add: decode.simps[of c buf] Let_def codec_inv_def split: option.split)
qed

lemma drain_exact:
  "codec_inv c buf \<Longrightarrow> \<exists>c'. drain c buf = (Inr (fst (split_lines buf)), c', snd (split_lines buf)) \<and>
    codec_inv c' (snd (split_lines buf)) \<and> newline \<notin> set (snd (split_lines buf))"
proof (induction buf arbitrary: c rule: split_lines.induct)
  case (1 buf)
  show ?case
  proof (cases "position (\<lambda>b. b = newline) buf")
    case None
    then have "newline \<notin> set buf" by (auto simp: position_None)
    then show ?thesis
      using 1(2) None by (auto simp: drain.simps[of c buf] decode_exact split_lines.simps[of buf] codec_inv_def)
  next
    case (Some i)
    have "codec_inv (c\<lparr>lc_next_index := 0\<rparr>) (drop (i + 1) buf)" using 1(2) by (auto simp: codec_inv_def)
    from 1(1)[OF Some this] obtain c' where
      "drain (c\<lparr>lc_next_index := 0\<rparr>) (drop (i + 1) buf) = (Inr (fst (split_lines (drop (i + 1) buf))), c', snd (split_lines (drop (i + 1) buf)))"
      "codec_inv c' (snd (split_lines (drop (i + 1) buf)))" "newline \<notin> set (snd (split_lines (drop (i + 1) buf)))" by auto
    then show ?thesis
      using 1(2) Some by (auto simp: drain.simps[of c buf] decode_exact split_lines.simps[of buf] split: prod.split)
  qed
qed

lemma split_lines_append:
  "split_lines (xs @ ys) = (case split_lines xs of (ls, r) \<Rightarrow> case split_lines (r @ ys) of (ls', r') \<Rightarrow> (ls @ ls', r'))"
proof (induction xs rule: split_lines.induct)
  case (1 xs)
  show ?case
  proof (cases "position (\<lambda>b. b = newline) xs")
    case None
    then show ?thesis by (simp add: split_lines.simps[of xs] split: prod.split)
  next
    case (Some i)
    have i: "i < length xs" "xs ! i = newline" "\<forall>j<i. xs ! j \<noteq> newline" using position_Some[OF Some] by auto
    have "position (\<lambda>b. b = newline) (xs @ ys) = Some i"
      using Some by (induction xs arbitrary: i) (auto split: if_splits)
    then show ?thesis
      using 1[OF Some] i Some by (simp add: split_lines.simps[of xs] split_lines.simps[of "xs @ ys"] split: prod.split prod.splits)
  qed
qed

lemma split_lines_rest: "length (snd (split_lines xs)) \<le> length xs"
proof (induction xs rule: split_lines.induct)
  case (1 xs)
  show ?case
  proof (cases "position (\<lambda>b. b = newline) xs")
    case (Some i)
    have "length (snd (split_lines (drop (i + 1) xs))) \<le> length (drop (i + 1) xs)" by (rule 1[OF Some])
    also have "\<dots> \<le> length xs" by simp
    finally show ?thesis using Some by (auto simp: split_lines.simps[of xs] split: prod.split)
  qed (simp add: split_lines.simps[of xs])
qed

lemma split_lines_none: "newline \<notin> set xs \<Longrightarrow> split_lines xs = ([], xs)"
  using position_None[of "\<lambda>b. b = newline" xs] by (auto simp: split_lines.simps[of xs])

text \<open>
  C23. The decoder cuts a body into the same lines however the network cuts it into chunks: the frames it yields are exactly
  the complete lines of the whole body, each without its line end, and the bytes after the last newline stay in the buffer.
  It never reports an error, because the default line length is the largest machine integer.
\<close>

theorem codec_chunk_independent:
  assumes "length (concat chunks) \<le> usize_max"
  shows "\<exists>c. read_chunks lines_codec_default [] chunks =
    (Inr (fst (split_lines (concat chunks))), c, snd (split_lines (concat chunks)))"
proof -
  have gen: "\<exists>c'. read_chunks c buf chunks =
      (Inr (fst (split_lines (buf @ concat chunks))), c', snd (split_lines (buf @ concat chunks)))"
    if "codec_inv c buf" "newline \<notin> set buf" "length (buf @ concat chunks) \<le> usize_max" for c buf
    using that
  proof (induction chunks arbitrary: c buf)
    case Nil
    then show ?case by (simp add: split_lines_none)
  next
    case (Cons chunk chunks)
    obtain ls r where s: "split_lines (buf @ chunk) = (ls, r)" by (cases "split_lines (buf @ chunk)")
    have "codec_inv c (buf @ chunk)" using Cons.prems by (auto simp: codec_inv_def)
    then obtain c' where c': "drain c (buf @ chunk) = (Inr ls, c', r)" "codec_inv c' r" "newline \<notin> set r"
      using drain_exact[of c "buf @ chunk"] s by auto
    have "length (r @ concat chunks) \<le> usize_max" using Cons.prems(3) split_lines_rest[of "buf @ chunk"] s by simp
    then obtain c'' where "read_chunks c' r chunks = (Inr (fst (split_lines (r @ concat chunks))), c'', snd (split_lines (r @ concat chunks)))"
      using Cons.IH[OF c'(2,3)] by blast
    then show ?case
      using c'(1) split_lines_append[of "buf @ chunk" "concat chunks"] s by (simp split: prod.split)
  qed
  show ?thesis using gen[of lines_codec_default "[]"] assms by (simp add: codec_inv_def lines_codec_default_def)
qed

theorem codec_chunk_independent_witness:
  "\<exists>c. read_chunks lines_codec_default [] [[97], [98, 13, 10, 99], [10, 100]] = (Inr [[97, 98], [99]], c, [100])"
proof -
  have "length (concat [[97], [98, 13, 10, 99], [10, 100 :: 8 word]]) \<le> usize_max" by (simp add: usize_max_def)
  moreover have "split_lines (concat [[97], [98, 13, 10, 99], [10, 100 :: 8 word]]) = ([[97, 98], [99]], [100])"
    by (simp add: split_lines.simps[of "[97, 98, 13, 10, 99, 10, 100]"] split_lines.simps[of "[99, 10, 100]"]
        split_lines.simps[of "[100]"] truncate_cr_def)
  ultimately show ?thesis using codec_chunk_independent by fastforce
qed

text \<open>At the end of a body without a final newline, the decoder drops the last byte of the last line.\<close>

lemma decode_eof_drops_byte:
  assumes "codec_inv c buf" "newline \<notin> set buf" "buf \<noteq> []" "buf \<noteq> [carriage_return]"
  shows "fst (decode_eof c buf) = Inr (Some (truncate_cr (butlast buf)))"
proof -
  have "position (\<lambda>b. b = newline) buf = None" using assms(2) by (auto simp: position_None)
  then show ?thesis using assms by (simp add: decode_eof_def decode_exact butlast_conv_take)
qed

section \<open>Subscriptions\<close>

datatype change_type = Change_Insert | Change_Update | Change_Delete

datatype 'r query_event =
    Ev_Columns
  | Ev_Row nat 'r
  | Ev_End_Of_Query "nat option"
  | Ev_Change change_type nat 'r nat
  | Ev_Error string

datatype subscription_error = Sub_Io string | Sub_Deserialize | Sub_Missed_Change nat nat | Sub_Max_Line_Length
  | Sub_Unfinished_Query | Sub_Max_Retry_Attempts

record subscription =
  su_observed_eoq :: bool
  su_last_change_id :: "nat option"
  su_connected :: bool
  su_backoff_count :: nat

definition subscription_new :: "nat option \<Rightarrow> subscription" where
  "subscription_new change_id = \<lparr> su_observed_eoq = (change_id \<noteq> None), su_last_change_id = change_id, su_connected = True,
    su_backoff_count = 0 \<rparr>"

text \<open>
  What one poll meets: whether a reconnection, when it is needed, succeeds, and what the body then yields. A line that does
  not parse at the caller's type may still parse as an event of untyped cells.
\<close>

datatype 'r frame = Frame_Event "'r query_event" | Frame_Bad "unit query_event option" | Frame_Too_Long | Frame_Io string | Frame_End

record 'r poll_input =
  pin_reconnect :: "(string, unit) result"
  pin_frame :: "'r frame"

datatype 'r poll_output = Out_Event "'r query_event" | Out_Error subscription_error | Out_End | Out_Pending

definition handle_eoq :: "nat option \<Rightarrow> subscription \<Rightarrow> subscription" where
  "handle_eoq change_id s = s\<lparr>su_observed_eoq := True, su_last_change_id := change_id\<rparr>"

definition handle_change :: "nat \<Rightarrow> subscription \<Rightarrow> (subscription_error, unit) result \<times> subscription" where
  "handle_change change_id s =
    (case su_last_change_id s of
       Some i \<Rightarrow> if i + 1 \<noteq> change_id then (Inl (Sub_Missed_Change (i + 1) change_id), s)
         else (Inr (), s\<lparr>su_last_change_id := Some change_id\<rparr>)
     | None \<Rightarrow> (Inr (), s\<lparr>su_last_change_id := Some change_id\<rparr>))"

definition poll_reconnect :: "(string, unit) result \<Rightarrow> subscription \<Rightarrow> (subscription_error, unit) result" where
  "poll_reconnect answer s =
    (if su_observed_eoq s then (case answer of Inr _ \<Rightarrow> Inr () | Inl e \<Rightarrow> Inl (Sub_Io e)) else Inl Sub_Unfinished_Query)"

fun on_metadata :: "'r query_event \<Rightarrow> subscription \<Rightarrow> (subscription_error, unit) result \<times> subscription" where
  "on_metadata (Ev_End_Of_Query change_id) s = (Inr (), handle_eoq change_id s)"
| "on_metadata (Ev_Change _ _ _ change_id) s = handle_change change_id s"
| "on_metadata _ s = (Inr (), s)"

definition poll_stream :: "'r poll_input \<Rightarrow> subscription \<Rightarrow> 'r poll_output \<times> subscription" where
  "poll_stream inp s =
    (case (if su_connected s then Inr () else poll_reconnect (pin_reconnect inp) s) of
       Inl e \<Rightarrow> (Out_Error e, s)
     | Inr _ \<Rightarrow>
         let s = s\<lparr>su_connected := True\<rparr> in
         (case pin_frame inp of
            Frame_Event evt \<Rightarrow> (case on_metadata evt s of
                (Inr _, s') \<Rightarrow> (Out_Event evt, s')
              | (Inl e, s') \<Rightarrow> (Out_Error e, s'))
          | Frame_Bad untyped \<Rightarrow>
              (Out_Error Sub_Deserialize, case untyped of Some evt \<Rightarrow> snd (on_metadata evt s) | None \<Rightarrow> s)
          | Frame_Too_Long \<Rightarrow> (Out_Error Sub_Max_Line_Length, s)
          | Frame_Io e \<Rightarrow> (Out_Error (Sub_Io e), s)
          | Frame_End \<Rightarrow> (Out_End, s)))"

definition poll_next :: "'r poll_input \<Rightarrow> subscription \<Rightarrow> 'r poll_output \<times> subscription" where
  "poll_next inp s =
    (case poll_stream inp s of
       (Out_Error (Sub_Io e), s') \<Rightarrow>
         let s' = s'\<lparr>su_connected := False\<rparr> in
         if su_backoff_count s' \<ge> 10 then (Out_Error Sub_Max_Retry_Attempts, s')
         else (Out_Pending, s'\<lparr>su_backoff_count := su_backoff_count s' + 1\<rparr>)
     | (out, s') \<Rightarrow> (out, s'\<lparr>su_backoff_count := 0\<rparr>))"

text \<open>The events a consumer sees that stops at the first error and at the end of the stream, as both consumers do.\<close>

fun delivered :: "'r poll_input list \<Rightarrow> subscription \<Rightarrow> 'r query_event list \<times> subscription" where
  "delivered [] s = ([], s)"
| "delivered (inp # inps) s = (case poll_next inp s of
      (Out_Event evt, s') \<Rightarrow> (case delivered inps s' of (evts, s'') \<Rightarrow> (evt # evts, s''))
    | (Out_Pending, s') \<Rightarrow> delivered inps s'
    | (Out_Error _, s') \<Rightarrow> ([], s')
    | (Out_End, s') \<Rightarrow> ([], s'))"

fun consecutive :: "nat option \<Rightarrow> 'r query_event list \<Rightarrow> bool" where
  "consecutive prev [] = True"
| "consecutive prev (Ev_End_Of_Query i # evts) = consecutive i evts"
| "consecutive prev (Ev_Change _ _ _ i # evts) = ((case prev of Some l \<Rightarrow> i = l + 1 | None \<Rightarrow> True) \<and> consecutive (Some i) evts)"
| "consecutive prev (_ # evts) = consecutive prev evts"

definition change_ids :: "'r query_event list \<Rightarrow> nat list" where
  "change_ids evts = concat (map (\<lambda>ev. case ev of Ev_Change _ _ _ i \<Rightarrow> [i] | _ \<Rightarrow> []) evts)"

lemma poll_next_event:
  assumes "poll_next inp s = (Out_Event evt, s')"
  shows "consecutive (su_last_change_id s) (evt # evts) \<longleftrightarrow> consecutive (su_last_change_id s') evts"
proof -
  let ?s = "s\<lparr>su_connected := True\<rparr>"
  obtain t where "on_metadata evt ?s = (Inr (), t)" "s' = t\<lparr>su_backoff_count := 0\<rparr>"
    using assms by (auto simp: poll_next_def poll_stream_def Let_def split: if_splits sum.splits frame.splits prod.splits
        poll_output.splits subscription_error.splits option.splits)
  then show ?thesis
    by (cases evt) (auto simp: handle_eoq_def handle_change_def split: option.splits if_splits)
qed

lemma on_metadata_error: "on_metadata evt s = (Inl e, t) \<Longrightarrow> t = s"
  by (cases evt) (auto simp: handle_change_def split: option.splits if_splits)

lemma poll_next_pending: "poll_next inp s = (Out_Pending, s') \<Longrightarrow> su_last_change_id s' = su_last_change_id s"
  by (auto dest!: on_metadata_error simp: poll_next_def poll_stream_def Let_def split: if_splits sum.splits frame.splits prod.splits
      poll_output.splits subscription_error.splits option.splits)

lemma delivered_consecutive: "consecutive (su_last_change_id s) (fst (delivered inps s))"
proof (induction inps arbitrary: s)
  case (Cons inp inps)
  obtain out s' where run: "poll_next inp s = (out, s')" by (cases "poll_next inp s")
  show ?case
  proof (cases out)
    case (Out_Event evt)
    have "fst (delivered (inp # inps) s) = evt # fst (delivered inps s')" using run Out_Event by (simp split: prod.split)
    then show ?thesis using poll_next_event[of inp s evt s'] run Out_Event Cons.IH[of s'] by simp
  next
    case Out_Pending
    then show ?thesis using run poll_next_pending[of inp s s'] Cons.IH[of s'] by simp
  qed (use run in simp_all)
qed simp

lemma consecutive_append: "consecutive l (xs @ Ev_End_Of_Query k # ys) \<Longrightarrow> consecutive k ys"
  by (induction l xs rule: consecutive.induct) auto

lemma consecutive_ids:
  "consecutive (Some k) evts \<Longrightarrow> (\<And>i. Ev_End_Of_Query i \<notin> set evts) \<Longrightarrow> change_ids evts = [k + 1..<k + 1 + length (change_ids evts)]"
proof (induction evts arbitrary: k)
  case (Cons evt evts)
  show ?case
  proof (cases evt)
    case (Ev_Change c row r i)
    have "change_ids evts = [i + 1..<i + 1 + length (change_ids evts)]"
      by (rule Cons.IH) (use Cons.prems Ev_Change in auto)
    moreover have "i = k + 1" using Cons.prems Ev_Change by simp
    moreover have "change_ids (evt # evts) = i # change_ids evts" using Ev_Change by (simp add: change_ids_def)
    ultimately show ?thesis using upt_conv_Cons[of "k + 1" "k + 1 + Suc (length (change_ids evts))"] by simp
  next
    case (Ev_End_Of_Query i)
    then show ?thesis using Cons.prems(2)[of i] by simp
  qed (use Cons in \<open>auto simp: change_ids_def\<close>)
qed (simp add: change_ids_def)

text \<open>
  C21. A subscription never skips or repeats a change. Whatever the connection does - dropped bodies, failed and successful
  reconnections, malformed lines, changes sent twice or left out by the server - the changes a consumer is given after the
  initial rows are numbered one after the other from the position the initial rows ended at; anything else reaches it as
  an error, where it stops.
\<close>

theorem subscription_no_gap:
  assumes "fst (delivered inps (subscription_new None)) = initial @ Ev_End_Of_Query (Some k) # changes"
    and "\<And>i. Ev_End_Of_Query i \<notin> set changes"
  shows "change_ids changes = [k + 1..<k + 1 + length (change_ids changes)]"
proof -
  have "consecutive None (initial @ Ev_End_Of_Query (Some k) # changes)"
    using delivered_consecutive[of "subscription_new None" inps] assms(1) by (simp add: subscription_new_def)
  from consecutive_ids[OF consecutive_append[OF this] assms(2)] show ?thesis .
qed

theorem subscription_no_gap_witness:
  "change_ids [Ev_Change Change_Insert 1 ''a'' 6, Ev_Change Change_Update 1 ''b'' 7] = [6, 7]"
proof -
  let ?ok = "\<lambda>f. \<lparr> pin_reconnect = Inr (), pin_frame = f \<rparr>"
  have "fst (delivered [?ok (Frame_Event (Ev_End_Of_Query (Some 5))), ?ok (Frame_Event (Ev_Change Change_Insert 1 ''a'' 6)),
      ?ok (Frame_Io ''reset''), ?ok (Frame_Event (Ev_Change Change_Update 1 ''b'' 7))] (subscription_new None)) =
      [] @ Ev_End_Of_Query (Some 5) # [Ev_Change Change_Insert 1 ''a'' 6, Ev_Change Change_Update 1 ''b'' 7]"
    by (simp add: subscription_new_def poll_next_def poll_stream_def handle_eoq_def handle_change_def poll_reconnect_def)
  from subscription_no_gap[OF this] show ?thesis by (simp add: change_ids_def)
qed

text \<open>A body that ends cleanly ends the subscription, while one that breaks off is resumed.\<close>

lemma clean_end_not_resumed:
  "su_connected s \<Longrightarrow> fst (poll_next \<lparr> pin_reconnect = r, pin_frame = Frame_End \<rparr> s) = Out_End"
  by (simp add: poll_next_def poll_stream_def)

end
