(* ===== verification/Corrosion_Store.thy ===== *)
theory Corrosion_Store
  imports Routing_Sync Corrosion_Stream
begin

text \<open>
  The replicated store, \<open>crates/ployz-corrosion/src/store\<close>: the tables of \<open>tables/\<close>, the commit of
  \<open>workflows/deploy_commit.rs\<close>, the subscriptions of \<open>tables/machines.rs\<close> and \<open>workflows/routing_state.rs\<close>, and the
  helpers of \<open>shared/\<close>.

  The statements of the source are the datatype \<open>sql\<close>, one constructor for each shape of statement it sends; \<open>sql_exec\<close>
  and \<open>sql_select\<close> are what they mean over the tables of \<open>schema.sql\<close>. A table maps the key columns of a row to its
  other columns, the payload last, in the order of the keys. The database behind the client is the parameter
  \<open>corr_client\<close>; the locale \<open>corrosion_db\<close> states what its documentation promises: a request runs its statements in
  order, a query yields its rows and then the end of the query, or breaks off with an error. The JSON of a record is the
  parameter \<open>json_codec\<close>.
\<close>

section \<open>Values, statements and tables\<close>

datatype sqlite_value = Sql_Null | Sql_Integer int | Sql_Text string

datatype exec_result = Exec_Execute nat | Exec_Error string

datatype corr_error = Operation string string

datatype corro_table = Machines | Invites | Service_Revisions | Service_Releases | Instance_Status | Deploys

type_synonym sql_rows = "(string list, string list) btree_map"

type_synonym corro_tables = "corro_table \<Rightarrow> sql_rows"

datatype sql_filter = All_Rows | Of_Namespace string | Of_Key "string list"

text \<open>
  \<open>Select t f\<close>: the published rows of \<open>t\<close> that pass \<open>f\<close>. \<open>Upsert\<close>: insert, or update the other columns on a
  conflict of the key; \<open>Upsert_Unpublished\<close>: the same, but a payload that is there stays. \<open>Insert\<close>: fails on a
  conflict. \<open>Delete_Unexpired\<close>: delete a published row whose expiry is not past.
\<close>

datatype sql =
    Select corro_table sql_filter
  | Upsert corro_table "string list" "string list"
  | Upsert_Unpublished corro_table "string list" "string list"
  | Insert corro_table "string list" "string list"
  | Delete corro_table "string list"
  | Delete_Unexpired corro_table "string list" int

definition published :: "string list \<Rightarrow> bool" where
  "published row \<longleftrightarrow> last row \<noteq> []"

fun namespace_column :: "corro_table \<Rightarrow> string list \<Rightarrow> string list \<Rightarrow> string" where
  "namespace_column Instance_Status key row = hd row"
| "namespace_column Deploys key row = hd row"
| "namespace_column _ key row = hd key"

fun passes :: "corro_table \<Rightarrow> sql_filter \<Rightarrow> string list \<times> string list \<Rightarrow> bool" where
  "passes t All_Rows _ = True"
| "passes t (Of_Namespace ns) (key, row) = (namespace_column t key row = ns)"
| "passes t (Of_Key k) (key, row) = (key = k)"

text \<open>The order of the rows: by the key, except for the instances, which come by namespace, service and machine.\<close>

definition row_order :: "corro_table \<Rightarrow> string list \<times> string list \<Rightarrow> string list" where
  "row_order t kr = (case kr of (key, row) \<Rightarrow> if t = Instance_Status then butlast row @ key else key)"

definition sql_select :: "corro_table \<Rightarrow> sql_filter \<Rightarrow> corro_tables \<Rightarrow> sqlite_value list list" where
  "sql_select t f db =
    map (\<lambda>(key, row). map Sql_Text (key @ row))
      (sort_key (row_order t) (filter (\<lambda>(key, row). published row \<and> passes t f (key, row)) (db t)))"

text \<open>\<open>expires\<close> reads the field \<open>expires_at\<close> out of a payload.\<close>

fun sql_exec :: "(string \<Rightarrow> int option) \<Rightarrow> sql \<Rightarrow> corro_tables \<Rightarrow> exec_result \<times> corro_tables" where
  "sql_exec expires (Upsert t key row) db = (Exec_Execute 1, db(t := bt_insert key row (db t)))"
| "sql_exec expires (Upsert_Unpublished t key row) db =
    (case bt_get (db t) key of
       Some old \<Rightarrow> (Exec_Execute 1, db(t := bt_insert key (if published old then old else row) (db t)))
     | None \<Rightarrow> (Exec_Execute 1, db(t := bt_insert key row (db t))))"
| "sql_exec expires (Insert t key row) db =
    (if bt_contains (db t) key then (Exec_Error ''UNIQUE constraint failed'', db)
     else (Exec_Execute 1, db(t := bt_insert key row (db t))))"
| "sql_exec expires (Delete t key) db =
    (Exec_Execute (if bt_contains (db t) key then 1 else 0), db(t := bt_remove key (db t)))"
| "sql_exec expires (Delete_Unexpired t key now) db =
    (case bt_get (db t) key of
       Some row \<Rightarrow> (case expires (last row) of
           Some e \<Rightarrow> if published row \<and> now \<le> e then (Exec_Execute 1, db(t := bt_remove key (db t))) else (Exec_Execute 0, db)
         | None \<Rightarrow> (Exec_Execute 0, db))
     | None \<Rightarrow> (Exec_Execute 0, db))"
| "sql_exec expires (Select t f) db = (Exec_Execute 0, db)"

fun sql_run :: "(string \<Rightarrow> int option) \<Rightarrow> sql list \<Rightarrow> corro_tables \<Rightarrow> exec_result list \<times> corro_tables" where
  "sql_run expires [] db = ([], db)"
| "sql_run expires (q # qs) db = (case sql_exec expires q db of (r, db') \<Rightarrow>
    (case sql_run expires qs db' of (rs, db'') \<Rightarrow> (r # rs, db'')))"

section \<open>The client\<close>

type_synonym cells = "sqlite_value list"

datatype stream_item = Item_Event "cells query_event" | Item_Error string | Item_Timeout

record 'd corr_client =
  cc_execute :: "sql list \<Rightarrow> ('d, string, exec_result list) action"
  cc_query :: "sql \<Rightarrow> ('d, string, stream_item list) action"

fun collect_rows :: "string \<Rightarrow> stream_item list \<Rightarrow> (corr_error, cells list) result" where
  "collect_rows op [] = Inr []"
| "collect_rows op (Item_Timeout # items) = Inl (Operation op ''timed out waiting for query event'')"
| "collect_rows op (Item_Error e # items) = Inl (Operation op e)"
| "collect_rows op (Item_Event ev # items) = (case ev of
      Ev_Row _ row \<Rightarrow> bind_res (collect_rows op items) (\<lambda>rows. Inr (row # rows))
    | Ev_End_Of_Query _ \<Rightarrow> Inr []
    | Ev_Error e \<Rightarrow> Inl (Operation op e)
    | Ev_Columns \<Rightarrow> collect_rows op items
    | Ev_Change _ _ _ _ \<Rightarrow> collect_rows op items)"

definition query_rows :: "'d corr_client \<Rightarrow> sql \<Rightarrow> string \<Rightarrow> ('d, corr_error, cells list) action" where
  "query_rows cc stmt op =
    bind_act (map_err_act (Operation op) (cc_query cc stmt)) (\<lambda>items. lift_res (collect_rows op items))"

definition exec_one :: "'d corr_client \<Rightarrow> sql list \<Rightarrow> string \<Rightarrow> ('d, corr_error, unit) action" where
  "exec_one cc stmts op =
    bind_act (map_err_act (Operation op) (cc_execute cc stmts)) (\<lambda>results. case results of
      Exec_Execute _ # _ \<Rightarrow> ret_act ()
    | Exec_Error e # _ \<Rightarrow> fail_act (Operation op e)
    | [] \<Rightarrow> fail_act (Operation op ''no result''))"

fun exec_error :: "exec_result \<Rightarrow> string option" where
  "exec_error (Exec_Error e) = Some e"
| "exec_error (Exec_Execute _) = None"

definition exec_all :: "'d corr_client \<Rightarrow> sql list \<Rightarrow> string \<Rightarrow> ('d, corr_error, unit) action" where
  "exec_all cc stmts op =
    bind_act (map_err_act (Operation op) (cc_execute cc stmts)) (\<lambda>results.
      case List.map_filter exec_error results of
        e # _ \<Rightarrow> fail_act (Operation op e)
      | [] \<Rightarrow> ret_act ())"

definition sql_text :: "sqlite_value \<Rightarrow> string \<Rightarrow> (corr_error, string) result" where
  "sql_text val field = (case val of Sql_Text s \<Rightarrow> Inr s | _ \<Rightarrow> Inl (Operation ''decode'' (''expected text for '' @ quoted field)))"

section \<open>The tables\<close>

record 'r codec =
  co_encode :: "'r \<Rightarrow> (string, string) result"
  co_decode :: "string \<Rightarrow> (string, 'r) result"

record json_codec =
  js_machine :: "machine_record codec"
  js_invite :: "invite_record codec"
  js_revision :: "service_revision_record codec"
  js_release :: "service_release_record codec"
  js_instance :: "instance_status_record codec"
  js_deploy :: "deploy_record codec"

text \<open>The key columns of a record, and its other columns before the payload.\<close>

definition machine_key :: "machine_record \<Rightarrow> string list" where
  "machine_key r = [machine_id_str (mr_id r)]"

definition revision_key_cols :: "service_revision_record \<Rightarrow> string list" where
  "revision_key_cols r = [namespace_str (rv_namespace r), rv_service r, rv_revision_hash r]"

definition release_key_cols :: "service_release_record \<Rightarrow> string list" where
  "release_key_cols r = [namespace_str (rr_namespace r), rr_service r]"

definition instance_key_cols :: "instance_status_record \<Rightarrow> string list" where
  "instance_key_cols r = [instance_id_str (is_instance_id r)]"

definition instance_cols :: "instance_status_record \<Rightarrow> string list" where
  "instance_cols r = [namespace_str (is_namespace r), is_service r, machine_id_str (is_machine_id r)]"

definition deploy_key_cols :: "deploy_record \<Rightarrow> string list" where
  "deploy_key_cols r = [deploy_id_str (dr_deploy_id r)]"

definition deploy_cols :: "deploy_record \<Rightarrow> string list" where
  "deploy_cols r = [namespace_str (dr_namespace r)]"

text \<open>
  The parsers of a row have one form: the number of columns, the text of each, the record of the payload, and the
  columns before the payload compared with those of the record.
\<close>

definition parse_row ::
    "string \<Rightarrow> string list \<Rightarrow> 'r codec \<Rightarrow> ('r \<Rightarrow> string list) \<Rightarrow> ('r \<Rightarrow> string list \<Rightarrow> string) \<Rightarrow> cells \<Rightarrow> (corr_error, 'r) result" where
  "parse_row op names co cols mismatch row =
    (if length row \<noteq> length names
     then Inl (Operation op (''expected '' @ fmt_dec (length names) @ '' columns, got '' @ fmt_dec (length row)))
     else bind_res (map_res (\<lambda>(val, field). sql_text val field) (zip row names)) (\<lambda>texts.
       bind_res (map_err (\<lambda>e. Operation op (''decode payload: '' @ e)) (co_decode co (last texts))) (\<lambda>r.
       if cols r \<noteq> butlast texts then Inl (Operation op (mismatch r (butlast texts))) else Inr r)))"

definition parse_machine_row :: "json_codec \<Rightarrow> cells \<Rightarrow> (corr_error, machine_record) result" where
  "parse_machine_row js = parse_row ''parse_machine_row'' [''machine_id'', ''payload_json''] (js_machine js) machine_key
    (\<lambda>r key. ''machine_id mismatch between key '' @ quoted (hd key) @ '' and payload '' @ quoted (machine_id_str (mr_id r)))"

definition parse_service_revision :: "json_codec \<Rightarrow> cells \<Rightarrow> (corr_error, service_revision_record) result" where
  "parse_service_revision js =
    parse_row ''parse_service_revision'' [''namespace'', ''service'', ''revision_hash'', ''payload_json'']
      (js_revision js) revision_key_cols (\<lambda>_ _. ''revision key mismatch between row and payload'')"

definition parse_service_release :: "json_codec \<Rightarrow> cells \<Rightarrow> (corr_error, service_release_record) result" where
  "parse_service_release js =
    parse_row ''parse_service_release'' [''namespace'', ''service'', ''payload_json'']
      (js_release js) release_key_cols (\<lambda>_ _. ''service release key mismatch between row and payload'')"

definition parse_instance_status :: "json_codec \<Rightarrow> cells \<Rightarrow> (corr_error, instance_status_record) result" where
  "parse_instance_status js =
    parse_row ''parse_instance_status'' [''instance_id'', ''namespace'', ''service'', ''machine_id'', ''payload_json'']
      (js_instance js) (\<lambda>r. instance_key_cols r @ instance_cols r)
      (\<lambda>_ _. ''instance status key mismatch between row and payload'')"

definition parse_deploy :: "json_codec \<Rightarrow> cells \<Rightarrow> (corr_error, deploy_record) result" where
  "parse_deploy js =
    parse_row ''parse_deploy'' [''deploy_id'', ''namespace'', ''payload_json'']
      (js_deploy js) (\<lambda>r. deploy_key_cols r @ deploy_cols r) (\<lambda>_ _. ''deploy key mismatch between row and payload'')"

definition query_records ::
    "'d corr_client \<Rightarrow> sql \<Rightarrow> string \<Rightarrow> (cells \<Rightarrow> (corr_error, 'r) result) \<Rightarrow> ('d, corr_error, 'r list) action" where
  "query_records cc stmt op parse = bind_act (query_rows cc stmt op) (\<lambda>rows. lift_res (map_res parse rows))"

definition corr_list_machines :: "'d corr_client \<Rightarrow> json_codec \<Rightarrow> ('d, corr_error, machine_record list) action" where
  "corr_list_machines cc js = query_records cc (Select Machines All_Rows) ''list_machines'' (parse_machine_row js)"

definition encode_as :: "string \<Rightarrow> 'r codec \<Rightarrow> 'r \<Rightarrow> (corr_error, string) result" where
  "encode_as op co r = map_err (\<lambda>e. Operation op (''serialize: '' @ e)) (co_encode co r)"

definition corr_upsert_self_machine :: "'d corr_client \<Rightarrow> json_codec \<Rightarrow> machine_record \<Rightarrow> ('d, corr_error, unit) action" where
  "corr_upsert_self_machine cc js r =
    bind_act (lift_res (encode_as ''upsert_self_machine'' (js_machine js) r)) (\<lambda>payload.
    exec_one cc [Upsert Machines (machine_key r) [payload]] ''upsert_self_machine'')"

definition corr_delete_machine :: "'d corr_client \<Rightarrow> machine_id \<Rightarrow> ('d, corr_error, unit) action" where
  "corr_delete_machine cc i = exec_one cc [Delete Machines [machine_id_str i]] ''delete_machine''"

definition load_all_service_revisions :: "'d corr_client \<Rightarrow> json_codec \<Rightarrow> ('d, corr_error, service_revision_record list) action" where
  "load_all_service_revisions cc js =
    query_records cc (Select Service_Revisions All_Rows) ''load_all_service_revisions'' (parse_service_revision js)"

definition corr_list_service_revisions ::
    "'d corr_client \<Rightarrow> json_codec \<Rightarrow> namespace \<Rightarrow> ('d, corr_error, service_revision_record list) action" where
  "corr_list_service_revisions cc js ns =
    query_records cc (Select Service_Revisions (Of_Namespace (namespace_str ns))) ''list_service_revisions'' (parse_service_revision js)"

definition corr_upsert_service_revision :: "'d corr_client \<Rightarrow> json_codec \<Rightarrow> service_revision_record \<Rightarrow> ('d, corr_error, unit) action" where
  "corr_upsert_service_revision cc js r =
    bind_act (lift_res (encode_as ''upsert_service_revision'' (js_revision js) r)) (\<lambda>payload.
    exec_one cc [Upsert_Unpublished Service_Revisions (revision_key_cols r) [payload]] ''upsert_service_revision'')"

definition load_all_service_releases :: "'d corr_client \<Rightarrow> json_codec \<Rightarrow> ('d, corr_error, service_release_record list) action" where
  "load_all_service_releases cc js =
    query_records cc (Select Service_Releases All_Rows) ''load_all_service_releases'' (parse_service_release js)"

definition corr_list_service_releases ::
    "'d corr_client \<Rightarrow> json_codec \<Rightarrow> namespace \<Rightarrow> ('d, corr_error, service_release_record list) action" where
  "corr_list_service_releases cc js ns =
    query_records cc (Select Service_Releases (Of_Namespace (namespace_str ns))) ''list_service_releases'' (parse_service_release js)"

definition release_delete_statement :: "namespace \<Rightarrow> string \<Rightarrow> sql" where
  "release_delete_statement ns service = Delete Service_Releases [namespace_str ns, service]"

definition release_upsert_statement :: "json_codec \<Rightarrow> service_release_record \<Rightarrow> (corr_error, sql) result" where
  "release_upsert_statement js r =
    bind_res (encode_as ''upsert_service_release'' (js_release js) r) (\<lambda>payload.
    Inr (Upsert Service_Releases (release_key_cols r) [payload]))"

definition corr_upsert_service_release :: "'d corr_client \<Rightarrow> json_codec \<Rightarrow> service_release_record \<Rightarrow> ('d, corr_error, unit) action" where
  "corr_upsert_service_release cc js r =
    bind_act (lift_res (release_upsert_statement js r)) (\<lambda>stmt. exec_one cc [stmt] ''upsert_service_release'')"

definition corr_delete_service_release :: "'d corr_client \<Rightarrow> namespace \<Rightarrow> string \<Rightarrow> ('d, corr_error, unit) action" where
  "corr_delete_service_release cc ns service = exec_one cc [release_delete_statement ns service] ''delete_service_release''"

definition load_all_instance_status :: "'d corr_client \<Rightarrow> json_codec \<Rightarrow> ('d, corr_error, instance_status_record list) action" where
  "load_all_instance_status cc js =
    query_records cc (Select Instance_Status All_Rows) ''load_all_instance_status'' (parse_instance_status js)"

definition corr_list_instance_status ::
    "'d corr_client \<Rightarrow> json_codec \<Rightarrow> namespace \<Rightarrow> ('d, corr_error, instance_status_record list) action" where
  "corr_list_instance_status cc js ns =
    query_records cc (Select Instance_Status (Of_Namespace (namespace_str ns))) ''list_instance_status'' (parse_instance_status js)"

definition corr_upsert_instance_status :: "'d corr_client \<Rightarrow> json_codec \<Rightarrow> instance_status_record \<Rightarrow> ('d, corr_error, unit) action" where
  "corr_upsert_instance_status cc js r =
    bind_act (lift_res (encode_as ''upsert_instance_status'' (js_instance js) r)) (\<lambda>payload.
    exec_one cc [Upsert Instance_Status (instance_key_cols r) (instance_cols r @ [payload])] ''upsert_instance_status'')"

definition corr_delete_instance_status :: "'d corr_client \<Rightarrow> instance_id \<Rightarrow> ('d, corr_error, unit) action" where
  "corr_delete_instance_status cc i = exec_one cc [Delete Instance_Status [instance_id_str i]] ''delete_instance_status''"

definition deploy_upsert_statement :: "json_codec \<Rightarrow> deploy_record \<Rightarrow> (corr_error, sql) result" where
  "deploy_upsert_statement js r =
    bind_res (encode_as ''upsert_deploy'' (js_deploy js) r) (\<lambda>payload.
    Inr (Upsert Deploys (deploy_key_cols r) (deploy_cols r @ [payload])))"

definition corr_upsert_deploy :: "'d corr_client \<Rightarrow> json_codec \<Rightarrow> deploy_record \<Rightarrow> ('d, corr_error, unit) action" where
  "corr_upsert_deploy cc js r =
    bind_act (lift_res (deploy_upsert_statement js r)) (\<lambda>stmt. exec_one cc [stmt] ''upsert_deploy'')"

definition corr_get_deploy :: "'d corr_client \<Rightarrow> json_codec \<Rightarrow> deploy_id \<Rightarrow> ('d, corr_error, deploy_record option) action" where
  "corr_get_deploy cc js i =
    bind_act (query_rows cc (Select Deploys (Of_Key [deploy_id_str i])) ''get_deploy'') (\<lambda>rows. case rows of
      [] \<Rightarrow> ret_act None
    | row # _ \<Rightarrow> bind_act (lift_res (parse_deploy js row)) (\<lambda>r. ret_act (Some r)))"

section \<open>Invites\<close>

fun contains_str :: "string \<Rightarrow> string \<Rightarrow> bool" where
  "contains_str pat [] = (pat = [])"
| "contains_str pat (c # s) = (take (length pat) (c # s) = pat \<or> contains_str pat s)"

definition corr_create_invite :: "'d corr_client \<Rightarrow> json_codec \<Rightarrow> invite_record \<Rightarrow> ('d, corr_error, unit) action" where
  "corr_create_invite cc js invite =
    bind_act (lift_res (encode_as ''create_invite'' (js_invite js) invite)) (\<lambda>payload.
    bind_act (map_err_act (Operation ''create_invite'') (cc_execute cc [Insert Invites [ir_id invite] [payload]])) (\<lambda>results.
    case results of
      Exec_Error e # _ \<Rightarrow>
        if contains_str ''UNIQUE'' e then fail_act (Operation ''invite_exists'' e) else fail_act (Operation ''create_invite'' e)
    | Exec_Execute _ # _ \<Rightarrow> ret_act ()
    | [] \<Rightarrow> fail_act (Operation ''create_invite'' ''no result'')))"

text \<open>The clock is a 64-bit number that the query compares as a signed one.\<close>

definition as_i64 :: "timestamp \<Rightarrow> int" where
  "as_i64 now = sint (word_of_nat now :: 64 word)"

definition corr_consume_invite :: "'d corr_client \<Rightarrow> string \<Rightarrow> timestamp \<Rightarrow> ('d, corr_error, unit) action" where
  "corr_consume_invite cc i now =
    bind_act (map_err_act (Operation ''consume_invite'') (cc_execute cc [Delete_Unexpired Invites [i] (as_i64 now)])) (\<lambda>results.
    let missing =
      bind_act (query_rows cc (Select Invites (Of_Key [i])) ''consume_invite'') (\<lambda>rows.
      if rows = [] then fail_act (Operation ''invite_not_found'' (''invite '' @ quoted i @ '' not found'')) else fail_act (Operation ''invite_expired'' (''invite '' @ quoted i @ '' is expired'')))
    in case results of
      Exec_Execute n # _ \<Rightarrow> if n = 1 then ret_act () else missing
    | Exec_Error e # _ \<Rightarrow> fail_act (Operation ''consume_invite'' e)
    | [] \<Rightarrow> missing)"

section \<open>The commit\<close>

text \<open>The removed services as given, then each released service that is not among them, once.\<close>

definition corr_touched_services :: "deploy_commit \<Rightarrow> string list" where
  "corr_touched_services c =
    fold (\<lambda>r touched. if rr_service r \<in> set touched then touched else touched @ [rr_service r]) (dc_releases c) (dc_removed_services c)"

definition build_commit_statements :: "json_codec \<Rightarrow> deploy_commit \<Rightarrow> (corr_error, sql list) result" where
  "build_commit_statements js c =
    (let deletes = map (release_delete_statement (dc_namespace c)) (corr_touched_services c) in
     bind_res (map_res (release_upsert_statement js) (dc_releases c)) (\<lambda>upserts.
     bind_res (deploy_upsert_statement js (dc_deploy c)) (\<lambda>deploy.
     Inr (deletes @ upserts @ [deploy]))))"

definition corr_apply_deploy_commit :: "'d corr_client \<Rightarrow> json_codec \<Rightarrow> deploy_commit \<Rightarrow> ('d, corr_error, unit) action" where
  "corr_apply_deploy_commit cc js c =
    bind_act (lift_res (build_commit_statements js c)) (\<lambda>stmts. exec_all cc stmts ''apply_deploy_commit'')"

text \<open>The three loads of \<open>tokio::join!\<close> all run; the first failure in the order of the fields is returned.\<close>

definition corr_load_routing_state :: "'d corr_client \<Rightarrow> json_codec \<Rightarrow> ('d, corr_error, routing_state) action" where
  "corr_load_routing_state cc js d =
    (case load_all_service_revisions cc js d of (revisions, d1) \<Rightarrow>
     case load_all_service_releases cc js d1 of (releases, d2) \<Rightarrow>
     case load_all_instance_status cc js d2 of (instances, d3) \<Rightarrow>
     (bind_res revisions (\<lambda>vs. bind_res releases (\<lambda>rs. bind_res instances (\<lambda>is.
       Inr \<lparr> rt_revisions = vs, rt_releases = rs, rt_instances = is \<rparr>))), d3))"

fun corr_call :: "'d corr_client \<Rightarrow> json_codec \<Rightarrow> store_request \<Rightarrow> ('d, corr_error, unit) action" where
  "corr_call cc js (Call_Upsert_Revision r) = corr_upsert_service_revision cc js r"
| "corr_call cc js (Call_Upsert_Release r) = corr_upsert_service_release cc js r"
| "corr_call cc js (Call_Delete_Release ns service) = corr_delete_service_release cc ns service"
| "corr_call cc js (Call_Upsert_Instance r) = corr_upsert_instance_status cc js r"
| "corr_call cc js (Call_Delete_Instance i) = corr_delete_instance_status cc i"
| "corr_call cc js (Call_Upsert_Deploy r) = corr_upsert_deploy cc js r"
| "corr_call cc js (Call_Commit c) = corr_apply_deploy_commit cc js c"
| "corr_call cc js (Call_Create_Invite i) = corr_create_invite cc js i"
| "corr_call cc js (Call_Consume_Invite i now) = corr_consume_invite cc i now"
| "corr_call cc js (Call_Upsert_Machine r) = corr_upsert_self_machine cc js r"
| "corr_call cc js (Call_Delete_Machine i) = corr_delete_machine cc i"

section \<open>Subscriptions\<close>

text \<open>
  What a subscription yields: an event or an error; the end of the list is the end of the stream. A table that is
  followed is a map of its records and the index from the rows of the query to their keys.
\<close>

type_synonym sub_item = "(string, cells query_event) result"

type_synonym ('k, 'r) tracked = "('k, 'r) hash_map \<times> (nat, 'k) hash_map"

fun apply_routing_change ::
    "(cells \<Rightarrow> (corr_error, 'r) result) \<Rightarrow> ('r \<Rightarrow> 'k) \<Rightarrow> change_type \<Rightarrow> nat \<Rightarrow> cells \<Rightarrow> ('k, 'r) tracked \<Rightarrow>
     (corr_error, ('k, 'r) tracked) result" where
  "apply_routing_change parse key Change_Delete rowid row (m, row_index) =
    (case hm_get row_index rowid of
       Some k \<Rightarrow> Inr (hm_remove k m, hm_remove rowid row_index)
     | None \<Rightarrow> Inr (m, row_index))"
| "apply_routing_change parse key _ rowid row (m, row_index) =
    bind_res (parse row) (\<lambda>r. Inr (hm_insert (key r) r m, hm_insert rowid (key r) row_index))"

text \<open>The two loops that read a snapshot differ in their messages only; the rest of the stream is returned.\<close>

fun snapshot_rows ::
    "(string \<Rightarrow> corr_error) \<Rightarrow> string \<Rightarrow> (cells \<Rightarrow> (corr_error, 'r) result) \<Rightarrow> ('r \<Rightarrow> 'k) \<Rightarrow> sub_item list \<Rightarrow> ('k, 'r) tracked \<Rightarrow>
     (corr_error, ('k, 'r) tracked \<times> sub_item list) result" where
  "snapshot_rows err ended parse key [] t = Inl (err ended)"
| "snapshot_rows err ended parse key (Inl e # items) t = Inl (err e)"
| "snapshot_rows err ended parse key (Inr ev # items) t = (case ev of
      Ev_Columns \<Rightarrow> snapshot_rows err ended parse key items t
    | Ev_End_Of_Query _ \<Rightarrow> Inr (t, items)
    | Ev_Error e \<Rightarrow> Inl (err e)
    | Ev_Row rowid row \<Rightarrow>
        bind_res (apply_routing_change parse key Change_Insert rowid row t) (snapshot_rows err ended parse key items)
    | Ev_Change ct rowid row _ \<Rightarrow>
        bind_res (apply_routing_change parse key ct rowid row t) (snapshot_rows err ended parse key items))"

definition collect_initial_rows ::
    "(cells \<Rightarrow> (corr_error, 'r) result) \<Rightarrow> ('r \<Rightarrow> 'k) \<Rightarrow> string \<Rightarrow> sub_item list \<Rightarrow> ('k, 'r) tracked \<Rightarrow>
     (corr_error, ('k, 'r) tracked \<times> sub_item list) result" where
  "collect_initial_rows parse key label =
    snapshot_rows (\<lambda>e. Operation ''subscribe_routing_state'' (label @ '': '' @ e)) ''stream ended during initial snapshot'' parse key"

definition machines_snapshot ::
    "json_codec \<Rightarrow> sub_item list \<Rightarrow> (corr_error, (machine_id, machine_record) tracked \<times> sub_item list) result" where
  "machines_snapshot js items =
    snapshot_rows (Operation ''subscribe_machines'') ''stream ended during snapshot'' (parse_machine_row js) mr_id items ([], [])"

subsection \<open>Machines\<close>

definition upsert_event ::
    "json_codec \<Rightarrow> nat \<Rightarrow> cells \<Rightarrow> (machine_id, machine_record) tracked \<Rightarrow>
     (corr_error, machine_event option \<times> (machine_id, machine_record) tracked) result" where
  "upsert_event js rowid row t = (case t of (known, row_index) \<Rightarrow>
    bind_res (parse_machine_row js row) (\<lambda>r.
      let is_update = hm_contains known (mr_id r) in
      Inr (Some (if is_update then Machine_Updated r else Machine_Added r),
           (hm_insert (mr_id r) r known, hm_insert rowid (mr_id r) row_index))))"

fun into_machine_event ::
    "json_codec \<Rightarrow> cells query_event \<Rightarrow> (machine_id, machine_record) tracked \<Rightarrow>
     (corr_error, machine_event option \<times> (machine_id, machine_record) tracked) result" where
  "into_machine_event js Ev_Columns t = Inr (None, t)"
| "into_machine_event js (Ev_End_Of_Query _) t = Inr (None, t)"
| "into_machine_event js (Ev_Error e) t = Inl (Operation ''subscribe_machines'' e)"
| "into_machine_event js (Ev_Row rowid row) t = upsert_event js rowid row t"
| "into_machine_event js (Ev_Change ct rowid row _) t = (case ct of
      Change_Delete \<Rightarrow> (case t of (known, row_index) \<Rightarrow>
        (case hm_get row_index rowid of
           Some i \<Rightarrow> (case hm_get known i of
               Some r \<Rightarrow> Inr (Some (Machine_Removed r), (hm_remove i known, hm_remove rowid row_index))
             | None \<Rightarrow> Inr (None, (known, hm_remove rowid row_index)))
         | None \<Rightarrow> Inr (None, t)))
    | _ \<Rightarrow> upsert_event js rowid row t)"

text \<open>
  The snapshot, sorted, and the task that forwards the changes, as the list of the events it sends until it returns:
  at the end of the stream, at an error, at a row it cannot read.
\<close>

definition machine_snapshot_list :: "(machine_id, machine_record) tracked \<Rightarrow> machine_record list" where
  "machine_snapshot_list t = sort_key (\<lambda>r. machine_id_str (mr_id r)) (hm_values (fst t))"

fun forward_machine_events :: "json_codec \<Rightarrow> sub_item list \<Rightarrow> (machine_id, machine_record) tracked \<Rightarrow> machine_event list" where
  "forward_machine_events js [] t = []"
| "forward_machine_events js (Inl e # items) t = []"
| "forward_machine_events js (Inr ev # items) t = (case into_machine_event js ev t of
      Inl _ \<Rightarrow> []
    | Inr (None, t') \<Rightarrow> forward_machine_events js items t'
    | Inr (Some e, t') \<Rightarrow> e # forward_machine_events js items t')"

definition corr_subscribe_machines :: "json_codec \<Rightarrow> sub_item list \<Rightarrow> (corr_error, machine_record list \<times> machine_event list) result" where
  "corr_subscribe_machines js items =
    bind_res (machines_snapshot js items) (\<lambda>(t, rest). Inr (machine_snapshot_list t, forward_machine_events js rest t))"

subsection \<open>Routing state\<close>

definition revision_key_of :: "service_revision_record \<Rightarrow> revision_key" where
  "revision_key_of r = (rv_namespace r, rv_service r, rv_revision_hash r)"

definition release_key_of :: "service_release_record \<Rightarrow> release_key" where
  "release_key_of r = (rr_namespace r, rr_service r)"

record live_routing_state =
  lr_revisions :: "(revision_key, service_revision_record) hash_map"
  lr_revision_rows :: "(nat, revision_key) hash_map"
  lr_releases :: "(release_key, service_release_record) hash_map"
  lr_release_rows :: "(nat, release_key) hash_map"
  lr_instances :: "(instance_id, instance_status_record) hash_map"
  lr_instance_rows :: "(nat, instance_id) hash_map"

definition live_routing_new :: live_routing_state where
  "live_routing_new = \<lparr> lr_revisions = [], lr_revision_rows = [], lr_releases = [], lr_release_rows = [],
    lr_instances = [], lr_instance_rows = [] \<rparr>"

definition to_routing_state :: "live_routing_state \<Rightarrow> routing_state" where
  "to_routing_state l = \<lparr> rt_revisions = hm_values (lr_revisions l), rt_releases = hm_values (lr_releases l),
    rt_instances = hm_values (lr_instances l) \<rparr>"

text \<open>\<open>Inr True\<close>: data changed; \<open>Inl\<close>: the task stops. \<open>None\<close> is the end of the stream.\<close>

definition handle_stream_event ::
    "(cells \<Rightarrow> (corr_error, 'r) result) \<Rightarrow> ('r \<Rightarrow> 'k) \<Rightarrow> sub_item option \<Rightarrow> ('k, 'r) tracked \<Rightarrow>
     (unit, bool) result \<times> ('k, 'r) tracked" where
  "handle_stream_event parse key item t =
    (let change = (\<lambda>ct rowid row. case apply_routing_change parse key ct rowid row t of
            Inr t' \<Rightarrow> (Inr True, t') | Inl _ \<Rightarrow> (Inl (), t)) in
     case item of
       Some (Inr ev) \<Rightarrow> (case ev of
           Ev_Columns \<Rightarrow> (Inr False, t)
         | Ev_End_Of_Query _ \<Rightarrow> (Inr False, t)
         | Ev_Error _ \<Rightarrow> (Inl (), t)
         | Ev_Row rowid row \<Rightarrow> change Change_Insert rowid row
         | Ev_Change ct rowid row _ \<Rightarrow> change ct rowid row)
     | Some (Inl _) \<Rightarrow> (Inl (), t)
     | None \<Rightarrow> (Inl (), t))"

text \<open>
  The task that follows the three streams. An input is what one turn of \<open>select!\<close> takes: the next item of a stream, or
  the end of the debounce window, which is waited for only while \<open>dirty\<close>. A turn gives the new state, or \<open>None\<close> when
  the task returns, and what it sends.
\<close>

datatype live_input =
    In_Revision "sub_item option"
  | In_Release "sub_item option"
  | In_Instance "sub_item option"
  | In_Debounce

definition after_event :: "bool \<Rightarrow> (unit, bool) result \<Rightarrow> live_routing_state \<Rightarrow> (live_routing_state \<times> bool) option" where
  "after_event dirty changed l = (case changed of Inr True \<Rightarrow> Some (l, True) | Inr False \<Rightarrow> Some (l, dirty) | Inl _ \<Rightarrow> None)"

fun live_turn :: "json_codec \<Rightarrow> live_input \<Rightarrow> live_routing_state \<times> bool \<Rightarrow> (live_routing_state \<times> bool) option \<times> routing_state option" where
  "live_turn js (In_Revision item) (l, dirty) =
    (case handle_stream_event (parse_service_revision js) revision_key_of item (lr_revisions l, lr_revision_rows l) of
       (changed, (m, rows)) \<Rightarrow> (after_event dirty changed (l\<lparr>lr_revisions := m, lr_revision_rows := rows\<rparr>), None))"
| "live_turn js (In_Release item) (l, dirty) =
    (case handle_stream_event (parse_service_release js) release_key_of item (lr_releases l, lr_release_rows l) of
       (changed, (m, rows)) \<Rightarrow> (after_event dirty changed (l\<lparr>lr_releases := m, lr_release_rows := rows\<rparr>), None))"
| "live_turn js (In_Instance item) (l, dirty) =
    (case handle_stream_event (parse_instance_status js) is_instance_id item (lr_instances l, lr_instance_rows l) of
       (changed, (m, rows)) \<Rightarrow> (after_event dirty changed (l\<lparr>lr_instances := m, lr_instance_rows := rows\<rparr>), None))"
| "live_turn js In_Debounce (l, dirty) =
    (if dirty then (Some (l, False), Some (to_routing_state l)) else (Some (l, dirty), None))"

text \<open>The three snapshots in order; what is left of each stream is what the task goes on with.\<close>

definition subscribe_routing_snapshot ::
    "json_codec \<Rightarrow> sub_item list \<Rightarrow> sub_item list \<Rightarrow> sub_item list \<Rightarrow>
     (corr_error, live_routing_state \<times> sub_item list \<times> sub_item list \<times> sub_item list) result" where
  "subscribe_routing_snapshot js revision_stream release_stream instance_stream =
    bind_res (collect_initial_rows (parse_service_revision js) revision_key_of ''revisions'' revision_stream ([], []))
      (\<lambda>((revisions, revision_rows), revision_rest).
    bind_res (collect_initial_rows (parse_service_release js) release_key_of ''releases'' release_stream ([], []))
      (\<lambda>((releases, release_rows), release_rest).
    bind_res (collect_initial_rows (parse_instance_status js) is_instance_id ''instances'' instance_stream ([], []))
      (\<lambda>((instances, instance_rows), instance_rest).
    Inr (\<lparr> lr_revisions = revisions, lr_revision_rows = revision_rows, lr_releases = releases, lr_release_rows = release_rows,
           lr_instances = instances, lr_instance_rows = instance_rows \<rparr>, revision_rest, release_rest, instance_rest))))"

text \<open>The task that turns the rows and changes of one stream into invalidations, until the receiver is gone.\<close>

fun run_routing_invalidator :: "('c \<Rightarrow> bool \<times> 'c) \<Rightarrow> sub_item list \<Rightarrow> 'c \<Rightarrow> 'c" where
  "run_routing_invalidator send [] c = c"
| "run_routing_invalidator send (Inl e # items) c = run_routing_invalidator send items c"
| "run_routing_invalidator send (Inr ev # items) c =
    (let refresh = (case send c of (True, c') \<Rightarrow> run_routing_invalidator send items c' | (False, c') \<Rightarrow> c') in
     case ev of
       Ev_Row _ _ \<Rightarrow> refresh
     | Ev_Change _ _ _ _ \<Rightarrow> refresh
     | _ \<Rightarrow> run_routing_invalidator send items c)"

definition routing_subscription_statements :: "(string \<times> sql) list" where
  "routing_subscription_statements =
    [(''service_revisions'', Select Service_Revisions All_Rows), (''service_releases'', Select Service_Releases All_Rows),
     (''instance_status'', Select Instance_Status All_Rows)]"

section \<open>The state of the replication\<close>

text \<open>
  \<open>admin\<close> is what the membership request of the admin client gives, if there is one: the address of each member and
  whether it is active; \<open>health\<close> is what the health request gives, the number of gaps.
\<close>

definition corr_sync_status ::
    "'a \<Rightarrow> (string, ('a \<times> bool) list) result option \<Rightarrow> (string, int) result \<Rightarrow> (corr_error, sync_status) result" where
  "corr_sync_status gossip_addr admin health =
    (let probe = bind_res (map_err (\<lambda>e. Operation ''sync_status'' (''health request: '' @ e)) health) (\<lambda>gaps.
        Inr (if gaps > 0 then Syncing (nat gaps) else Synced)) in
     case admin of
       Some members \<Rightarrow>
         bind_res (map_err (\<lambda>e. Operation ''sync_status'' (''admin membership request: '' @ e)) members) (\<lambda>states.
           if length (filter snd (filter (\<lambda>(addr, _). addr \<noteq> gossip_addr) states)) < 1 then Inr Disconnected else probe)
     | None \<Rightarrow> probe)"

end
