(* ===== verification/Corrosion_Follow.thy ===== *)
theory Corrosion_Follow
  imports Corrosion_Store
begin

text \<open>
  Following a table of the replicated store: what \<open>subscribe_machines\<close> and \<open>subscribe_routing_state\<close> make of the
  stream of a subscription.

  The specification is the result of the query, a map from its rows to their columns; \<open>table_event\<close> is what one event
  of the stream says about it. The first columns of a row are its primary key: a row is inserted under a key no other
  row has, and an update keeps it. The locale \<open>followed_table\<close> is the parser and the key of one table, with the law
  that two records have one key exactly when their rows have; its lemmas show that the map that the code keeps holds
  the records of the table.
\<close>

section \<open>The table behind a stream\<close>

type_synonym table_rows = "nat \<Rightarrow> cells option"

definition fresh_key :: "(cells \<Rightarrow> cells) \<Rightarrow> cells \<Rightarrow> table_rows \<Rightarrow> bool" where
  "fresh_key pk row rows \<longleftrightarrow> (\<forall>rowid row'. rows rowid = Some row' \<longrightarrow> pk row' \<noteq> pk row)"

inductive table_event :: "(cells \<Rightarrow> cells) \<Rightarrow> cells query_event \<Rightarrow> table_rows \<Rightarrow> table_rows \<Rightarrow> bool" for pk where
  event_row: "rows rowid = None \<Longrightarrow> fresh_key pk row rows \<Longrightarrow> table_event pk (Ev_Row rowid row) rows (rows(rowid \<mapsto> row))"
| event_insert: "rows rowid = None \<Longrightarrow> fresh_key pk row rows \<Longrightarrow>
    table_event pk (Ev_Change Change_Insert rowid row n) rows (rows(rowid \<mapsto> row))"
| event_update: "rows rowid = Some old \<Longrightarrow> pk row = pk old \<Longrightarrow>
    table_event pk (Ev_Change Change_Update rowid row n) rows (rows(rowid \<mapsto> row))"
| event_delete: "rows rowid = Some old \<Longrightarrow> table_event pk (Ev_Change Change_Delete rowid row n) rows (rows(rowid := None))"
| event_columns: "table_event pk Ev_Columns rows rows"
| event_end: "table_event pk (Ev_End_Of_Query n) rows rows"

inductive_simps table_event_quiet: "table_event pk Ev_Columns rows rows'" "table_event pk (Ev_End_Of_Query n) rows rows'"
  "table_event pk (Ev_Error e) rows rows'"

text \<open>Every row is one that the parser reads.\<close>

definition readable :: "(cells \<Rightarrow> (corr_error, 'r) result) \<Rightarrow> table_rows \<Rightarrow> bool" where
  "readable parse rows \<longleftrightarrow> (\<forall>rowid row. rows rowid = Some row \<longrightarrow> \<not> isl (parse row))"

definition records_of :: "(cells \<Rightarrow> (corr_error, 'r) result) \<Rightarrow> table_rows \<Rightarrow> nat \<Rightarrow> 'r option" where
  "records_of parse rows rowid = (case rows rowid of
     Some row \<Rightarrow> (case parse row of Inr r \<Rightarrow> Some r | Inl _ \<Rightarrow> None) | None \<Rightarrow> None)"

text \<open>A run of the stream, every state of the table readable.\<close>

inductive table_events ::
    "(cells \<Rightarrow> cells) \<Rightarrow> (cells \<Rightarrow> (corr_error, 'r) result) \<Rightarrow> cells query_event list \<Rightarrow> table_rows \<Rightarrow> table_rows \<Rightarrow> bool"
  for pk parse where
  events_none: "table_events pk parse [] rows rows"
| events_step: "table_event pk ev rows rows' \<Longrightarrow> readable parse rows' \<Longrightarrow> table_events pk parse evs rows' rows'' \<Longrightarrow>
    table_events pk parse (ev # evs) rows rows''"

inductive_cases table_events_NilE: "table_events pk parse [] rows rows'"
inductive_cases table_events_ConsE: "table_events pk parse (ev # evs) rows rows'"

text \<open>The map holds the records of the table by their keys, the index the key of each row, and no key is in two rows.\<close>

definition tracks :: "('r \<Rightarrow> 'k) \<Rightarrow> ('k, 'r) tracked \<Rightarrow> (nat \<Rightarrow> 'r option) \<Rightarrow> bool" where
  "tracks key t recs \<longleftrightarrow> hm_wf (fst t) \<and>
    (\<forall>k r. hm_get (fst t) k = Some r \<longleftrightarrow> (\<exists>rowid. recs rowid = Some r \<and> key r = k)) \<and>
    (\<forall>rowid. hm_get (snd t) rowid = map_option key (recs rowid)) \<and>
    (\<forall>i j r r'. recs i = Some r \<longrightarrow> recs j = Some r' \<longrightarrow> key r = key r' \<longrightarrow> i = j)"

text \<open>One event, as the snapshot loop and \<open>handle_stream_event\<close> both treat it.\<close>

definition follow_event ::
    "(cells \<Rightarrow> (corr_error, 'r) result) \<Rightarrow> ('r \<Rightarrow> 'k) \<Rightarrow> cells query_event \<Rightarrow> ('k, 'r) tracked \<Rightarrow>
     (corr_error, ('k, 'r) tracked) result" where
  "follow_event parse key ev t = (case ev of
      Ev_Row rowid row \<Rightarrow> apply_routing_change parse key Change_Insert rowid row t
    | Ev_Change ct rowid row _ \<Rightarrow> apply_routing_change parse key ct rowid row t
    | _ \<Rightarrow> Inr t)"

section \<open>Following one table\<close>

lemma tracks_empty: "tracks key ([], []) (\<lambda>_. None)"
  by (simp add: tracks_def hm_wf_def)

lemma tracks_index: "tracks key (m, idx) recs \<Longrightarrow> map_of idx rowid = map_option key (recs rowid)"
  by (simp add: tracks_def)

lemma tracks_get_iff: "tracks key (m, idx) recs \<Longrightarrow> map_of m k = Some r \<longleftrightarrow> (\<exists>rowid. recs rowid = Some r \<and> key r = k)"
  by (simp add: tracks_def)

lemma tracks_inj: "tracks key t recs \<Longrightarrow> recs i = Some a \<Longrightarrow> recs j = Some b \<Longrightarrow> key a = key b \<Longrightarrow> i = j"
  unfolding tracks_def by blast

lemma tracksI:
  assumes "hm_wf m" "\<And>k r. map_of m k = Some r \<longleftrightarrow> (\<exists>rowid. recs rowid = Some r \<and> key r = k)"
    and "\<And>rowid. map_of idx rowid = map_option key (recs rowid)"
    and "\<And>i j a b. recs i = Some a \<Longrightarrow> recs j = Some b \<Longrightarrow> key a = key b \<Longrightarrow> i = j"
  shows "tracks key (m, idx) recs"
  unfolding tracks_def fst_conv snd_conv using assms by blast

lemma tracks_put:
  assumes t: "tracks key (m, idx) recs"
    and uniq: "\<And>j a. recs j = Some a \<Longrightarrow> key a = key r \<longleftrightarrow> j = rowid"
  shows "tracks key (hm_insert (key r) r m, hm_insert rowid (key r) idx) (recs(rowid \<mapsto> r))"
proof -
  have "map_of (hm_insert (key r) r m) k = Some a \<longleftrightarrow> (\<exists>j. (recs(rowid \<mapsto> r)) j = Some a \<and> key a = k)" for k a
    using uniq[of _ a] by (cases "k = key r") (auto simp: update_conv' tracks_get_iff[OF t])
  moreover have "map_of (hm_insert rowid (key r) idx) j = map_option key ((recs(rowid \<mapsto> r)) j)" for j
    using tracks_index[OF t] by (simp add: update_conv')
  moreover have "(recs(rowid \<mapsto> r)) i = Some a \<Longrightarrow> (recs(rowid \<mapsto> r)) j = Some b \<Longrightarrow> key a = key b \<Longrightarrow> i = j" for i j a b
    using uniq[of i a] uniq[of j b] tracks_inj[OF t, of i a j b] by (auto split: if_splits)
  moreover have "hm_wf (hm_insert (key r) r m)" using t by (simp add: tracks_def hm.wf_insert)
  ultimately show ?thesis by (intro tracksI)
qed

lemma tracks_drop:
  assumes t: "tracks key (m, idx) recs" and old: "recs rowid = Some old"
  shows "tracks key (hm_remove (key old) m, hm_remove rowid idx) (recs(rowid := None))"
proof -
  have uniq: "recs j = Some a \<Longrightarrow> key a = key old \<longleftrightarrow> j = rowid" for j a
    using tracks_inj[OF t, of j a rowid old] old by auto
  have "map_of (hm_remove (key old) m) k = Some a \<longleftrightarrow> (\<exists>j. (recs(rowid := None)) j = Some a \<and> key a = k)" for k a
    using uniq[of _ a] by (cases "k = key old") (auto simp: delete_conv' tracks_get_iff[OF t])
  moreover have "map_of (hm_remove rowid idx) j = map_option key ((recs(rowid := None)) j)" for j
    using tracks_index[OF t] by (simp add: delete_conv')
  moreover have "(recs(rowid := None)) i = Some a \<Longrightarrow> (recs(rowid := None)) j = Some b \<Longrightarrow> key a = key b \<Longrightarrow> i = j" for i j a b
    using tracks_inj[OF t, of i a j b] by (auto split: if_splits)
  moreover have "hm_wf (hm_remove (key old) m)" using t by (simp add: tracks_def hm.wf_remove)
  ultimately show ?thesis by (intro tracksI)
qed

lemma tracks_values:
  assumes "tracks key (m, idx) recs"
  shows "set (hm_values m) = ran recs" "distinct (hm_keys m)"
proof -
  have d: "distinct (map fst m)" using assms by (simp add: tracks_def hm_wf_def)
  have "r \<in> snd ` set m \<longleftrightarrow> (\<exists>k. map_of m k = Some r)" for r
    using d by force
  then show "set (hm_values m) = ran recs" using tracks_get_iff[OF assms] by (auto simp: hm_values_def ran_def)
  show "distinct (hm_keys m)" using d by (simp add: hm_keys_def)
qed

lemma records_of_simps [simp]:
  "records_of parse (\<lambda>_. None) = (\<lambda>_. None)"
  "records_of parse (rows(rowid := None)) = (records_of parse rows)(rowid := None)"
  "parse row = Inr r \<Longrightarrow> records_of parse (rows(rowid \<mapsto> row)) = (records_of parse rows)(rowid \<mapsto> r)"
  by (auto simp: records_of_def)

lemma records_of_Some:
  "records_of parse rows rowid = Some r \<longleftrightarrow> (\<exists>row. rows rowid = Some row \<and> parse row = Inr r)"
  by (auto simp: records_of_def split: option.splits sum.splits)

lemma readableE:
  assumes "readable parse rows" "rows rowid = Some row"
  obtains r where "parse row = Inr r"
  using assms by (cases "parse row") (fastforce simp: readable_def)+

lemma readable_empty: "readable parse (\<lambda>_. None)"
  by (simp add: readable_def)

lemma table_events_readable: "table_events pk parse evs rows rows' \<Longrightarrow> readable parse rows \<Longrightarrow> readable parse rows'"
  by (induction rule: table_events.induct) auto

lemma readable_update: "readable parse (rows(rowid \<mapsto> row)) \<Longrightarrow> \<exists>r. parse row = Inr r"
  by (cases "parse row") (auto simp: readable_def split: if_splits)

locale followed_table =
  fixes parse :: "cells \<Rightarrow> (corr_error, 'r) result" and key :: "'r \<Rightarrow> 'k" and pk :: "cells \<Rightarrow> cells"
  assumes key_pk: "parse row = Inr r \<Longrightarrow> parse row' = Inr r' \<Longrightarrow> key r = key r' \<longleftrightarrow> pk row = pk row'"
begin

lemma put_unique:
  assumes t: "tracks key t (records_of parse rows)" "readable parse rows" and r: "parse row = Inr r"
    and pre: "rows rowid = None \<and> fresh_key pk row rows \<or> (\<exists>old. rows rowid = Some old \<and> pk row = pk old)"
    and a: "records_of parse rows j = Some a"
  shows "key a = key r \<longleftrightarrow> j = rowid"
proof -
  obtain c where c: "rows j = Some c" "parse c = Inr a" using a by (auto simp: records_of_Some)
  have k: "key a = key r \<longleftrightarrow> pk c = pk row" by (rule key_pk[OF c(2) r])
  from pre show ?thesis
  proof
    assume "rows rowid = None \<and> fresh_key pk row rows"
    then show ?thesis using c(1) k by (auto simp: fresh_key_def)
  next
    assume "\<exists>old. rows rowid = Some old \<and> pk row = pk old"
    then obtain old where old: "rows rowid = Some old" "pk row = pk old" by blast
    then obtain b where b: "parse old = Inr b" using readableE[OF t(2)] by blast
    then have rec: "records_of parse rows rowid = Some b" using old(1) by (simp add: records_of_Some)
    have "key b = key r" using key_pk[OF b r] old(2) by simp
    then show ?thesis using tracks_inj[OF t(1) a rec] a rec by auto
  qed
qed

lemma put_step:
  assumes "tracks key (m, idx) (records_of parse rows)" "readable parse rows" "readable parse (rows(rowid \<mapsto> row))"
    and "rows rowid = None \<and> fresh_key pk row rows \<or> (\<exists>old. rows rowid = Some old \<and> pk row = pk old)"
  shows "\<exists>r. parse row = Inr r \<and>
    tracks key (hm_insert (key r) r m, hm_insert rowid (key r) idx) (records_of parse (rows(rowid \<mapsto> row)))"
proof -
  obtain r where r: "parse row = Inr r" using readable_update[OF assms(3)] by blast
  show ?thesis using tracks_put[OF assms(1) put_unique[OF assms(1,2) r assms(4)]] r by auto
qed

lemma drop_step:
  assumes "tracks key (m, idx) (records_of parse rows)" "readable parse rows" "rows rowid = Some old"
  shows "\<exists>r. parse old = Inr r \<and> map_of idx rowid = Some (key r) \<and> map_of m (key r) = Some r \<and>
    tracks key (hm_remove (key r) m, hm_remove rowid idx) (records_of parse (rows(rowid := None)))"
proof -
  obtain r where r: "parse old = Inr r" using readableE[OF assms(2,3)] by blast
  then have rec: "records_of parse rows rowid = Some r" using assms(3) by (simp add: records_of_Some)
  have "map_of m (key r) = Some r" using rec by (auto simp: tracks_get_iff[OF assms(1)])
  then show ?thesis using r rec tracks_index[OF assms(1), of rowid] tracks_drop[OF assms(1) rec] by simp
qed

lemma follow_event_tracks:
  assumes ev: "table_event pk ev rows rows'" and t: "tracks key t (records_of parse rows)"
    and "readable parse rows" "readable parse rows'"
  shows "\<exists>t'. follow_event parse key ev t = Inr t' \<and> tracks key t' (records_of parse rows')"
proof -
  obtain m idx where m: "t = (m, idx)" by (cases t)
  from ev show ?thesis
  proof (cases rule: table_event.cases)
    case (event_row rowid row)
    then show ?thesis using put_step[of m idx rows rowid row] t assms(3,4) m by (auto simp: follow_event_def)
  next
    case (event_insert rowid row n)
    then show ?thesis using put_step[of m idx rows rowid row] t assms(3,4) m by (auto simp: follow_event_def)
  next
    case (event_update rowid old row n)
    then show ?thesis using put_step[of m idx rows rowid row] t assms(3,4) m by (auto simp: follow_event_def)
  next
    case (event_delete rowid old row n)
    then show ?thesis using drop_step[of m idx rows rowid old] t assms(3) m by (auto simp: follow_event_def)
  qed (use t in \<open>auto simp: follow_event_def\<close>)
qed

text \<open>The snapshot: the rows and changes up to the end of the query.\<close>

lemma snapshot_tracks:
  assumes "table_events pk parse evs rows rows'" "readable parse rows" "tracks key t (records_of parse rows)"
    and "\<And>n. Ev_End_Of_Query n \<notin> set evs"
  shows "\<exists>t'. snapshot_rows err ended parse key (map Inr evs @ Inr (Ev_End_Of_Query n) # rest) t = Inr (t', rest) \<and>
    tracks key t' (records_of parse rows')"
  using assms
proof (induction arbitrary: t rule: table_events.induct)
  case (events_none rows)
  then show ?case by simp
next
  case (events_step ev rows rows' evs rows'')
  obtain t' where t': "follow_event parse key ev t = Inr t'" "tracks key t' (records_of parse rows')"
    using follow_event_tracks[OF events_step.hyps(1) events_step.prems(2,1) events_step.hyps(2)] by blast
  have "snapshot_rows err ended parse key (map Inr (ev # evs) @ Inr (Ev_End_Of_Query n) # rest) t =
    snapshot_rows err ended parse key (map Inr evs @ Inr (Ev_End_Of_Query n) # rest) t'"
  proof (cases ev)
    case (Ev_End_Of_Query k)
    then show ?thesis using events_step.prems(3)[of k] by simp
  qed (use t'(1) events_step.hyps(1) in \<open>simp_all add: follow_event_def table_event_quiet\<close>)
  moreover have "Ev_End_Of_Query k \<notin> set evs" for k using events_step.prems(3)[of k] by simp
  ultimately show ?case using events_step.IH[OF events_step.hyps(2) t'(2)] by simp
qed

lemma handle_tracks:
  assumes "table_event pk ev rows rows'" "tracks key t (records_of parse rows)" "readable parse rows" "readable parse rows'"
  shows "\<exists>t' changed. handle_stream_event parse key (Some (Inr ev)) t = (Inr changed, t') \<and>
    tracks key t' (records_of parse rows') \<and> (\<not> changed \<longrightarrow> rows' = rows \<and> t' = t)"
proof -
  obtain t' where "follow_event parse key ev t = Inr t'" "tracks key t' (records_of parse rows')"
    using follow_event_tracks[OF assms] by blast
  then show ?thesis using assms(1)
    by (cases ev; cases t') (auto simp: follow_event_def handle_stream_event_def table_event_quiet)
qed

end

section \<open>The rows of the tables\<close>

lemma map_res_texts:
  "length row = length names \<Longrightarrow> map_res (\<lambda>(val, field). sql_text val field) (zip row names) = Inr texts \<Longrightarrow>
    row = map Sql_Text texts"
  by (induction row names arbitrary: texts rule: list_induct2) (auto simp: sql_text_def split: sqlite_value.splits)

lemma parse_row_cells:
  assumes "parse_row op names co cols mismatch row = Inr r" "names \<noteq> []"
  shows "\<exists>payload. row = map Sql_Text (cols r @ [payload]) \<and> co_decode co payload = Inr r"
proof -
  obtain texts where t: "length row = length names" "map_res (\<lambda>(val, field). sql_text val field) (zip row names) = Inr texts"
    "map_err (\<lambda>e. Operation op (''decode payload: '' @ e)) (co_decode co (last texts)) = Inr r" "cols r = butlast texts"
    using assms(1) by (auto simp: parse_row_def split: if_splits)
  have row: "row = map Sql_Text texts" by (rule map_res_texts[OF t(1,2)])
  then have "texts \<noteq> []" using t(1) assms(2) by auto
  then have "texts = cols r @ [last texts]" using t(4) by simp
  moreover have "co_decode co (last texts) = Inr r" using t(3) by (cases "co_decode co (last texts)") auto
  ultimately show ?thesis using row by metis
qed

lemma map_Sql_Text_eq: "map Sql_Text a = map Sql_Text b \<longleftrightarrow> a = b"
  by (simp add: inj_map_eq_map inj_on_def)

lemma pk_key:
  assumes "parse row = Inr r" "parse row' = Inr r'"
    and "\<And>row r. parse row = Inr r \<Longrightarrow> \<exists>rest. row = map Sql_Text (kcols r) @ rest"
    and "\<And>r. length (kcols r) = n" "\<And>r r'. kcols r = kcols r' \<longleftrightarrow> key r = key r'"
  shows "key r = key r' \<longleftrightarrow> take n row = take n row'"
proof -
  obtain a b where "row = map Sql_Text (kcols r) @ a" "row' = map Sql_Text (kcols r') @ b" using assms(1-3) by blast
  then have "take n row = map Sql_Text (kcols r)" "take n row' = map Sql_Text (kcols r')" using assms(4) by simp_all
  then show ?thesis using assms(5)[of r r'] by (simp add: map_Sql_Text_eq)
qed

interpretation machines_follow: followed_table "parse_machine_row js" mr_id "take 1" for js
proof
  show "mr_id r = mr_id r' \<longleftrightarrow> take 1 row = take 1 row'"
    if "parse_machine_row js row = Inr r" "parse_machine_row js row' = Inr r'" for row row' r r'
    by (rule pk_key[OF that, where kcols = machine_key])
       (auto simp: parse_machine_row_def machine_key_def dest!: parse_row_cells)
qed

interpretation revisions_follow: followed_table "parse_service_revision js" revision_key_of "take 3" for js
proof
  show "revision_key_of r = revision_key_of r' \<longleftrightarrow> take 3 row = take 3 row'"
    if "parse_service_revision js row = Inr r" "parse_service_revision js row' = Inr r'" for row row' r r'
    by (rule pk_key[OF that, where kcols = revision_key_cols])
       (auto simp: parse_service_revision_def revision_key_cols_def revision_key_of_def dest!: parse_row_cells)
qed

interpretation releases_follow: followed_table "parse_service_release js" release_key_of "take 2" for js
proof
  show "release_key_of r = release_key_of r' \<longleftrightarrow> take 2 row = take 2 row'"
    if "parse_service_release js row = Inr r" "parse_service_release js row' = Inr r'" for row row' r r'
    by (rule pk_key[OF that, where kcols = release_key_cols])
       (auto simp: parse_service_release_def release_key_cols_def release_key_of_def dest!: parse_row_cells)
qed

interpretation instances_follow: followed_table "parse_instance_status js" is_instance_id "take 1" for js
proof
  show "is_instance_id r = is_instance_id r' \<longleftrightarrow> take 1 row = take 1 row'"
    if "parse_instance_status js row = Inr r" "parse_instance_status js row' = Inr r'" for row row' r r'
    by (rule pk_key[OF that, where kcols = instance_key_cols])
       (auto simp: parse_instance_status_def instance_key_cols_def dest!: parse_row_cells)
qed

section \<open>The machines\<close>

lemma replay_upsert:
  "replay (map_of m) [if b then Machine_Updated r else Machine_Added r] = map_of (hm_insert (mr_id r) r m)"
  by (simp add: update_conv')

lemma into_machine_event_tracks:
  assumes ev: "table_event (take 1) ev rows rows'" and t: "tracks mr_id t (records_of (parse_machine_row js) rows)"
    and "readable (parse_machine_row js) rows" "readable (parse_machine_row js) rows'"
  shows "\<exists>e t'. into_machine_event js ev t = Inr (e, t') \<and> tracks mr_id t' (records_of (parse_machine_row js) rows') \<and>
    replay (map_of (fst t)) (case e of Some e \<Rightarrow> [e] | None \<Rightarrow> []) = map_of (fst t')"
proof -
  obtain m idx where m: "t = (m, idx)" by (cases t)
  have up: "\<exists>e t'. upsert_event js rowid row t = Inr (e, t') \<and>
      tracks mr_id t' (records_of (parse_machine_row js) rows') \<and>
      replay (map_of (fst t)) (case e of Some e \<Rightarrow> [e] | None \<Rightarrow> []) = map_of (fst t')"
    if eq: "rows' = rows(rowid \<mapsto> row)" and
      pre: "rows rowid = None \<and> fresh_key (take 1) row rows \<or> (\<exists>old. rows rowid = Some old \<and> take 1 row = take 1 old)" for rowid row
  proof -
    obtain r where r: "parse_machine_row js row = Inr r"
      "tracks mr_id (hm_insert (mr_id r) r m, hm_insert rowid (mr_id r) idx) (records_of (parse_machine_row js) rows')"
      using machines_follow.put_step[of m idx js rows rowid row] t assms(3,4) pre unfolding m eq by metis
    then show ?thesis by (simp add: upsert_event_def m update_conv')
  qed
  from ev show ?thesis
  proof (cases rule: table_event.cases)
    case (event_row rowid row)
    then show ?thesis using up[of rowid row] by simp
  next
    case (event_insert rowid row n)
    then show ?thesis using up[of rowid row] by simp
  next
    case (event_update rowid old row n)
    then show ?thesis using up[of rowid row] by simp
  next
    case (event_delete rowid old row n)
    then show ?thesis using machines_follow.drop_step[of m idx js rows rowid old] t assms(3) m
      by (auto simp: delete_conv')
  qed (use t in \<open>simp_all\<close>)
qed

lemma forward_machine_events_replay:
  assumes "table_events (take 1) (parse_machine_row js) evs rows rows'" "readable (parse_machine_row js) rows"
    and "tracks mr_id t (records_of (parse_machine_row js) rows)"
  shows "\<exists>t'. replay (map_of (fst t)) (forward_machine_events js (map Inr evs) t) = map_of (fst t') \<and>
    tracks mr_id t' (records_of (parse_machine_row js) rows')"
  using assms
proof (induction arbitrary: t rule: table_events.induct)
  case (events_none rows)
  then show ?case by (intro exI[of _ t]) simp
next
  case (events_step ev rows rows' evs rows'')
  obtain e t' where e: "into_machine_event js ev t = Inr (e, t')" "tracks mr_id t' (records_of (parse_machine_row js) rows')"
    "replay (map_of (fst t)) (case e of Some e \<Rightarrow> [e] | None \<Rightarrow> []) = map_of (fst t')"
    using into_machine_event_tracks[OF events_step.hyps(1) events_step.prems(2,1) events_step.hyps(2)] by blast
  have "forward_machine_events js (map Inr (ev # evs)) t =
    (case e of Some e \<Rightarrow> [e] | None \<Rightarrow> []) @ forward_machine_events js (map Inr evs) t'"
    using e(1) by (cases e) simp_all
  then show ?case using events_step.IH[OF events_step.hyps(2) e(2)] e(3) by (simp add: replay_append)
qed

lemma keyed_values: "hm_keyed key m \<Longrightarrow> map key (hm_values m) = map fst m"
  by (auto simp: hm_keyed_def hm_wf_def hm_values_def)

lemma machine_snapshot_map:
  assumes "tracks mr_id t recs"
  shows "snapshot_map (machine_snapshot_list t) = map_of (fst t)"
proof -
  obtain m idx where m: "t = (m, idx)" by (cases t)
  have k: "hm_keyed mr_id m" using assms by (auto simp: tracks_def hm_keyed_def m)
  then have d: "distinct (map mr_id (hm_values m))" by (simp add: keyed_values) (simp add: hm_keyed_def hm_wf_def)
  let ?pairs = "\<lambda>rs. map (\<lambda>r. (mr_id r, r)) rs" and ?sorted = "machine_snapshot_list (m, idx)"
  have "map_of (?pairs ?sorted) = map_of (?pairs (hm_values m))"
  proof (subst map_of_inject_set)
    show "distinct (map fst (?pairs (hm_values m)))" using d by (simp add: comp_def)
    then show "distinct (map fst (?pairs ?sorted))" by (simp add: machine_snapshot_list_def distinct_map)
    show "set (?pairs ?sorted) = set (?pairs (hm_values m))" by (simp add: machine_snapshot_list_def)
  qed
  then show ?thesis using snapshot_map_values[OF k] by (simp add: snapshot_map_def m)
qed

text \<open>
  C14. A machine subscription follows the table. When the stream brings the rows of the machines table up to the end
  of the query and then its changes, the subscription succeeds, its snapshot is the machines of the table at that
  point, in the order of their ids, and replaying the events it forwards on the snapshot gives the machines that the
  table holds after the last change.
\<close>

theorem machine_subscription_follows:
  assumes "table_events (take 1) (parse_machine_row js) evs (\<lambda>_. None) rows" "\<And>n. Ev_End_Of_Query n \<notin> set evs"
    and "table_events (take 1) (parse_machine_row js) changes rows rows'"
  shows "\<exists>snapshot events.
    corr_subscribe_machines js (map Inr evs @ Inr (Ev_End_Of_Query n) # map Inr changes) = Inr (snapshot, events) \<and>
    set snapshot = ran (records_of (parse_machine_row js) rows) \<and> sorted (map (\<lambda>r. machine_id_str (mr_id r)) snapshot) \<and>
    (\<forall>i r. replay (snapshot_map snapshot) events i = Some r \<longleftrightarrow>
      (\<exists>rowid. records_of (parse_machine_row js) rows' rowid = Some r \<and> mr_id r = i))"
proof -
  have start: "tracks mr_id ([], []) (records_of (parse_machine_row js) (\<lambda>_. None))" by (simp add: tracks_empty)
  have ok: "readable (parse_machine_row js) rows" using table_events_readable[OF assms(1) readable_empty] .
  obtain t where t: "machines_snapshot js (map Inr evs @ Inr (Ev_End_Of_Query n) # map Inr changes) = Inr (t, map Inr changes)"
    "tracks mr_id t (records_of (parse_machine_row js) rows)"
    using machines_follow.snapshot_tracks[OF assms(1) readable_empty start assms(2)] unfolding machines_snapshot_def by blast
  obtain t' where t': "replay (map_of (fst t)) (forward_machine_events js (map Inr changes) t) = map_of (fst t')"
    "tracks mr_id t' (records_of (parse_machine_row js) rows')"
    using forward_machine_events_replay[OF assms(3) ok t(2)] by blast
  have "set (machine_snapshot_list t) = ran (records_of (parse_machine_row js) rows)"
    using tracks_values(1)[of mr_id "fst t" "snd t"] t(2) by (simp add: machine_snapshot_list_def)
  then show ?thesis using t(1) t' machine_snapshot_map[OF t(2)] tracks_get_iff[of mr_id "fst t'" "snd t'"]
    by (simp add: corr_subscribe_machines_def) (simp add: machine_snapshot_list_def)
qed

text \<open>A codec that writes the listed records as the listed texts; two machines that it knows, and their rows.\<close>

definition table_codec :: "('r \<times> string) list \<Rightarrow> 'r codec" where
  "table_codec tab = \<lparr> co_encode = (\<lambda>r. case map_of tab r of Some s \<Rightarrow> Inr s | None \<Rightarrow> Inl ''unknown''),
    co_decode = (\<lambda>s. case map_of (map (\<lambda>(r, s). (s, r)) tab) s of Some r \<Rightarrow> Inr r | None \<Rightarrow> Inl ''unknown'') \<rparr>"

definition machine_example :: "string \<Rightarrow> machine_record" where
  "machine_example i = machine_record_seed (MachineId i) (PublicKey []) (OverlayIp []) None []"

definition codec_example :: json_codec where
  "codec_example = \<lparr> js_machine = table_codec [(machine_example ''a'', ''A''), (machine_example ''b'', ''B'')],
    js_invite = table_codec [], js_revision = table_codec [], js_release = table_codec [(release_example ''web'', ''W'')],
    js_instance = table_codec [], js_deploy = table_codec [] \<rparr>"

lemma machine_example_id: "mr_id (machine_example i) = MachineId i"
  by (simp add: machine_example_def machine_record_seed_def)

lemma machine_example_row:
  "parse_machine_row codec_example [Sql_Text ''a'', Sql_Text ''A''] = Inr (machine_example ''a'')"
  "parse_machine_row codec_example [Sql_Text ''b'', Sql_Text ''B''] = Inr (machine_example ''b'')"
  by (simp_all add: parse_machine_row_def parse_row_def sql_text_def codec_example_def table_codec_def machine_key_def
      machine_example_id)

lemma machine_example_events:
  "table_events (take 1) (parse_machine_row codec_example) [Ev_Columns, Ev_Row 1 [Sql_Text ''a'', Sql_Text ''A'']] (\<lambda>_. None)
    [1 \<mapsto> [Sql_Text ''a'', Sql_Text ''A'']]"
  "table_events (take 1) (parse_machine_row codec_example)
    [Ev_Change Change_Insert 2 [Sql_Text ''b'', Sql_Text ''B''] 1, Ev_Change Change_Delete 1 [] 2]
    [1 \<mapsto> [Sql_Text ''a'', Sql_Text ''A'']] [2 \<mapsto> [Sql_Text ''b'', Sql_Text ''B'']]"
proof -
  let ?a = "[Sql_Text ''a'', Sql_Text ''A'']" and ?b = "[Sql_Text ''b'', Sql_Text ''B'']" and ?p = "parse_machine_row codec_example"
  have "table_event (take 1) (Ev_Row 1 ?a) (\<lambda>_. None) [1 \<mapsto> ?a]" by (rule event_row) (simp_all add: fresh_key_def)
  moreover have "readable ?p [1 \<mapsto> ?a]" by (simp add: readable_def machine_example_row)
  ultimately show "table_events (take 1) ?p [Ev_Columns, Ev_Row 1 ?a] (\<lambda>_. None) [1 \<mapsto> ?a]"
    by (intro events_step[OF event_columns readable_empty] events_step[OF _ _ events_none])
  have ins: "table_event (take 1) (Ev_Change Change_Insert 2 ?b 1) [1 \<mapsto> ?a] ([1 \<mapsto> ?a](2 \<mapsto> ?b))"
    by (rule event_insert) (simp_all add: fresh_key_def)
  have ok: "readable ?p ([1 \<mapsto> ?a](2 \<mapsto> ?b))" "readable ?p [2 \<mapsto> ?b]" by (simp_all add: readable_def machine_example_row)
  have eq: "([1 \<mapsto> ?a](2 \<mapsto> ?b))(1 := None) = [2::nat \<mapsto> ?b]" by (rule ext) simp
  have del: "table_event (take 1) (Ev_Change Change_Delete 1 [] 2) ([1 \<mapsto> ?a](2 \<mapsto> ?b)) [2 \<mapsto> ?b]"
    by (subst eq[symmetric]) (rule event_delete, simp)
  show "table_events (take 1) ?p [Ev_Change Change_Insert 2 ?b 1, Ev_Change Change_Delete 1 [] 2] [1 \<mapsto> ?a] [2 \<mapsto> ?b]"
    by (rule events_step[OF ins ok(1) events_step[OF del ok(2) events_none]])
qed

theorem machine_subscription_follows_witness:
  "\<exists>snapshot events.
    corr_subscribe_machines codec_example
      (map Inr [Ev_Columns, Ev_Row 1 [Sql_Text ''a'', Sql_Text ''A'']] @ Inr (Ev_End_Of_Query None) #
       map Inr [Ev_Change Change_Insert 2 [Sql_Text ''b'', Sql_Text ''B''] 1, Ev_Change Change_Delete 1 [] 2]) =
      Inr (snapshot, events) \<and>
    set snapshot = {machine_example ''a''} \<and> replay (snapshot_map snapshot) events (MachineId ''a'') = None \<and>
    replay (snapshot_map snapshot) events (MachineId ''b'') = Some (machine_example ''b'')"
proof -
  let ?p = "parse_machine_row codec_example"
  have recs: "records_of ?p [1 \<mapsto> [Sql_Text ''a'', Sql_Text ''A'']] = [1 \<mapsto> machine_example ''a'']"
    "records_of ?p [2 \<mapsto> [Sql_Text ''b'', Sql_Text ''B'']] = [2 \<mapsto> machine_example ''b'']"
    by (simp_all add: machine_example_row)
  have b: "(\<exists>rowid. [2 \<mapsto> machine_example ''b''] rowid = Some r \<and> mr_id r = i) \<longleftrightarrow>
      r = machine_example ''b'' \<and> i = MachineId ''b''" for r i rowid
    by (auto simp: machine_example_id split: if_splits)
  obtain snapshot events where *: "corr_subscribe_machines codec_example
      (map Inr [Ev_Columns, Ev_Row 1 [Sql_Text ''a'', Sql_Text ''A'']] @ Inr (Ev_End_Of_Query None) #
       map Inr [Ev_Change Change_Insert 2 [Sql_Text ''b'', Sql_Text ''B''] 1, Ev_Change Change_Delete 1 [] 2]) =
      Inr (snapshot, events)" "set snapshot = {machine_example ''a''}"
    "\<And>i r. replay (snapshot_map snapshot) events i = Some r \<longleftrightarrow> r = machine_example ''b'' \<and> i = MachineId ''b''"
    using machine_subscription_follows[OF machine_example_events(1) _ machine_example_events(2), where n = None] unfolding recs b by auto
  have "replay (snapshot_map snapshot) events (MachineId ''a'') \<noteq> Some r" for r using *(3)[of "MachineId ''a''" r] by simp
  then show ?thesis using * by blast
qed

section \<open>The routing state\<close>

text \<open>
  The task with the three tables it follows: \<open>live_reach js (r1, r2, r3) (l, dirty) sent\<close> when it may hold \<open>l\<close> while the
  tables are \<open>r1\<close>, \<open>r2\<close>, \<open>r3\<close> and \<open>sent\<close> is the last routing state its receiver was given, the initial one included.
\<close>

inductive live_reach ::
    "json_codec \<Rightarrow> table_rows \<times> table_rows \<times> table_rows \<Rightarrow> live_routing_state \<times> bool \<Rightarrow> routing_state \<Rightarrow> bool" for js where
  live_start:
    "table_events (take 3) (parse_service_revision js) e1 (\<lambda>_. None) r1 \<Longrightarrow> (\<And>n. Ev_End_Of_Query n \<notin> set e1) \<Longrightarrow>
     table_events (take 2) (parse_service_release js) e2 (\<lambda>_. None) r2 \<Longrightarrow> (\<And>n. Ev_End_Of_Query n \<notin> set e2) \<Longrightarrow>
     table_events (take 1) (parse_instance_status js) e3 (\<lambda>_. None) r3 \<Longrightarrow> (\<And>n. Ev_End_Of_Query n \<notin> set e3) \<Longrightarrow>
     subscribe_routing_snapshot js (map Inr e1 @ Inr (Ev_End_Of_Query n1) # s1) (map Inr e2 @ Inr (Ev_End_Of_Query n2) # s2)
       (map Inr e3 @ Inr (Ev_End_Of_Query n3) # s3) = Inr (l, rest) \<Longrightarrow>
     live_reach js (r1, r2, r3) (l, False) (to_routing_state l)"
| live_revision:
    "live_reach js (r1, r2, r3) st sent \<Longrightarrow> table_event (take 3) ev r1 r1' \<Longrightarrow> readable (parse_service_revision js) r1' \<Longrightarrow>
     live_turn js (In_Revision (Some (Inr ev))) st = (Some st', None) \<Longrightarrow> live_reach js (r1', r2, r3) st' sent"
| live_release:
    "live_reach js (r1, r2, r3) st sent \<Longrightarrow> table_event (take 2) ev r2 r2' \<Longrightarrow> readable (parse_service_release js) r2' \<Longrightarrow>
     live_turn js (In_Release (Some (Inr ev))) st = (Some st', None) \<Longrightarrow> live_reach js (r1, r2', r3) st' sent"
| live_instance:
    "live_reach js (r1, r2, r3) st sent \<Longrightarrow> table_event (take 1) ev r3 r3' \<Longrightarrow> readable (parse_instance_status js) r3' \<Longrightarrow>
     live_turn js (In_Instance (Some (Inr ev))) st = (Some st', None) \<Longrightarrow> live_reach js (r1, r2, r3') st' sent"
| live_debounce:
    "live_reach js rs st sent \<Longrightarrow> live_turn js In_Debounce st = (Some st', out) \<Longrightarrow>
     live_reach js rs st' (case out of Some s \<Rightarrow> s | None \<Rightarrow> sent)"

definition live_tracks :: "json_codec \<Rightarrow> table_rows \<times> table_rows \<times> table_rows \<Rightarrow> live_routing_state \<Rightarrow> bool" where
  "live_tracks js rs l = (case rs of (r1, r2, r3) \<Rightarrow>
    readable (parse_service_revision js) r1 \<and> readable (parse_service_release js) r2 \<and> readable (parse_instance_status js) r3 \<and>
    tracks revision_key_of (lr_revisions l, lr_revision_rows l) (records_of (parse_service_revision js) r1) \<and>
    tracks release_key_of (lr_releases l, lr_release_rows l) (records_of (parse_service_release js) r2) \<and>
    tracks is_instance_id (lr_instances l, lr_instance_rows l) (records_of (parse_instance_status js) r3))"

text \<open>A routing state lists what the tables hold.\<close>

definition lists_tables :: "json_codec \<Rightarrow> table_rows \<times> table_rows \<times> table_rows \<Rightarrow> routing_state \<Rightarrow> bool" where
  "lists_tables js rs st = (case rs of (r1, r2, r3) \<Rightarrow>
    set (rt_revisions st) = ran (records_of (parse_service_revision js) r1) \<and>
    set (rt_releases st) = ran (records_of (parse_service_release js) r2) \<and>
    set (rt_instances st) = ran (records_of (parse_instance_status js) r3))"

lemma live_tracks_lists: "live_tracks js rs l \<Longrightarrow> lists_tables js rs (to_routing_state l)"
  by (auto simp: live_tracks_def lists_tables_def to_routing_state_def tracks_values split: prod.splits)

lemma initial_rows_tracks:
  assumes "followed_table parse key pk" "table_events pk parse evs (\<lambda>_. None) rows" "\<And>n. Ev_End_Of_Query n \<notin> set evs"
    and "collect_initial_rows parse key label (map Inr evs @ Inr (Ev_End_Of_Query n) # s) ([], []) = Inr (t, rest)"
  shows "tracks key t (records_of parse rows)" "readable parse rows"
proof -
  have "tracks key ([], []) (records_of parse (\<lambda>_. None))" by (simp add: tracks_empty)
  from followed_table.snapshot_tracks[OF assms(1,2) readable_empty this assms(3)]
  obtain t' where "collect_initial_rows parse key label (map Inr evs @ Inr (Ev_End_Of_Query n) # s) ([], []) = Inr (t', s)"
    "tracks key t' (records_of parse rows)" unfolding collect_initial_rows_def by blast
  then show "tracks key t (records_of parse rows)" using assms(4) by simp
  show "readable parse rows" by (rule table_events_readable[OF assms(2) readable_empty])
qed

lemma live_start_tracks:
  assumes "table_events (take 3) (parse_service_revision js) e1 (\<lambda>_. None) r1" "\<And>n. Ev_End_Of_Query n \<notin> set e1"
    and "table_events (take 2) (parse_service_release js) e2 (\<lambda>_. None) r2" "\<And>n. Ev_End_Of_Query n \<notin> set e2"
    and "table_events (take 1) (parse_instance_status js) e3 (\<lambda>_. None) r3" "\<And>n. Ev_End_Of_Query n \<notin> set e3"
    and "subscribe_routing_snapshot js (map Inr e1 @ Inr (Ev_End_Of_Query n1) # s1) (map Inr e2 @ Inr (Ev_End_Of_Query n2) # s2)
       (map Inr e3 @ Inr (Ev_End_Of_Query n3) # s3) = Inr (l, rest)"
  shows "live_tracks js (r1, r2, r3) l"
proof -
  obtain m1 i1 q1 m2 i2 q2 m3 i3 q3 where
    c: "collect_initial_rows (parse_service_revision js) revision_key_of ''revisions'' (map Inr e1 @ Inr (Ev_End_Of_Query n1) # s1)
          ([], []) = Inr ((m1, i1), q1)"
      "collect_initial_rows (parse_service_release js) release_key_of ''releases'' (map Inr e2 @ Inr (Ev_End_Of_Query n2) # s2)
          ([], []) = Inr ((m2, i2), q2)"
      "collect_initial_rows (parse_instance_status js) is_instance_id ''instances'' (map Inr e3 @ Inr (Ev_End_Of_Query n3) # s3)
          ([], []) = Inr ((m3, i3), q3)"
    and l: "l = \<lparr> lr_revisions = m1, lr_revision_rows = i1, lr_releases = m2, lr_release_rows = i2,
           lr_instances = m3, lr_instance_rows = i3 \<rparr>"
    using assms(7) unfolding subscribe_routing_snapshot_def by (auto split: prod.splits)
  show ?thesis unfolding l live_tracks_def
    using initial_rows_tracks[OF revisions_follow.followed_table_axioms assms(1,2) c(1)]
      initial_rows_tracks[OF releases_follow.followed_table_axioms assms(3,4) c(2)]
      initial_rows_tracks[OF instances_follow.followed_table_axioms assms(5,6) c(3)] by simp
qed

lemma live_turn_tracks:
  assumes "live_tracks js (r1, r2, r3) l"
  shows "table_event (take 3) ev r1 r1' \<Longrightarrow> readable (parse_service_revision js) r1' \<Longrightarrow>
      \<exists>l' d. live_turn js (In_Revision (Some (Inr ev))) (l, dirty) = (Some (l', d), None) \<and>
        live_tracks js (r1', r2, r3) l' \<and> (\<not> d \<longrightarrow> \<not> dirty \<and> l' = l)"
    and "table_event (take 2) ev r2 r2' \<Longrightarrow> readable (parse_service_release js) r2' \<Longrightarrow>
      \<exists>l' d. live_turn js (In_Release (Some (Inr ev))) (l, dirty) = (Some (l', d), None) \<and>
        live_tracks js (r1, r2', r3) l' \<and> (\<not> d \<longrightarrow> \<not> dirty \<and> l' = l)"
    and "table_event (take 1) ev r3 r3' \<Longrightarrow> readable (parse_instance_status js) r3' \<Longrightarrow>
      \<exists>l' d. live_turn js (In_Instance (Some (Inr ev))) (l, dirty) = (Some (l', d), None) \<and>
        live_tracks js (r1, r2, r3') l' \<and> (\<not> d \<longrightarrow> \<not> dirty \<and> l' = l)"
proof -
  note tr = assms[unfolded live_tracks_def prod.case]
  show "\<exists>l' d. live_turn js (In_Revision (Some (Inr ev))) (l, dirty) = (Some (l', d), None) \<and>
        live_tracks js (r1', r2, r3) l' \<and> (\<not> d \<longrightarrow> \<not> dirty \<and> l' = l)"
    if ev: "table_event (take 3) ev r1 r1'" and ok: "readable (parse_service_revision js) r1'"
  proof -
    obtain t c where "handle_stream_event (parse_service_revision js) revision_key_of (Some (Inr ev)) (lr_revisions l, lr_revision_rows l) =
        (Inr c, t)" "tracks revision_key_of t (records_of (parse_service_revision js) r1')"
      "\<not> c \<longrightarrow> t = (lr_revisions l, lr_revision_rows l)"
      using revisions_follow.handle_tracks[OF ev _ _ ok] tr by blast
    then show ?thesis using tr ok by (cases t; cases c) (auto simp: after_event_def live_tracks_def)
  qed
  show "\<exists>l' d. live_turn js (In_Release (Some (Inr ev))) (l, dirty) = (Some (l', d), None) \<and>
        live_tracks js (r1, r2', r3) l' \<and> (\<not> d \<longrightarrow> \<not> dirty \<and> l' = l)"
    if ev: "table_event (take 2) ev r2 r2'" and ok: "readable (parse_service_release js) r2'"
  proof -
    obtain t c where "handle_stream_event (parse_service_release js) release_key_of (Some (Inr ev)) (lr_releases l, lr_release_rows l) =
        (Inr c, t)" "tracks release_key_of t (records_of (parse_service_release js) r2')"
      "\<not> c \<longrightarrow> t = (lr_releases l, lr_release_rows l)"
      using releases_follow.handle_tracks[OF ev _ _ ok] tr by blast
    then show ?thesis using tr ok by (cases t; cases c) (auto simp: after_event_def live_tracks_def)
  qed
  show "\<exists>l' d. live_turn js (In_Instance (Some (Inr ev))) (l, dirty) = (Some (l', d), None) \<and>
        live_tracks js (r1, r2, r3') l' \<and> (\<not> d \<longrightarrow> \<not> dirty \<and> l' = l)"
    if ev: "table_event (take 1) ev r3 r3'" and ok: "readable (parse_instance_status js) r3'"
  proof -
    obtain t c where "handle_stream_event (parse_instance_status js) is_instance_id (Some (Inr ev)) (lr_instances l, lr_instance_rows l) =
        (Inr c, t)" "tracks is_instance_id t (records_of (parse_instance_status js) r3')"
      "\<not> c \<longrightarrow> t = (lr_instances l, lr_instance_rows l)"
      using instances_follow.handle_tracks[OF ev _ _ ok] tr by blast
    then show ?thesis using tr ok by (cases t; cases c) (auto simp: after_event_def live_tracks_def)
  qed
qed

lemma live_reach_inv:
  "live_reach js rs st sent \<Longrightarrow> live_tracks js rs (fst st) \<and> (\<not> snd st \<longrightarrow> sent = to_routing_state (fst st))"
proof (induction rule: live_reach.induct)
  case (live_start e1 r1 e2 r2 e3 r3 n1 s1 n2 s2 n3 s3 l rest)
  then show ?case using live_start_tracks[OF live_start] by simp
next
  case (live_revision r1 r2 r3 st sent ev r1' st')
  then show ?case using live_turn_tracks(1)[of js r1 r2 r3 "fst st" ev r1' "snd st"] by auto
next
  case (live_release r1 r2 r3 st sent ev r2' st')
  then show ?case using live_turn_tracks(2)[of js r1 r2 r3 "fst st" ev r2' "snd st"] by auto
next
  case (live_instance r1 r2 r3 st sent ev r3' st')
  then show ?case using live_turn_tracks(3)[of js r1 r2 r3 "fst st" ev r3' "snd st"] by auto
next
  case (live_debounce rs st sent st' out)
  then show ?case by (cases st) (auto split: if_splits)
qed

text \<open>
  C10. The followed routing state never goes stale. Whatever the interleaving of the three streams and the debounce
  window, the state the task holds lists exactly the revisions, releases and instances of the tables; while nothing
  is pending, the last state its receiver was given is that one; while something is, the end of the window sends it;
  and no event that a readable table sends stops the task.
\<close>

theorem live_routing_current:
  assumes "live_reach js (r1, r2, r3) (l, dirty) sent"
  shows "lists_tables js (r1, r2, r3) (to_routing_state l) \<and> (\<not> dirty \<longrightarrow> lists_tables js (r1, r2, r3) sent) \<and>
    (dirty \<longrightarrow> live_turn js In_Debounce (l, dirty) = (Some (l, False), Some (to_routing_state l))) \<and>
    (\<forall>ev r. table_event (take 3) ev r1 r \<and> readable (parse_service_revision js) r \<longrightarrow>
      fst (live_turn js (In_Revision (Some (Inr ev))) (l, dirty)) \<noteq> None) \<and>
    (\<forall>ev r. table_event (take 2) ev r2 r \<and> readable (parse_service_release js) r \<longrightarrow>
      fst (live_turn js (In_Release (Some (Inr ev))) (l, dirty)) \<noteq> None) \<and>
    (\<forall>ev r. table_event (take 1) ev r3 r \<and> readable (parse_instance_status js) r \<longrightarrow>
      fst (live_turn js (In_Instance (Some (Inr ev))) (l, dirty)) \<noteq> None)"
proof -
  have t: "live_tracks js (r1, r2, r3) l" and s: "\<not> dirty \<longrightarrow> sent = to_routing_state l"
    using live_reach_inv[OF assms] by simp_all
  have "table_event (take 3) ev r1 r \<Longrightarrow> readable (parse_service_revision js) r \<Longrightarrow>
      fst (live_turn js (In_Revision (Some (Inr ev))) (l, dirty)) \<noteq> None" for ev r
    using live_turn_tracks(1)[OF t, of ev r dirty] by (auto simp del: live_turn.simps)
  moreover have "table_event (take 2) ev r2 r \<Longrightarrow> readable (parse_service_release js) r \<Longrightarrow>
      fst (live_turn js (In_Release (Some (Inr ev))) (l, dirty)) \<noteq> None" for ev r
    using live_turn_tracks(2)[OF t, of ev r dirty] by (auto simp del: live_turn.simps)
  moreover have "table_event (take 1) ev r3 r \<Longrightarrow> readable (parse_instance_status js) r \<Longrightarrow>
      fst (live_turn js (In_Instance (Some (Inr ev))) (l, dirty)) \<noteq> None" for ev r
    using live_turn_tracks(3)[OF t, of ev r dirty] by (auto simp del: live_turn.simps)
  moreover have "dirty \<Longrightarrow> live_turn js In_Debounce (l, dirty) = (Some (l, False), Some (to_routing_state l))" by simp
  moreover have "\<not> dirty \<Longrightarrow> lists_tables js (r1, r2, r3) sent" using live_tracks_lists[OF t] s by simp
  ultimately show ?thesis using live_tracks_lists[OF t] by blast
qed

lemma release_example_row:
  "parse_service_release codec_example [Sql_Text ''prod'', Sql_Text ''web'', Sql_Text ''W''] = Inr (release_example ''web'')"
  by (simp add: parse_service_release_def parse_row_def sql_text_def codec_example_def table_codec_def release_key_cols_def
      release_example_def)

lemma live_reach_example:
  "\<exists>l. live_reach codec_example (\<lambda>_. None, [1 \<mapsto> [Sql_Text ''prod'', Sql_Text ''web'', Sql_Text ''W'']], \<lambda>_. None) (l, True)
    (to_routing_state live_routing_new)"
proof -
  let ?row = "[Sql_Text ''prod'', Sql_Text ''web'', Sql_Text ''W'']" and ?js = codec_example and ?e = "\<lambda>_. None :: cells option"
  let ?s = "map Inr [] @ [Inr (Ev_End_Of_Query None)] :: sub_item list"
  have "subscribe_routing_snapshot ?js ?s ?s ?s = Inr (live_routing_new, [], [], [])"
    by (simp add: subscribe_routing_snapshot_def collect_initial_rows_def live_routing_new_def)
  then have start: "live_reach ?js (?e, ?e, ?e) (live_routing_new, False) (to_routing_state live_routing_new)"
    by (intro live_start[where ?e1.0 = "[]" and ?e2.0 = "[]" and ?e3.0 = "[]"] events_none) simp_all
  have "table_event (take 2) (Ev_Change Change_Insert 1 ?row 1) ?e [1 \<mapsto> ?row]" by (rule event_insert) (simp_all add: fresh_key_def)
  moreover have "readable (parse_service_release ?js) [1 \<mapsto> ?row]" by (simp add: readable_def release_example_row)
  moreover have "\<exists>l. live_turn ?js (In_Release (Some (Inr (Ev_Change Change_Insert 1 ?row 1)))) (live_routing_new, False) = (Some (l, True), None)"
    by (simp add: handle_stream_event_def release_example_row after_event_def live_routing_new_def)
  ultimately show ?thesis using live_release[OF start] by blast
qed

theorem live_routing_current_witness:
  "\<exists>l. live_reach codec_example (\<lambda>_. None, [1 \<mapsto> [Sql_Text ''prod'', Sql_Text ''web'', Sql_Text ''W'']], \<lambda>_. None) (l, True)
      (to_routing_state live_routing_new) \<and> set (rt_releases (to_routing_state l)) = {release_example ''web''} \<and>
    live_turn codec_example In_Debounce (l, True) = (Some (l, False), Some (to_routing_state l))"
proof -
  obtain l where l: "live_reach codec_example (\<lambda>_. None, [1 \<mapsto> [Sql_Text ''prod'', Sql_Text ''web'', Sql_Text ''W'']], \<lambda>_. None)
      (l, True) (to_routing_state live_routing_new)" using live_reach_example by blast
  have "set (rt_releases (to_routing_state l)) = {release_example ''web''}"
    using conjunct1[OF live_routing_current[OF l]] by (simp add: lists_tables_def release_example_row)
  then show ?thesis using l by auto
qed

end
