(* ===== verification/Corrosion_Refinement.thy ===== *)
theory Corrosion_Refinement
  imports Corrosion_Follow
begin

text \<open>
  The replicated store keeps the contract of the memory store: every call on the one agrees with the same call on the
  other, as far as the database and the network let it.

  \<open>corrosion_db\<close> is what the store relies on; \<open>stores_agree\<close> relates the tables to a memory store: a record is in the
  memory store exactly when the row of its key is published with the record as its payload. Rows that replication has
  begun but not published may be there, except among the invites, which are inserted and not replaced.
\<close>

section \<open>What the store relies on\<close>

text \<open>A record that is written is read back; the payload is not empty; the expiry of an invite is in its payload.\<close>

definition json_ok :: "'r codec \<Rightarrow> bool" where
  "json_ok co \<longleftrightarrow> (\<forall>r s. co_encode co r = Inr s \<longrightarrow> s \<noteq> [] \<and> co_decode co s = Inr r)"

definition expires_ok :: "invite_record codec \<Rightarrow> (string \<Rightarrow> int option) \<Rightarrow> bool" where
  "expires_ok co expires \<longleftrightarrow> (\<forall>s invite. co_decode co s = Inr invite \<longrightarrow> expires s = Some (int (ir_expires_at invite)))"

definition full_stream :: "cells list \<Rightarrow> stream_item list" where
  "full_stream rows = Item_Event Ev_Columns # map (\<lambda>(i, row). Item_Event (Ev_Row i row)) (enumerate 1 rows) @
    [Item_Event (Ev_End_Of_Query None)]"

definition broken_off :: "stream_item list \<Rightarrow> stream_item list \<Rightarrow> bool" where
  "broken_off stream items \<longleftrightarrow>
    (\<exists>n bad. n < length stream \<and> items = take n stream @ [bad] \<and> (bad = Item_Timeout \<or> (\<exists>e. bad = Item_Error e)))"

text \<open>
  A request that is answered ran its statements in order; one that is not ran all of them or none. A query changes
  nothing and yields its rows and the end of the query, or breaks off before that.
\<close>

locale corrosion_db =
  fixes cc :: "'d corr_client" and db :: "'d \<Rightarrow> corro_tables" and js :: json_codec and expires :: "string \<Rightarrow> int option"
  assumes execute_ok: "cc_execute cc qs d = (Inr results, d') \<Longrightarrow> sql_run expires qs (db d) = (results, db d')"
    and execute_failed: "cc_execute cc qs d = (Inl e, d') \<Longrightarrow> db d' = db d \<or> db d' = snd (sql_run expires qs (db d))"
    and query_keeps: "cc_query cc q d = (r, d') \<Longrightarrow> db d' = db d"
    and query_ok: "cc_query cc (Select t f) d = (Inr items, d') \<Longrightarrow>
      items = full_stream (sql_select t f (db d)) \<or> broken_off (full_stream (sql_select t f (db d))) items"
    and json: "json_ok (js_machine js)" "json_ok (js_invite js)" "json_ok (js_revision js)" "json_ok (js_release js)"
      "json_ok (js_instance js)" "json_ok (js_deploy js)"
    and json_expires: "expires_ok (js_invite js) expires"

section \<open>The tables and the memory store\<close>

definition row_holds :: "'r codec \<Rightarrow> ('r \<Rightarrow> string list) \<Rightarrow> string list \<Rightarrow> 'r \<Rightarrow> bool" where
  "row_holds co cols row r \<longleftrightarrow> published row \<and> co_decode co (last row) = Inr r \<and> row = cols r @ [last row]"

definition table_agrees ::
    "('k \<Rightarrow> string list) \<Rightarrow> 'r codec \<Rightarrow> ('r \<Rightarrow> string list) \<Rightarrow> sql_rows \<Rightarrow> ('k, 'r) hash_map \<Rightarrow> bool" where
  "table_agrees kf co cols t m \<longleftrightarrow> bt_wf t \<and>
    (\<forall>k. case hm_get m k of
       Some r \<Rightarrow> (\<exists>row. bt_get t (kf k) = Some row \<and> row_holds co cols row r)
     | None \<Rightarrow> (\<forall>row. bt_get t (kf k) = Some row \<longrightarrow> \<not> published row)) \<and>
    (\<forall>c row. bt_get t c = Some row \<longrightarrow> published row \<longrightarrow> (\<exists>k. c = kf k))"

definition machine_kf :: "machine_id \<Rightarrow> string list" where "machine_kf i = [machine_id_str i]"

definition invite_kf :: "string \<Rightarrow> string list" where "invite_kf i = [i]"

definition revision_kf :: "revision_key \<Rightarrow> string list" where
  "revision_kf k = (case k of (ns, service, hash) \<Rightarrow> [namespace_str ns, service, hash])"

definition release_kf :: "release_key \<Rightarrow> string list" where
  "release_kf k = (case k of (ns, service) \<Rightarrow> [namespace_str ns, service])"

definition instance_kf :: "instance_id \<Rightarrow> string list" where "instance_kf i = [instance_id_str i]"

definition deploy_kf :: "deploy_id \<Rightarrow> string list" where "deploy_kf i = [deploy_id_str i]"

abbreviation no_cols :: "'r \<Rightarrow> string list" where "no_cols r \<equiv> []"

definition stores_agree :: "json_codec \<Rightarrow> corro_tables \<Rightarrow> ('c, 'd) store_inner \<Rightarrow> bool" where
  "stores_agree js db s \<longleftrightarrow>
    table_agrees machine_kf (js_machine js) no_cols (db Machines) (st_machines s) \<and>
    table_agrees invite_kf (js_invite js) no_cols (db Invites) (st_invites s) \<and>
    (\<forall>c row. bt_get (db Invites) c = Some row \<longrightarrow> published row) \<and>
    table_agrees revision_kf (js_revision js) no_cols (db Service_Revisions) (st_service_revisions s) \<and>
    table_agrees release_kf (js_release js) no_cols (db Service_Releases) (st_service_releases s) \<and>
    table_agrees instance_kf (js_instance js) instance_cols (db Instance_Status) (st_instance_status s) \<and>
    table_agrees deploy_kf (js_deploy js) deploy_cols (db Deploys) (st_deploys s)"

text \<open>What the call returns on the memory store, and the errors of the two that mean the same.\<close>

fun store_result ::
    "('c, machine_event) sender \<Rightarrow> ('d, unit) sender \<Rightarrow> store_request \<Rightarrow> ('c, 'd) store_inner \<Rightarrow> (store_error, unit) result" where
  "store_result send_event try_send (Call_Upsert_Revision r) s = fst (upsert_service_revision try_send r s)"
| "store_result send_event try_send (Call_Upsert_Release r) s = fst (upsert_service_release try_send r s)"
| "store_result send_event try_send (Call_Delete_Release ns service) s = fst (delete_service_release try_send ns service s)"
| "store_result send_event try_send (Call_Upsert_Instance r) s = fst (upsert_instance_status try_send r s)"
| "store_result send_event try_send (Call_Delete_Instance i) s = fst (delete_instance_status try_send i s)"
| "store_result send_event try_send (Call_Upsert_Deploy r) s = fst (upsert_deploy r s)"
| "store_result send_event try_send (Call_Commit c) s = fst (apply_deploy_commit try_send c s)"
| "store_result send_event try_send (Call_Create_Invite i) s = fst (create_invite i s)"
| "store_result send_event try_send (Call_Consume_Invite i now) s = fst (consume_invite i now s)"
| "store_result send_event try_send (Call_Upsert_Machine r) s = fst (upsert_self_machine send_event r s)"
| "store_result send_event try_send (Call_Delete_Machine i) s = fst (delete_machine send_event i s)"

fun same_error :: "corr_error \<Rightarrow> store_error \<Rightarrow> bool" where
  "same_error (Operation op _) (Invite_Exists _) = (op = ''invite_exists'')"
| "same_error (Operation op _) (Invite_Not_Found _) = (op = ''invite_not_found'')"
| "same_error (Operation op _) (Invite_Expired _) = (op = ''invite_expired'')"

text \<open>
  A revision is written once: the replicated store keeps the payload it has, the memory store takes the new one, so
  they agree when the record is the same. The clock fits into 63 bits.
\<close>

definition call_fits :: "store_request \<Rightarrow> ('c, 'd) store_inner \<Rightarrow> bool" where
  "call_fits call s = (case call of
      Call_Upsert_Revision r \<Rightarrow> hm_get (st_service_revisions s) (revision_key_of r) \<in> {None, Some r}
    | Call_Consume_Invite _ now \<Rightarrow> now < 2 ^ 63
    | _ \<Rightarrow> True)"

section \<open>One table\<close>

locale table_view =
  fixes kf :: "'k \<Rightarrow> string list"
  assumes kf_inj: "kf a = kf b \<Longrightarrow> a = b"
begin

lemma agrees_wf: "table_agrees kf co cols t m \<Longrightarrow> bt_wf t"
  by (simp add: table_agrees_def)

lemma agrees_Some: "table_agrees kf co cols t m \<Longrightarrow> hm_get m k = Some r \<Longrightarrow> \<exists>row. bt_get t (kf k) = Some row \<and> row_holds co cols row r"
  unfolding table_agrees_def by (elim conjE allE[of _ k]) simp

lemma agrees_None: "table_agrees kf co cols t m \<Longrightarrow> hm_get m k = None \<Longrightarrow> bt_get t (kf k) = Some row \<Longrightarrow> \<not> published row"
  unfolding table_agrees_def by (elim conjE allE[of _ k]) simp

lemma agrees_key: "table_agrees kf co cols t m \<Longrightarrow> bt_get t c = Some row \<Longrightarrow> published row \<Longrightarrow> \<exists>k. c = kf k"
  unfolding table_agrees_def by simp

lemma agreesI:
  assumes "bt_wf t"
    and "\<And>k. case hm_get m k of
       Some r \<Rightarrow> (\<exists>row. bt_get t (kf k) = Some row \<and> row_holds co cols row r)
     | None \<Rightarrow> (\<forall>row. bt_get t (kf k) = Some row \<longrightarrow> \<not> published row)"
    and "\<And>c row. bt_get t c = Some row \<Longrightarrow> published row \<Longrightarrow> \<exists>k. c = kf k"
  shows "table_agrees kf co cols t m"
  using assms by (simp add: table_agrees_def)

lemma agrees_put:
  assumes "table_agrees kf co cols t m" "row_holds co cols row r"
  shows "table_agrees kf co cols (bt_insert (kf k) row t) (hm_insert k r m)"
proof -
  have g: "bt_get (bt_insert (kf k) row t) c = (if c = kf k then Some row else bt_get t c)" for c
    by (rule bt.get_insert[OF agrees_wf[OF assms(1)]])
  have "case hm_get (hm_insert k r m) k' of
       Some r' \<Rightarrow> (\<exists>row'. bt_get (bt_insert (kf k) row t) (kf k') = Some row' \<and> row_holds co cols row' r')
     | None \<Rightarrow> (\<forall>row'. bt_get (bt_insert (kf k) row t) (kf k') = Some row' \<longrightarrow> \<not> published row')" for k'
    using agrees_Some[OF assms(1), of k'] agrees_None[OF assms(1), of k'] assms(2) kf_inj[of k' k]
    by (cases "k' = k") (auto simp: g update_conv' split: option.splits)
  moreover have "bt_get (bt_insert (kf k) row t) c = Some row' \<Longrightarrow> published row' \<Longrightarrow> \<exists>k. c = kf k" for c row'
    using agrees_key[OF assms(1), of c row'] by (auto simp: g split: if_splits)
  ultimately show ?thesis using bt.wf_insert[OF agrees_wf[OF assms(1)]] by (intro agreesI)
qed

lemma agrees_drop:
  assumes "table_agrees kf co cols t m"
  shows "table_agrees kf co cols (bt_remove (kf k) t) (hm_remove k m)"
proof -
  have g: "bt_get (bt_remove (kf k) t) c = (if c = kf k then None else bt_get t c)" for c
    by (rule bt.get_remove[OF agrees_wf[OF assms]])
  have "case hm_get (hm_remove k m) k' of
       Some r' \<Rightarrow> (\<exists>row'. bt_get (bt_remove (kf k) t) (kf k') = Some row' \<and> row_holds co cols row' r')
     | None \<Rightarrow> (\<forall>row'. bt_get (bt_remove (kf k) t) (kf k') = Some row' \<longrightarrow> \<not> published row')" for k'
    using agrees_Some[OF assms, of k'] agrees_None[OF assms, of k'] kf_inj[of k' k]
    by (cases "k' = k") (auto simp: g delete_conv' split: option.splits)
  moreover have "bt_get (bt_remove (kf k) t) c = Some row' \<Longrightarrow> published row' \<Longrightarrow> \<exists>k. c = kf k" for c row'
    using agrees_key[OF assms, of c row'] by (auto simp: g split: if_splits)
  ultimately show ?thesis using bt.wf_remove[OF agrees_wf[OF assms]] by (intro agreesI)
qed

lemma agrees_cong: "table_agrees kf co cols t m \<Longrightarrow> hm_get m = hm_get m' \<Longrightarrow> table_agrees kf co cols t m'"
  by (simp add: table_agrees_def)

end

interpretation machine_view: table_view machine_kf by unfold_locales (simp add: machine_kf_def)

interpretation invite_view: table_view invite_kf by unfold_locales (simp add: invite_kf_def)

interpretation revision_view: table_view revision_kf by unfold_locales (auto simp: revision_kf_def split: prod.splits)

interpretation release_view: table_view release_kf by unfold_locales (auto simp: release_kf_def split: prod.splits)

interpretation instance_view: table_view instance_kf by unfold_locales (simp add: instance_kf_def)

interpretation deploy_view: table_view deploy_kf by unfold_locales (simp add: deploy_kf_def)

section \<open>One statement\<close>

text \<open>What a call leaves, done or failed.\<close>

definition outcome :: "json_codec \<Rightarrow> ('c, 'd) store_inner \<Rightarrow> ('c, 'd) store_inner \<Rightarrow> ('e, unit) result \<Rightarrow> corro_tables \<Rightarrow> bool" where
  "outcome js s s' res tables = (case res of
     Inr _ \<Rightarrow> stores_agree js tables s' | Inl _ \<Rightarrow> stores_agree js tables s \<or> stores_agree js tables s')"

lemma sql_run_one: "sql_run expires [q] tables = (case sql_exec expires q tables of (r, tables') \<Rightarrow> ([r], tables'))"
  by (simp split: prod.split)

lemma lift_res_cases:
  assumes "bind_act (lift_res r) f d = (res, d')"
  shows "(\<exists>e. r = Inl e \<and> res = Inl e \<and> d' = d) \<or> (\<exists>a. r = Inr a \<and> f a d = (res, d'))"
  using assms by (cases r) (simp_all add: bind_act_def lift_res_def)

context corrosion_db
begin

lemma execute_cases:
  assumes "bind_act (map_err_act (Operation op) (cc_execute cc qs)) f d = (res, d')"
  shows "(\<exists>e. res = Inl e \<and> (db d' = db d \<or> db d' = snd (sql_run expires qs (db d)))) \<or>
    (\<exists>results d1. sql_run expires qs (db d) = (results, db d1) \<and> f results d1 = (res, d'))"
proof -
  obtain r d1 where x: "cc_execute cc qs d = (r, d1)" by (cases "cc_execute cc qs d")
  show ?thesis
  proof (cases r)
    case (Inl e)
    then show ?thesis using assms x execute_failed[of qs d e d1] by (auto simp: bind_act_def map_err_act_def)
  next
    case (Inr results)
    then show ?thesis using assms x execute_ok[of qs d results d1] by (auto simp: bind_act_def map_err_act_def)
  qed
qed

lemma exec_one_outcome:
  assumes "exec_one cc [q] op d = (res, d')" "stores_agree js (db d) s" "stores_agree js (snd (sql_exec expires q (db d))) s'"
  shows "outcome js s s' res (db d')"
proof -
  obtain r tables where x: "sql_exec expires q (db d) = (r, tables)" by (cases "sql_exec expires q (db d)")
  from execute_cases[OF assms(1)[unfolded exec_one_def]] x assms(2,3) show ?thesis
    by (cases r) (auto simp: sql_run_one outcome_def ret_act_def fail_act_def)
qed

lemma exec_all_outcome:
  assumes "exec_all cc qs op d = (res, d')" "stores_agree js (db d) s" "stores_agree js (snd (sql_run expires qs (db d))) s'"
  shows "outcome js s s' res (db d')"
proof -
  obtain rs tables where x: "sql_run expires qs (db d) = (rs, tables)" by (cases "sql_run expires qs (db d)")
  from execute_cases[OF assms(1)[unfolded exec_all_def]] x assms(2,3) show ?thesis
    by (auto simp: outcome_def ret_act_def fail_act_def split: list.splits)
qed

lemma encode_outcome:
  assumes "bind_act (lift_res (encode_as op co r)) f d = (res, d')" "json_ok co" "stores_agree js (db d) s"
    and "\<And>payload. payload \<noteq> [] \<Longrightarrow> co_decode co payload = Inr r \<Longrightarrow> f payload d = (res, d') \<Longrightarrow> outcome js s s' res (db d')"
  shows "outcome js s s' res (db d')"
proof -
  consider e where "res = Inl e" "d' = d" | payload where "co_encode co r = Inr payload" "f payload d = (res, d')"
    using lift_res_cases[OF assms(1)] by (cases "co_encode co r") (auto simp: encode_as_def)
  then show ?thesis
  proof cases
    case 1
    then show ?thesis using assms(3) by (simp add: outcome_def)
  next
    case 2
    then show ?thesis using assms(2,4) by (auto simp: json_ok_def)
  qed
qed

end

section \<open>The calls on the tables\<close>

lemma row_holdsI: "payload \<noteq> [] \<Longrightarrow> co_decode co payload = Inr r \<Longrightarrow> row_holds co cols (cols r @ [payload]) r"
  by (simp add: row_holds_def published_def)

lemma upsert_machine_agrees:
  assumes "stores_agree js tables s" "payload \<noteq> []" "co_decode (js_machine js) payload = Inr r"
  shows "stores_agree js (snd (sql_exec expires (Upsert Machines (machine_key r) [payload]) tables)) (snd (upsert_self_machine f r s))"
  using assms machine_view.agrees_put[OF _ row_holdsI[OF assms(2,3), of no_cols], of "tables Machines" "st_machines s" "mr_id r"]
  by (simp add: stores_agree_def upsert_self_machine_def Let_def machine_key_def machine_kf_def)

lemma delete_machine_agrees:
  assumes "stores_agree js tables s"
  shows "stores_agree js (snd (sql_exec expires (Delete Machines [machine_id_str i]) tables)) (snd (delete_machine f i s))"
proof -
  have "hm_get (st_machines s) i = None \<Longrightarrow> hm_get (hm_remove i (st_machines s)) = hm_get (st_machines s)"
    by (rule ext) (simp add: delete_conv')
  then show ?thesis
    using assms machine_view.agrees_drop[of "js_machine js" no_cols "tables Machines" "st_machines s" i]
      machine_view.agrees_cong[of "js_machine js" no_cols "bt_remove (machine_kf i) (tables Machines)" "hm_remove i (st_machines s)" "st_machines s"]
    by (cases "hm_get (st_machines s) i") (simp_all add: stores_agree_def delete_machine_def machine_kf_def)
qed

lemma upsert_release_agrees:
  assumes "stores_agree js tables s" "payload \<noteq> []" "co_decode (js_release js) payload = Inr r"
  shows "stores_agree js (snd (sql_exec expires (Upsert Service_Releases (release_key_cols r) [payload]) tables))
    (s\<lparr>st_service_releases := hm_insert (rr_namespace r, rr_service r) r (st_service_releases s)\<rparr>)"
  using assms release_view.agrees_put[OF _ row_holdsI[OF assms(2,3), of no_cols], of "tables Service_Releases" "st_service_releases s"
      "(rr_namespace r, rr_service r)"]
  by (simp add: stores_agree_def release_key_cols_def release_kf_def)

lemma delete_release_agrees:
  assumes "stores_agree js tables s"
  shows "stores_agree js (snd (sql_exec expires (release_delete_statement ns service) tables))
    (s\<lparr>st_service_releases := hm_remove (ns, service) (st_service_releases s)\<rparr>)"
  using assms release_view.agrees_drop[of "js_release js" no_cols "tables Service_Releases" "st_service_releases s" "(ns, service)"]
  by (simp add: stores_agree_def release_delete_statement_def release_kf_def)

lemma upsert_instance_agrees:
  assumes "stores_agree js tables s" "payload \<noteq> []" "co_decode (js_instance js) payload = Inr r"
  shows "stores_agree js (snd (sql_exec expires (Upsert Instance_Status (instance_key_cols r) (instance_cols r @ [payload])) tables))
    (s\<lparr>st_instance_status := hm_insert (is_instance_id r) r (st_instance_status s)\<rparr>)"
  using assms instance_view.agrees_put[OF _ row_holdsI[OF assms(2,3), of instance_cols], of "tables Instance_Status"
      "st_instance_status s" "is_instance_id r"]
  by (simp add: stores_agree_def instance_key_cols_def instance_kf_def)

lemma delete_instance_agrees:
  assumes "stores_agree js tables s"
  shows "stores_agree js (snd (sql_exec expires (Delete Instance_Status [instance_id_str i]) tables))
    (s\<lparr>st_instance_status := hm_remove i (st_instance_status s)\<rparr>)"
  using assms instance_view.agrees_drop[of "js_instance js" instance_cols "tables Instance_Status" "st_instance_status s" i]
  by (simp add: stores_agree_def instance_kf_def)

lemma upsert_deploy_agrees:
  assumes "stores_agree js tables s" "payload \<noteq> []" "co_decode (js_deploy js) payload = Inr r"
  shows "stores_agree js (snd (sql_exec expires (Upsert Deploys (deploy_key_cols r) (deploy_cols r @ [payload])) tables))
    (s\<lparr>st_deploys := hm_insert (dr_deploy_id r) r (st_deploys s)\<rparr>)"
  using assms deploy_view.agrees_put[OF _ row_holdsI[OF assms(2,3), of deploy_cols], of "tables Deploys" "st_deploys s" "dr_deploy_id r"]
  by (simp add: stores_agree_def deploy_key_cols_def deploy_kf_def)

lemma upsert_revision_agrees:
  assumes "stores_agree js tables s" "payload \<noteq> []" "co_decode (js_revision js) payload = Inr r"
    and fits: "hm_get (st_service_revisions s) (revision_key_of r) \<in> {None, Some r}"
  shows "stores_agree js (snd (sql_exec expires (Upsert_Unpublished Service_Revisions (revision_key_cols r) [payload]) tables))
    (s\<lparr>st_service_revisions := hm_insert (revision_key_of r) r (st_service_revisions s)\<rparr>)"
proof -
  let ?t = "tables Service_Revisions" and ?m = "st_service_revisions s" and ?k = "revision_key_of r"
  have key: "revision_key_cols r = revision_kf ?k" by (simp add: revision_key_cols_def revision_kf_def revision_key_of_def)
  have t: "table_agrees revision_kf (js_revision js) no_cols ?t ?m" using assms(1) by (simp add: stores_agree_def)
  have new: "row_holds (js_revision js) no_cols [payload] r" using row_holdsI[OF assms(2,3), of no_cols] by simp
  obtain row where row: "snd (sql_exec expires (Upsert_Unpublished Service_Revisions (revision_kf ?k) [payload]) tables) =
      tables(Service_Revisions := bt_insert (revision_kf ?k) row ?t)" "row_holds (js_revision js) no_cols row r"
  proof (cases "hm_get ?m ?k")
    case None
    then show ?thesis using revision_view.agrees_None[OF t, of ?k] new that[of "[payload]"] by (auto split: option.splits)
  next
    case (Some r')
    then have "r' = r" using fits by simp
    then obtain row where "bt_get ?t (revision_kf ?k) = Some row" "row_holds (js_revision js) no_cols row r"
      using revision_view.agrees_Some[OF t Some] by blast
    then show ?thesis using that[of row] by (auto simp: row_holds_def)
  qed
  show ?thesis using revision_view.agrees_put[OF t row(2), of ?k] assms(1) unfolding key row(1) by (simp add: stores_agree_def)
qed

subsection \<open>Invites\<close>

lemma agree_invites:
  assumes "stores_agree js tables s"
  shows "bt_contains (tables Invites) [i] \<longleftrightarrow> hm_contains (st_invites s) i"
    and "hm_get (st_invites s) i = Some invite \<Longrightarrow>
      \<exists>row. bt_get (tables Invites) [i] = Some row \<and> published row \<and> co_decode (js_invite js) (last row) = Inr invite"
proof -
  have t: "table_agrees invite_kf (js_invite js) no_cols (tables Invites) (st_invites s)"
    and p: "\<And>c row. bt_get (tables Invites) c = Some row \<Longrightarrow> published row" using assms by (simp_all add: stores_agree_def)
  show some: "\<exists>row. bt_get (tables Invites) [i] = Some row \<and> published row \<and> co_decode (js_invite js) (last row) = Inr invite"
    if "hm_get (st_invites s) i = Some invite" for invite
    using invite_view.agrees_Some[OF t that] by (auto simp: row_holds_def invite_kf_def)
  show "bt_contains (tables Invites) [i] \<longleftrightarrow> hm_contains (st_invites s) i"
    using some invite_view.agrees_None[OF t, of i] p[of "[i]"]
    by (cases "hm_get (st_invites s) i"; cases "bt_get (tables Invites) [i]")
       (auto simp: bt_contains_def hm_contains_def invite_kf_def)
qed

lemma insert_invite_agrees:
  assumes "stores_agree js tables s" "payload \<noteq> []" "co_decode (js_invite js) payload = Inr r"
  shows "stores_agree js (snd (sql_exec expires (Insert Invites [ir_id r] [payload]) tables)) (snd (create_invite r s))"
proof (cases "hm_contains (st_invites s) (ir_id r)")
  case True
  then show ?thesis using agree_invites(1)[OF assms(1), of "ir_id r"] assms(1) by (simp add: create_invite_def)
next
  case False
  have wf: "bt_wf (tables Invites)" using assms(1) by (auto simp: stores_agree_def table_agrees_def)
  have "published [payload]" using assms(2) by (simp add: published_def)
  then show ?thesis
    using False agree_invites(1)[OF assms(1), of "ir_id r"] assms(1) bt.get_insert[OF wf, of "[ir_id r]" "[payload]"]
      invite_view.agrees_put[OF _ row_holdsI[OF assms(2,3), of no_cols], of "tables Invites" "st_invites s" "ir_id r"]
    by (simp add: create_invite_def stores_agree_def invite_kf_def split: if_splits)
qed

lemma as_i64_small: "now < 2 ^ 63 \<Longrightarrow> as_i64 now = int now"
  by (simp add: as_i64_def signed_of_nat signed_take_bit_int_eq_self)

lemma consume_invite_exec:
  assumes "stores_agree js tables s" "expires_ok (js_invite js) expires" "now < 2 ^ 63"
  shows "fst (sql_exec expires (Delete_Unexpired Invites [i] (as_i64 now)) tables) =
      Exec_Execute (case fst (consume_invite i now s) of Inr _ \<Rightarrow> 1 | Inl _ \<Rightarrow> 0)"
    and "stores_agree js (snd (sql_exec expires (Delete_Unexpired Invites [i] (as_i64 now)) tables)) (snd (consume_invite i now s))"
proof -
  let ?q = "Delete_Unexpired Invites [i] (as_i64 now)"
  have wf: "bt_wf (tables Invites)" and t: "table_agrees invite_kf (js_invite js) no_cols (tables Invites) (st_invites s)"
    using assms(1) by (auto simp: stores_agree_def table_agrees_def)
  have "fst (sql_exec expires ?q tables) = Exec_Execute (case fst (consume_invite i now s) of Inr _ \<Rightarrow> 1 | Inl _ \<Rightarrow> 0) \<and>
    stores_agree js (snd (sql_exec expires ?q tables)) (snd (consume_invite i now s))"
  proof (cases "hm_get (st_invites s) i")
    case None
    then have "bt_get (tables Invites) [i] = None"
      using agree_invites(1)[OF assms(1), of i] by (simp add: bt_contains_def hm_contains_def)
    then show ?thesis using None assms(1) by (simp add: consume_invite_def)
  next
    case (Some invite)
    then obtain row where row: "bt_get (tables Invites) [i] = Some row" "published row"
      "co_decode (js_invite js) (last row) = Inr invite" using agree_invites(2)[OF assms(1)] by blast
    have e: "expires (last row) = Some (int (ir_expires_at invite))" using assms(2) row(3) by (simp add: expires_ok_def)
    show ?thesis
    proof (cases "ir_expires_at invite < now")
      case True
      then show ?thesis using Some row e assms(1,3) by (simp add: consume_invite_def as_i64_small)
    next
      case False
      then show ?thesis using Some row e assms(1,3) invite_view.agrees_drop[OF t, of i] bt.get_remove[OF wf, of "[i]"]
        by (simp add: consume_invite_def as_i64_small stores_agree_def invite_kf_def)
    qed
  qed
  then show "fst (sql_exec expires ?q tables) = Exec_Execute (case fst (consume_invite i now s) of Inr _ \<Rightarrow> 1 | Inl _ \<Rightarrow> 0)"
    and "stores_agree js (snd (sql_exec expires ?q tables)) (snd (consume_invite i now s))" by simp_all
qed

subsection \<open>The commit\<close>

lemma corr_touched_set: "set (corr_touched_services c) = set (touched_services c)"
proof -
  have "set (fold (\<lambda>r touched. if rr_service r \<in> set touched then touched else touched @ [rr_service r]) rs ts) =
    set ts \<union> rr_service ` set rs" for rs ts
    by (induction rs arbitrary: ts) (auto split: if_splits)
  then show ?thesis by (simp add: corr_touched_services_def touched_services_def)
qed

lemma sql_run_Cons: "snd (sql_run expires (q # qs) tables) = snd (sql_run expires qs (snd (sql_exec expires q tables)))"
  by (simp split: prod.split)

lemma sql_run_append: "snd (sql_run expires (qs @ qs') tables) = snd (sql_run expires qs' (snd (sql_run expires qs tables)))"
  by (induction qs arbitrary: tables) (simp_all add: sql_run_Cons del: sql_run.simps(2))

lemma release_upsert_Inr:
  "release_upsert_statement js r = Inr q \<longleftrightarrow>
    (\<exists>payload. co_encode (js_release js) r = Inr payload \<and> q = Upsert Service_Releases (release_key_cols r) [payload])"
  by (cases "co_encode (js_release js) r") (auto simp: release_upsert_statement_def encode_as_def)

lemma run_deletes_agree:
  "stores_agree js tables s \<Longrightarrow>
    stores_agree js (snd (sql_run expires (map (release_delete_statement ns) services) tables))
      (s\<lparr>st_service_releases := fold (\<lambda>service. hm_remove (ns, service)) services (st_service_releases s)\<rparr>)"
proof (induction services arbitrary: tables s)
  case Nil
  then show ?case by simp
next
  case (Cons service services)
  show ?case using Cons.IH[OF delete_release_agrees[OF Cons.prems, of expires ns service]]
    by (simp add: sql_run_Cons del: sql_run.simps)
qed

lemma run_upserts_agree:
  "stores_agree js tables s \<Longrightarrow> json_ok (js_release js) \<Longrightarrow> map_res (release_upsert_statement js) rs = Inr qs \<Longrightarrow>
    stores_agree js (snd (sql_run expires qs tables))
      (s\<lparr>st_service_releases := fold (\<lambda>r. hm_insert (rr_namespace r, rr_service r) r) rs (st_service_releases s)\<rparr>)"
proof (induction rs arbitrary: tables s qs)
  case Nil
  then show ?case by simp
next
  case (Cons r rs)
  obtain payload qs' where q: "co_encode (js_release js) r = Inr payload" "map_res (release_upsert_statement js) rs = Inr qs'"
    "qs = Upsert Service_Releases (release_key_cols r) [payload] # qs'"
    using Cons.prems(3) by (auto simp: release_upsert_Inr)
  have "payload \<noteq> []" "co_decode (js_release js) payload = Inr r" using Cons.prems(2) q(1) by (auto simp: json_ok_def)
  from Cons.IH[OF upsert_release_agrees[OF Cons.prems(1) this, of expires] Cons.prems(2) q(2)]
  show ?case by (simp add: q(3) sql_run_Cons del: sql_run.simps sql_exec.simps)
qed

lemma get_fold_remove:
  "hm_get (fold (\<lambda>service. hm_remove (ns, service)) services m) k =
    (if fst k = ns \<and> snd k \<in> set services then None else hm_get m k)"
  by (induction services arbitrary: m) (auto simp: delete_conv')

lemma wf_fold_remove: "hm_wf m \<Longrightarrow> hm_wf (fold (\<lambda>service. hm_remove (ns, service)) services m)"
  by (induction services arbitrary: m) (simp_all add: hm.wf_remove)

lemma stores_agree_releases_cong:
  assumes "stores_agree js tables (s\<lparr>st_service_releases := m\<rparr>)" "hm_get m = hm_get m'"
  shows "stores_agree js tables (s\<lparr>st_service_releases := m'\<rparr>)"
  using assms release_view.agrees_cong[of "js_release js" no_cols "tables Service_Releases" m m'] by (simp add: stores_agree_def)

lemma commit_releases_same:
  assumes "hm_wf (st_service_releases s)"
  shows "hm_get (fold (\<lambda>r. hm_insert (rr_namespace r, rr_service r) r) (dc_releases c)
      (fold (\<lambda>service. hm_remove (dc_namespace c, service)) (corr_touched_services c) (st_service_releases s))) =
    hm_get (st_service_releases (snd (apply_deploy_commit g c s)))"
  by (rule ext) (simp add: commit_releases_get[OF assms] fold_insert_releases hm.get_fold_insert[OF wf_fold_remove[OF assms]]
      get_fold_remove corr_touched_set commit_releases_def split: option.split)

lemma commit_agrees:
  assumes "stores_agree js tables s" "store_wf s" "json_ok (js_release js)" "json_ok (js_deploy js)"
    and "build_commit_statements js c = Inr qs"
  shows "stores_agree js (snd (sql_run expires qs tables)) (snd (apply_deploy_commit g c s))"
proof -
  let ?d = "dc_deploy c" and ?del = "fold (\<lambda>service. hm_remove (dc_namespace c, service)) (corr_touched_services c) (st_service_releases s)"
  obtain upserts payload where q: "map_res (release_upsert_statement js) (dc_releases c) = Inr upserts"
    "co_encode (js_deploy js) ?d = Inr payload"
    "qs = map (release_delete_statement (dc_namespace c)) (corr_touched_services c) @ upserts @
      [Upsert Deploys (deploy_key_cols ?d) (deploy_cols ?d @ [payload])]"
    using assms(5) by (cases "co_encode (js_deploy js) ?d")
      (auto simp: build_commit_statements_def deploy_upsert_statement_def encode_as_def Let_def)
  have p: "payload \<noteq> []" "co_decode (js_deploy js) payload = Inr ?d" using assms(4) q(2) by (auto simp: json_ok_def)
  have wf: "hm_wf (st_service_releases s)" using assms(2) by (simp add: store_wf_def hm_keyed_def)
  have "stores_agree js (snd (sql_run expires (map (release_delete_statement (dc_namespace c)) (corr_touched_services c) @ upserts) tables))
    (s\<lparr>st_service_releases := fold (\<lambda>r. hm_insert (rr_namespace r, rr_service r) r) (dc_releases c) ?del\<rparr>)"
    using run_upserts_agree[OF run_deletes_agree[OF assms(1)] assms(3) q(1), of expires expires "dc_namespace c" "corr_touched_services c"]
    by (simp add: sql_run_append)
  from upsert_deploy_agrees[OF stores_agree_releases_cong[OF this commit_releases_same[OF wf, of c g]] p, of expires]
  show ?thesis unfolding q(3) append_assoc[symmetric] sql_run_append
    by (simp add: sql_run_one stores_agree_def apply_deploy_commit_def Let_def split: prod.splits)
qed

section \<open>The calls\<close>

lemma outcome_broadcast: "outcome js s (broadcast_routing_refresh g s') res tables = outcome js s s' res tables"
proof -
  have "stores_agree js tables (broadcast_routing_refresh g s') = stores_agree js tables s'" by (simp add: stores_agree_def)
  then show ?thesis by (cases res) (simp_all add: outcome_def)
qed

lemma bind_lift_bind: "bind_act (lift_res (bind_res r (\<lambda>a. Inr (h a)))) f = bind_act (lift_res r) (\<lambda>a. f (h a))"
  by (rule ext, cases r) (simp_all add: bind_act_def lift_res_def)

context corrosion_db
begin

lemma query_rows_keeps: "query_rows cc q op d = (r, d') \<Longrightarrow> db d' = db d"
proof -
  assume a: "query_rows cc q op d = (r, d')"
  obtain x d1 where x: "cc_query cc q d = (x, d1)" by (cases "cc_query cc q d")
  then have "d' = d1" using a by (cases x) (simp_all add: query_rows_def bind_act_def map_err_act_def lift_res_def)
  then show "db d' = db d" using query_keeps[OF x] by simp
qed

lemma create_invite_outcome:
  assumes "corr_create_invite cc js invite d = (res, d')" "stores_agree js (db d) s"
  shows "outcome js s (snd (create_invite invite s)) res (db d') \<and> (res = Inr () \<longrightarrow> fst (create_invite invite s) = Inr ())"
proof -
  let ?s' = "snd (create_invite invite s)"
  from lift_res_cases[OF assms(1)[unfolded corr_create_invite_def]] show ?thesis
  proof (elim disjE exE conjE)
    show ?thesis if "res = Inl e" "d' = d" for e using that assms(2) by (simp add: outcome_def)
  next
    fix payload
    let ?q = "Insert Invites [ir_id invite] [payload]"
    assume enc: "encode_as ''create_invite'' (js_invite js) invite = Inr payload"
    assume run: "bind_act (map_err_act (Operation ''create_invite'') (cc_execute cc [?q])) (\<lambda>results.
        case results of Exec_Error e # _ \<Rightarrow>
          if contains_str ''UNIQUE'' e then fail_act (Operation ''invite_exists'' e) else fail_act (Operation ''create_invite'' e)
        | Exec_Execute _ # _ \<Rightarrow> ret_act () | [] \<Rightarrow> fail_act (Operation ''create_invite'' ''no result'')) d = (res, d')"
    have p: "payload \<noteq> []" "co_decode (js_invite js) payload = Inr invite"
      using enc json(2) by (cases "co_encode (js_invite js) invite"; auto simp: encode_as_def json_ok_def)+
    have agree: "stores_agree js (snd (sql_exec expires ?q (db d))) ?s'" by (rule insert_invite_agrees[OF assms(2) p])
    have dup: "bt_contains (db d Invites) [ir_id invite] \<longleftrightarrow> hm_contains (st_invites s) (ir_id invite)"
      by (rule agree_invites(1)[OF assms(2)])
    from execute_cases[OF run] agree assms(2) dup show ?thesis
      by (auto simp: outcome_def create_invite_def fail_act_def ret_act_def split: if_splits)
  qed
qed

lemma consume_invite_outcome:
  assumes "corr_consume_invite cc i now d = (res, d')" "stores_agree js (db d) s" "now < 2 ^ 63"
  shows "outcome js s (snd (consume_invite i now s)) res (db d') \<and> (res = Inr () \<longrightarrow> fst (consume_invite i now s) = Inr ())"
proof -
  let ?q = "Delete_Unexpired Invites [i] (as_i64 now)" and ?r = "fst (consume_invite i now s)"
  let ?n = "case ?r of Inr _ \<Rightarrow> 1 | Inl _ \<Rightarrow> (0::nat)"
  note ex = consume_invite_exec[OF assms(2) json_expires assms(3), of i]
  obtain tables where x: "sql_exec expires ?q (db d) = (Exec_Execute ?n, tables)" using ex(1) by (cases "sql_exec expires ?q (db d)") auto
  have agree: "stores_agree js tables (snd (consume_invite i now s))" using ex(2) x by simp
  from execute_cases[OF assms(1)[unfolded corr_consume_invite_def Let_def]] show ?thesis
  proof (elim disjE exE conjE)
    show ?thesis if "res = Inl e" "db d' = db d" for e using that assms(2) by (simp add: outcome_def)
  next
    show ?thesis if "res = Inl e" "db d' = snd (sql_run expires [?q] (db d))" for e
      using that x agree by (simp add: outcome_def sql_run_one del: sql_run.simps)
  next
    fix results d1
    assume run: "sql_run expires [?q] (db d) = (results, db d1)"
    then have r: "results = [Exec_Execute ?n]" "db d1 = tables" using x by (simp_all add: sql_run_one del: sql_run.simps)
    assume f: "(case results of
        Exec_Execute n # _ \<Rightarrow> if n = 1 then ret_act () else
          bind_act (query_rows cc (Select Invites (Of_Key [i])) ''consume_invite'') (\<lambda>rows.
            if rows = [] then fail_act (Operation ''invite_not_found'' (''invite '' @ quoted i @ '' not found''))
            else fail_act (Operation ''invite_expired'' (''invite '' @ quoted i @ '' is expired'')))
      | Exec_Error e # _ \<Rightarrow> fail_act (Operation ''consume_invite'' e)
      | [] \<Rightarrow> bind_act (query_rows cc (Select Invites (Of_Key [i])) ''consume_invite'') (\<lambda>rows.
            if rows = [] then fail_act (Operation ''invite_not_found'' (''invite '' @ quoted i @ '' not found''))
            else fail_act (Operation ''invite_expired'' (''invite '' @ quoted i @ '' is expired'')))) d1 = (res, d')"
    show ?thesis
    proof (cases ?r)
      case (Inr u)
      then show ?thesis using f r agree by (auto simp: outcome_def ret_act_def)
    next
      case (Inl e)
      obtain y d2 where y: "query_rows cc (Select Invites (Of_Key [i])) ''consume_invite'' d1 = (y, d2)"
        by (cases "query_rows cc (Select Invites (Of_Key [i])) ''consume_invite'' d1")
      have "d' = d2 \<and> (\<exists>e. res = Inl e)" using f r y Inl by (cases y) (auto simp: bind_act_def fail_act_def split: if_splits)
      then show ?thesis using query_rows_keeps[OF y] agree r(2) by (auto simp: outcome_def)
    qed
  qed
qed

lemma upsert_machine_outcome:
  assumes "corr_upsert_self_machine cc js r d = (res, d')" "stores_agree js (db d) s"
  shows "outcome js s (snd (upsert_self_machine f r s)) res (db d')"
  by (rule encode_outcome[OF assms(1)[unfolded corr_upsert_self_machine_def] json(1) assms(2)])
     (rule exec_one_outcome[OF _ assms(2) upsert_machine_agrees[OF assms(2)]])

lemma delete_machine_outcome:
  assumes "corr_delete_machine cc i d = (res, d')" "stores_agree js (db d) s"
  shows "outcome js s (snd (delete_machine f i s)) res (db d')"
  by (rule exec_one_outcome[OF assms(1)[unfolded corr_delete_machine_def] assms(2) delete_machine_agrees[OF assms(2)]])

lemma upsert_revision_outcome:
  assumes "corr_upsert_service_revision cc js r d = (res, d')" "stores_agree js (db d) s"
    and "hm_get (st_service_revisions s) (revision_key_of r) \<in> {None, Some r}"
  shows "outcome js s (snd (upsert_service_revision g r s)) res (db d')"
  unfolding upsert_service_revision_def snd_conv outcome_broadcast revision_key_of_def[symmetric]
  by (rule encode_outcome[OF assms(1)[unfolded corr_upsert_service_revision_def] json(3) assms(2)])
     (rule exec_one_outcome[OF _ assms(2) upsert_revision_agrees[OF assms(2) _ _ assms(3)]])

lemma upsert_release_outcome:
  assumes "corr_upsert_service_release cc js r d = (res, d')" "stores_agree js (db d) s"
  shows "outcome js s (snd (upsert_service_release g r s)) res (db d')"
  unfolding upsert_service_release_def snd_conv outcome_broadcast
  by (rule encode_outcome[OF assms(1)[unfolded corr_upsert_service_release_def release_upsert_statement_def bind_lift_bind]
        json(4) assms(2)])
     (rule exec_one_outcome[OF _ assms(2) upsert_release_agrees[OF assms(2)]])

lemma delete_release_outcome:
  assumes "corr_delete_service_release cc ns service d = (res, d')" "stores_agree js (db d) s"
  shows "outcome js s (snd (delete_service_release g ns service s)) res (db d')"
  unfolding delete_service_release_def snd_conv outcome_broadcast
  by (rule exec_one_outcome[OF assms(1)[unfolded corr_delete_service_release_def] assms(2) delete_release_agrees[OF assms(2)]])

lemma upsert_instance_outcome:
  assumes "corr_upsert_instance_status cc js r d = (res, d')" "stores_agree js (db d) s"
  shows "outcome js s (snd (upsert_instance_status g r s)) res (db d')"
  unfolding upsert_instance_status_def snd_conv outcome_broadcast
  by (rule encode_outcome[OF assms(1)[unfolded corr_upsert_instance_status_def] json(5) assms(2)])
     (rule exec_one_outcome[OF _ assms(2) upsert_instance_agrees[OF assms(2)]])

lemma delete_instance_outcome:
  assumes "corr_delete_instance_status cc i d = (res, d')" "stores_agree js (db d) s"
  shows "outcome js s (snd (delete_instance_status g i s)) res (db d')"
  unfolding delete_instance_status_def snd_conv outcome_broadcast
  by (rule exec_one_outcome[OF assms(1)[unfolded corr_delete_instance_status_def] assms(2) delete_instance_agrees[OF assms(2)]])

lemma upsert_deploy_outcome:
  assumes "corr_upsert_deploy cc js r d = (res, d')" "stores_agree js (db d) s"
  shows "outcome js s (snd (upsert_deploy r s)) res (db d')"
  unfolding upsert_deploy_def snd_conv
  by (rule encode_outcome[OF assms(1)[unfolded corr_upsert_deploy_def deploy_upsert_statement_def bind_lift_bind] json(6) assms(2)])
     (rule exec_one_outcome[OF _ assms(2) upsert_deploy_agrees[OF assms(2)]])

lemma commit_outcome:
  assumes "corr_apply_deploy_commit cc js c d = (res, d')" "stores_agree js (db d) s" "store_wf s"
  shows "outcome js s (snd (apply_deploy_commit g c s)) res (db d')"
  using lift_res_cases[OF assms(1)[unfolded corr_apply_deploy_commit_def]]
    exec_all_outcome[OF _ assms(2) commit_agrees[OF assms(2,3) json(4,6)]] assms(2)
  by (auto simp: outcome_def)

lemma call_outcome:
  assumes "corr_call cc js call d = (res, d')" "stores_agree js (db d) s" "store_wf s" "call_fits call s"
  shows "outcome js s (store_call f g call s) res (db d') \<and> (res = Inr () \<longrightarrow> store_result f g call s = Inr ())"
proof (cases call)
  case (Call_Upsert_Revision r)
  then show ?thesis using upsert_revision_outcome[of r d res d' s g] assms
    by (simp add: call_fits_def) (simp add: upsert_service_revision_def)
next
  case (Call_Upsert_Release r)
  then show ?thesis using upsert_release_outcome[of r d res d' s g] assms by (simp, simp add: upsert_service_release_def)
next
  case (Call_Delete_Release ns service)
  then show ?thesis using delete_release_outcome[of ns service d res d' s g] assms by (simp, simp add: delete_service_release_def)
next
  case (Call_Upsert_Instance r)
  then show ?thesis using upsert_instance_outcome[of r d res d' s g] assms by (simp, simp add: upsert_instance_status_def)
next
  case (Call_Delete_Instance i)
  then show ?thesis using delete_instance_outcome[of i d res d' s g] assms by (simp, simp add: delete_instance_status_def)
next
  case (Call_Upsert_Deploy r)
  then show ?thesis using upsert_deploy_outcome[of r d res d' s] assms by (simp, simp add: upsert_deploy_def)
next
  case (Call_Commit c)
  then show ?thesis using commit_outcome[of c d res d' s g] assms by (simp, simp add: apply_deploy_commit_def Let_def)
next
  case (Call_Create_Invite i)
  then show ?thesis using create_invite_outcome[of i d res d' s] assms by simp
next
  case (Call_Consume_Invite i now)
  then show ?thesis using consume_invite_outcome[of i now d res d' s] assms by (simp add: call_fits_def)
next
  case (Call_Upsert_Machine r)
  then show ?thesis using upsert_machine_outcome[of r d res d' s f] assms by (simp, simp add: upsert_self_machine_def Let_def)
next
  case (Call_Delete_Machine i)
  then show ?thesis using delete_machine_outcome[of i d res d' s f] assms
    by (simp, simp add: delete_machine_def split: option.split)
qed

end

section \<open>The reads\<close>

lemma collect_full_stream: "collect_rows op (full_stream rows) = Inr rows"
proof -
  have "collect_rows op (map (\<lambda>(i, row). Item_Event (Ev_Row i row)) (enumerate n rows) @ [Item_Event (Ev_End_Of_Query None)]) = Inr rows" for n
    by (induction rows arbitrary: n) simp_all
  then show ?thesis by (simp add: full_stream_def)
qed

text \<open>A stream that breaks off is an error, never a shorter list.\<close>

definition quiet_item :: "stream_item \<Rightarrow> bool" where
  "quiet_item it \<longleftrightarrow> it = Item_Event Ev_Columns \<or> (\<exists>i row. it = Item_Event (Ev_Row i row))"

lemma full_stream_prefix: "n < length (full_stream rows) \<Longrightarrow> it \<in> set (take n (full_stream rows)) \<Longrightarrow> quiet_item it"
proof -
  let ?body = "Item_Event Ev_Columns # map (\<lambda>(i, row). Item_Event (Ev_Row i row)) (enumerate 1 rows)"
  assume n: "n < length (full_stream rows)" and it: "it \<in> set (take n (full_stream rows))"
  have f: "full_stream rows = ?body @ [Item_Event (Ev_End_Of_Query None)]" by (simp add: full_stream_def)
  have "n \<le> length ?body" using n by (simp add: f)
  then have "take n (full_stream rows) = take n ?body" unfolding f take_append by simp
  then have "it \<in> set ?body" using it in_set_takeD[of it n ?body] by simp
  then show "quiet_item it" by (auto simp: quiet_item_def)
qed

lemma collect_broken:
  assumes "\<And>it. it \<in> set pre \<Longrightarrow> quiet_item it" "bad = Item_Timeout \<or> (\<exists>e. bad = Item_Error e)"
  shows "\<exists>e. collect_rows op (pre @ [bad]) = Inl e"
  using assms(1)
proof (induction pre)
  case Nil
  then show ?case using assms(2) by auto
next
  case (Cons it pre)
  obtain e where "collect_rows op (pre @ [bad]) = Inl e" using Cons.IH Cons.prems by auto
  moreover have "quiet_item it" by (rule Cons.prems) simp
  ultimately show ?case unfolding quiet_item_def by (elim disjE exE) simp_all
qed

context corrosion_db
begin

lemma query_rows_ok:
  assumes "query_rows cc (Select t f) op d = (Inr rows, d')"
  shows "rows = sql_select t f (db d)"
proof -
  obtain items d1 where q: "cc_query cc (Select t f) d = (Inr items, d1)" and c: "collect_rows op items = Inr rows"
    using assms by (cases "cc_query cc (Select t f) d"; cases "fst (cc_query cc (Select t f) d)")
      (auto simp: query_rows_def bind_act_def map_err_act_def lift_res_def)
  from query_ok[OF q] show ?thesis
  proof
    assume "items = full_stream (sql_select t f (db d))"
    then show ?thesis using c by (simp add: collect_full_stream)
  next
    assume "broken_off (full_stream (sql_select t f (db d))) items"
    then obtain n bad where b: "n < length (full_stream (sql_select t f (db d)))"
      "items = take n (full_stream (sql_select t f (db d))) @ [bad]" "bad = Item_Timeout \<or> (\<exists>e. bad = Item_Error e)"
      unfolding broken_off_def by blast
    obtain e where "collect_rows op items = Inl e"
      using collect_broken[of "take n (full_stream (sql_select t f (db d)))", OF full_stream_prefix[OF b(1)] b(3)] b(2) by blast
    then show ?thesis using c by simp
  qed
qed

end

lemma map_res_Sql_Text:
  "length texts = length names \<Longrightarrow> map_res (\<lambda>(val, field). sql_text val field) (zip (map Sql_Text texts) names) = Inr texts"
  by (induction texts names rule: list_induct2) (simp_all add: sql_text_def)

lemma parse_row_ok:
  assumes "length names = Suc (length (pcols r))" "co_decode co payload = Inr r"
  shows "parse_row op names co pcols mismatch (map Sql_Text (pcols r @ [payload])) = Inr r"
  using assms map_res_Sql_Text[of "pcols r @ [payload]" names] by (simp add: parse_row_def)

context table_view
begin

lemma published_entry:
  assumes "table_agrees kf co cols t m" "(c, row) \<in> set t" "published row"
  shows "\<exists>k r. c = kf k \<and> hm_get m k = Some r \<and> row_holds co cols row r"
proof -
  have get: "bt_get t c = Some row"
    using assms(2) bt.entries_get[OF agrees_wf[OF assms(1)], of c row] by simp
  then obtain k where k: "c = kf k" using agrees_key[OF assms(1) _ assms(3)] by blast
  obtain r where r: "hm_get m k = Some r" using agrees_None[OF assms(1), of k row] get k assms(3) by (cases "hm_get m k") auto
  then show ?thesis using agrees_Some[OF assms(1) r] get k by auto
qed

text \<open>The rows of a query, read, are the records of the memory store that pass its filter, each once.\<close>

lemma select_reads:
  assumes t: "table_agrees kf co cols (tables tb) m" "hm_keyed key m"
    and parse: "parse = parse_row op names co pcols mismatch"
    and cols: "\<And>r. pcols r = kf (key r) @ cols r" "\<And>r. length names = Suc (length (pcols r))"
    and pass: "\<And>r payload. passes tb flt (kf (key r), cols r @ [payload]) \<longleftrightarrow> P r"
  shows "\<exists>rs. map_res parse (sql_select tb flt tables) = Inr rs \<and> set rs = {r \<in> set (hm_values m). P r} \<and> distinct rs"
proof -
  define es where "es = sort_key (row_order tb) (filter (\<lambda>(c, row). published row \<and> passes tb flt (c, row)) (tables tb))"
  define h where "h = (\<lambda>(c, row :: string list). the (hm_get m (inv kf c)))"
  have inv: "inv kf (kf k) = k" for k using kf_inj by (simp add: inv_f_f inj_on_def)
  have wf: "hm_wf m" and keyed: "\<And>k r. hm_get m k = Some r \<Longrightarrow> key r = k" using t(2) by (simp_all add: hm_keyed_def)
  have entry: "\<exists>r. c = kf (key r) \<and> hm_get m (key r) = Some r \<and> row_holds co cols row r \<and> h (c, row) = r \<and> P r"
    if "(c, row) \<in> set es" for c row
  proof -
    have e: "(c, row) \<in> set (tables tb)" "published row" "passes tb flt (c, row)" using that by (auto simp: es_def)
    obtain k r where k: "c = kf k" "hm_get m k = Some r" "row_holds co cols row r" using published_entry[OF t(1) e(1,2)] by blast
    have "passes tb flt (kf (key r), cols r @ [last row])" using e(3) k keyed[OF k(2)] by (simp add: row_holds_def)
    then show ?thesis using k keyed[OF k(2)] pass[of r "last row"] by (auto simp: h_def inv)
  qed
  have read: "map_res parse (sql_select tb flt tables) = Inr (map h es)"
  proof -
    have "parse (map Sql_Text (c @ row)) = Inr (h (c, row))" if e: "(c, row) \<in> set es" for c row
    proof -
      obtain r where r: "c = kf (key r)" "row_holds co cols row r" "h (c, row) = r" using entry[OF e] by blast
      have "c @ row = pcols r @ [last row]" using r(1,2) by (simp add: cols row_holds_def)
      then show ?thesis using parse_row_ok[of names pcols r co "last row" op mismatch] cols(2)[of r] r
        by (simp add: parse row_holds_def)
    qed
    then show ?thesis
      by (auto simp: map_res_Inr_iff sql_select_def es_def[symmetric] list_all2_map1 list_all2_map2 list_all2_same)
  qed
  have "distinct (map fst es)" using agrees_wf[OF t(1)] bt.entries_distinct[of "tables tb"]
    by (simp add: es_def distinct_map inj_on_def)
  moreover have "map fst es = map (kf \<circ> key) (map h es)"
  proof -
    have "fst e = kf (key (h e))" if e: "e \<in> set es" for e using entry[of "fst e" "snd e"] e by auto
    then show ?thesis by simp
  qed
  ultimately have d: "distinct (map h es)" using distinct_map by metis
  have "r \<in> h ` set es" if g: "hm_get m k = Some r" and p: "P r" for k r
  proof -
    obtain row where row: "bt_get (tables tb) (kf k) = Some row" "row_holds co cols row r" using agrees_Some[OF t(1) g] by blast
    have "passes tb flt (kf k, cols r @ [last row])" using pass[of r "last row"] p keyed[OF g] by simp
    moreover have "cols r @ [last row] = row" using row(2) by (simp add: row_holds_def)
    ultimately have "(kf k, row) \<in> set es" using row map_of_SomeD[OF row(1)] by (simp add: es_def row_holds_def)
    moreover have "h (kf k, row) = r" using g by (simp add: h_def inv)
    ultimately show ?thesis by force
  qed
  moreover have "h e \<in> set (hm_values m) \<and> P (h e)" if "e \<in> set es" for e
    using entry[of "fst e" "snd e"] that by (auto simp: hm_values_get[OF wf])
  ultimately have "set (map h es) = {r \<in> set (hm_values m). P r}" by (auto simp: hm_values_get[OF wf])
  then show ?thesis using read d by blast
qed

end

lemma machine_reads:
  assumes "stores_agree js tables s" "store_wf s"
  shows "\<exists>rs. map_res (parse_machine_row js) (sql_select Machines All_Rows tables) = Inr rs \<and>
    set rs = set (hm_values (st_machines s)) \<and> distinct rs"
  using machine_view.select_reads[of "js_machine js" no_cols tables Machines "st_machines s" mr_id _
      _ _ _ _ All_Rows "\<lambda>_. True", OF _ _ parse_machine_row_def] assms
  by (simp add: stores_agree_def store_wf_def machine_key_def machine_kf_def)

lemma revision_reads:
  assumes "stores_agree js tables s" "store_wf s"
    and "\<And>r payload. passes Service_Revisions flt (revision_key_cols r, [payload]) \<longleftrightarrow> P r"
  shows "\<exists>rs. map_res (parse_service_revision js) (sql_select Service_Revisions flt tables) = Inr rs \<and>
    set rs = {r \<in> set (hm_values (st_service_revisions s)). P r} \<and> distinct rs"
  using revision_view.select_reads[of "js_revision js" no_cols tables Service_Revisions "st_service_revisions s"
      "\<lambda>r. (rv_namespace r, rv_service r, rv_revision_hash r)" _ _ _ _ _ flt P, OF _ _ parse_service_revision_def] assms
  by (simp add: stores_agree_def store_wf_def revision_key_cols_def revision_kf_def)

lemma release_reads:
  assumes "stores_agree js tables s" "store_wf s"
    and "\<And>r payload. passes Service_Releases flt (release_key_cols r, [payload]) \<longleftrightarrow> P r"
  shows "\<exists>rs. map_res (parse_service_release js) (sql_select Service_Releases flt tables) = Inr rs \<and>
    set rs = {r \<in> set (hm_values (st_service_releases s)). P r} \<and> distinct rs"
  using release_view.select_reads[of "js_release js" no_cols tables Service_Releases "st_service_releases s"
      "\<lambda>r. (rr_namespace r, rr_service r)" _ _ _ _ _ flt P, OF _ _ parse_service_release_def] assms
  by (simp add: stores_agree_def store_wf_def release_key_cols_def release_kf_def)

lemma instance_reads:
  assumes "stores_agree js tables s" "store_wf s"
    and "\<And>r payload. passes Instance_Status flt (instance_key_cols r, instance_cols r @ [payload]) \<longleftrightarrow> P r"
  shows "\<exists>rs. map_res (parse_instance_status js) (sql_select Instance_Status flt tables) = Inr rs \<and>
    set rs = {r \<in> set (hm_values (st_instance_status s)). P r} \<and> distinct rs"
  using instance_view.select_reads[of "js_instance js" instance_cols tables Instance_Status "st_instance_status s" is_instance_id
      _ _ _ _ _ flt P, OF _ _ parse_instance_status_def] assms
  by (simp add: stores_agree_def store_wf_def instance_key_cols_def instance_kf_def instance_cols_def)

context corrosion_db
begin

lemma query_records_ok:
  assumes "query_records cc (Select t f) op parse d = (Inr rs, d')" "map_res parse (sql_select t f (db d)) = Inr rs'"
  shows "rs = rs' \<and> db d' = db d"
proof -
  obtain x d1 where q: "query_rows cc (Select t f) op d = (x, d1)" by (cases "query_rows cc (Select t f) op d")
  then obtain rows where x: "x = Inr rows" "map_res parse rows = Inr rs" "d1 = d'"
    using assms(1) by (cases x) (auto simp: query_records_def bind_act_def lift_res_def)
  then show ?thesis using query_rows_ok[of t f op d rows d1] query_rows_keeps[OF q] q assms(2) by simp
qed

text \<open>The lists by namespace are those of the memory store.\<close>

lemma list_ok:
  assumes "stores_agree js (db d) s" "store_wf s"
  shows "corr_list_machines cc js d = (Inr ms, d') \<Longrightarrow> set ms = set (hm_values (st_machines s))"
    and "corr_list_service_revisions cc js ns d = (Inr vs, d') \<Longrightarrow> list_service_revisions ns s = (Inr vs', s) \<Longrightarrow> set vs = set vs'"
    and "corr_list_service_releases cc js ns d = (Inr rs, d') \<Longrightarrow> list_service_releases ns s = (Inr rs', s) \<Longrightarrow> set rs = set rs'"
    and "corr_list_instance_status cc js ns d = (Inr is, d') \<Longrightarrow> list_instance_status ns s = (Inr is', s) \<Longrightarrow> set is = set is'"
  using machine_reads[OF assms]
    revision_reads[OF assms, of "Of_Namespace (namespace_str ns)" "\<lambda>r. rv_namespace r = ns"]
    release_reads[OF assms, of "Of_Namespace (namespace_str ns)" "\<lambda>r. rr_namespace r = ns"]
    instance_reads[OF assms, of "Of_Namespace (namespace_str ns)" "\<lambda>r. is_namespace r = ns"]
  by (auto simp: corr_list_machines_def corr_list_service_revisions_def corr_list_service_releases_def corr_list_instance_status_def
      list_service_revisions_def list_service_releases_def list_instance_status_def
      revision_key_cols_def release_key_cols_def instance_key_cols_def instance_cols_def dest!: query_records_ok)

lemma load_routing_ok:
  assumes "corr_load_routing_state cc js d = (Inr st, d')" "stores_agree js (db d) s" "store_wf s"
  shows "set (rt_revisions st) = set (rt_revisions (routing_of s)) \<and> set (rt_releases st) = set (rt_releases (routing_of s)) \<and>
    set (rt_instances st) = set (rt_instances (routing_of s)) \<and>
    distinct (rt_revisions st) \<and> distinct (rt_releases st) \<and> distinct (rt_instances st) \<and> db d' = db d"
proof -
  obtain vs d1 rs d2 "is" where l: "load_all_service_revisions cc js d = (Inr vs, d1)" "load_all_service_releases cc js d1 = (Inr rs, d2)"
    "load_all_instance_status cc js d2 = (Inr is, d')" "st = \<lparr> rt_revisions = vs, rt_releases = rs, rt_instances = is \<rparr>"
    using assms(1) by (auto simp: corr_load_routing_state_def split: prod.splits)
  have 1: "set vs = set (hm_values (st_service_revisions s)) \<and> distinct vs \<and> db d1 = db d"
    using revision_reads[OF assms(2,3), of All_Rows "\<lambda>_. True"] query_records_ok[OF l(1)[unfolded load_all_service_revisions_def]] by auto
  have 2: "set rs = set (hm_values (st_service_releases s)) \<and> distinct rs \<and> db d2 = db d"
    using release_reads[OF assms(2,3), of All_Rows "\<lambda>_. True"] query_records_ok[OF l(2)[unfolded load_all_service_releases_def]] 1 by auto
  have 3: "set is = set (hm_values (st_instance_status s)) \<and> distinct is \<and> db d' = db d"
    using instance_reads[OF assms(2,3), of All_Rows "\<lambda>_. True"] query_records_ok[OF l(3)[unfolded load_all_instance_status_def]] 2 by auto
  show ?thesis using 1 2 3 l(4) by (simp add: routing_of_def)
qed

end

section \<open>A database that answers\<close>

definition responsive :: "'d corr_client \<Rightarrow> ('d \<Rightarrow> corro_tables) \<Rightarrow> (string \<Rightarrow> int option) \<Rightarrow> bool" where
  "responsive cc db expires \<longleftrightarrow>
    (\<forall>qs d. fst (cc_execute cc qs d) = Inr (fst (sql_run expires qs (db d)))) \<and>
    (\<forall>t f d. fst (cc_query cc (Select t f) d) = Inr (full_stream (sql_select t f (db d))))"

text \<open>Every record of the call can be written.\<close>

definition encodable :: "json_codec \<Rightarrow> store_request \<Rightarrow> bool" where
  "encodable js call = (case call of
      Call_Upsert_Revision r \<Rightarrow> \<not> isl (co_encode (js_revision js) r)
    | Call_Upsert_Release r \<Rightarrow> \<not> isl (co_encode (js_release js) r)
    | Call_Upsert_Instance r \<Rightarrow> \<not> isl (co_encode (js_instance js) r)
    | Call_Upsert_Deploy r \<Rightarrow> \<not> isl (co_encode (js_deploy js) r)
    | Call_Commit c \<Rightarrow> (\<forall>r \<in> set (dc_releases c). \<not> isl (co_encode (js_release js) r)) \<and> \<not> isl (co_encode (js_deploy js) (dc_deploy c))
    | Call_Create_Invite i \<Rightarrow> \<not> isl (co_encode (js_invite js) i)
    | Call_Upsert_Machine r \<Rightarrow> \<not> isl (co_encode (js_machine js) r)
    | _ \<Rightarrow> True)"

fun plain_write :: "sql \<Rightarrow> bool" where
  "plain_write (Upsert _ _ _) = True"
| "plain_write (Upsert_Unpublished _ _ _) = True"
| "plain_write (Delete _ _) = True"
| "plain_write _ = False"

lemma plain_write_runs: "plain_write q \<Longrightarrow> \<exists>n. fst (sql_exec expires q tables) = Exec_Execute n"
  by (cases q) (auto split: option.split)

lemma plain_writes_run:
  "(\<And>q. q \<in> set qs \<Longrightarrow> plain_write q) \<Longrightarrow> List.map_filter exec_error (fst (sql_run expires qs tables)) = []"
proof (induction qs arbitrary: tables)
  case Nil
  then show ?case by simp
next
  case (Cons q qs)
  obtain n tables' where x: "sql_exec expires q tables = (Exec_Execute n, tables')"
    using plain_write_runs[of q expires tables] Cons.prems by (cases "sql_exec expires q tables") auto
  obtain rs tables'' where "sql_run expires qs tables' = (rs, tables'')" by (cases "sql_run expires qs tables'")
  then show ?case using Cons.IH[of tables'] Cons.prems x by (simp add: map_filter_simps)
qed

lemma responsive_execute:
  assumes "responsive cc db expires"
  obtains d' where "cc_execute cc qs d = (Inr (fst (sql_run expires qs (db d))), d')"
proof -
  have "fst (cc_execute cc qs d) = Inr (fst (sql_run expires qs (db d)))" using assms by (simp add: responsive_def)
  then show thesis using that[of "snd (cc_execute cc qs d)"] by (metis prod.collapse)
qed

lemma exec_one_responds:
  assumes "responsive cc db expires" "plain_write q"
  shows "fst (exec_one cc [q] op d) = Inr ()"
proof -
  obtain d' where x: "cc_execute cc [q] d = (Inr (fst (sql_run expires [q] (db d))), d')" by (rule responsive_execute[OF assms(1)])
  obtain n where "fst (sql_exec expires q (db d)) = Exec_Execute n" using plain_write_runs[OF assms(2)] by blast
  then show ?thesis using x
    by (simp add: exec_one_def bind_act_def map_err_act_def sql_run_one ret_act_def split: prod.splits del: sql_run.simps)
qed

lemma exec_all_responds:
  assumes "responsive cc db expires" "\<And>q. q \<in> set qs \<Longrightarrow> plain_write q"
  shows "fst (exec_all cc qs op d) = Inr ()"
proof -
  obtain d' where x: "cc_execute cc qs d = (Inr (fst (sql_run expires qs (db d))), d')" by (rule responsive_execute[OF assms(1)])
  then show ?thesis using plain_writes_run[of qs expires "db d"] assms(2)
    by (simp add: exec_all_def bind_act_def map_err_act_def ret_act_def)
qed

lemma query_rows_responds:
  assumes "responsive cc db expires"
  shows "fst (query_rows cc (Select t f) op d) = Inr (sql_select t f (db d))"
proof -
  have "fst (cc_query cc (Select t f) d) = Inr (full_stream (sql_select t f (db d)))" using assms by (simp add: responsive_def)
  then show ?thesis
    by (cases "cc_query cc (Select t f) d") (simp add: query_rows_def bind_act_def map_err_act_def lift_res_def collect_full_stream)
qed

lemma encode_responds: "\<not> isl (co_encode co r) \<Longrightarrow> \<exists>payload. encode_as op co r = Inr payload"
  by (cases "co_encode co r") (simp_all add: encode_as_def)

lemma commit_writes:
  assumes "encodable js (Call_Commit c)"
  shows "\<exists>qs. build_commit_statements js c = Inr qs \<and> (\<forall>q \<in> set qs. plain_write q)"
proof -
  have upserts: "\<exists>qs. map_res (release_upsert_statement js) rs = Inr qs \<and> (\<forall>q \<in> set qs. plain_write q)"
    if "\<forall>r \<in> set rs. \<not> isl (co_encode (js_release js) r)" for rs
    using that
  proof (induction rs)
    case (Cons r rs)
    obtain payload where "co_encode (js_release js) r = Inr payload" using Cons.prems by (cases "co_encode (js_release js) r") auto
    then have "release_upsert_statement js r = Inr (Upsert Service_Releases (release_key_cols r) [payload])" by (simp add: release_upsert_Inr)
    then show ?case using Cons by auto
  qed simp
  have e: "\<forall>r \<in> set (dc_releases c). \<not> isl (co_encode (js_release js) r)" "\<not> isl (co_encode (js_deploy js) (dc_deploy c))"
    using assms by (simp_all add: encodable_def)
  obtain qs where qs: "map_res (release_upsert_statement js) (dc_releases c) = Inr qs" "\<forall>q \<in> set qs. plain_write q"
    using upserts[OF e(1)] by blast
  obtain payload where "encode_as ''upsert_deploy'' (js_deploy js) (dc_deploy c) = Inr payload"
    using encode_responds[OF e(2)] by blast
  then show ?thesis using qs by (auto simp: build_commit_statements_def deploy_upsert_statement_def release_delete_statement_def)
qed

lemma sort_key_empty: "sort_key f xs = [] \<longleftrightarrow> xs = []"
  using length_sort[of f xs] by (metis length_0_conv)

lemma invite_lookup:
  assumes "stores_agree js tables s"
  shows "sql_select Invites (Of_Key [i]) tables = [] \<longleftrightarrow> hm_get (st_invites s) i = None"
proof -
  have wf: "bt_wf (tables Invites)" and pub: "\<And>c row. bt_get (tables Invites) c = Some row \<Longrightarrow> published row"
    using assms by (auto simp: stores_agree_def table_agrees_def)
  have "sql_select Invites (Of_Key [i]) tables = [] \<longleftrightarrow> \<not> (\<exists>row. ([i], row) \<in> set (tables Invites) \<and> published row)"
    by (auto simp: sql_select_def filter_empty_conv sort_key_empty)
  also have "\<dots> \<longleftrightarrow> \<not> (\<exists>row. bt_get (tables Invites) [i] = Some row)" using bt.entries_get[OF wf, of "[i]"] pub[of "[i]"] by auto
  also have "\<dots> \<longleftrightarrow> \<not> bt_contains (tables Invites) [i]" by (auto simp: bt_contains_def)
  also have "\<dots> \<longleftrightarrow> hm_get (st_invites s) i = None" using agree_invites(1)[OF assms, of i] by (simp add: hm_contains_def)
  finally show ?thesis .
qed

context corrosion_db
begin

lemma create_invite_responds:
  assumes "responsive cc db expires" "stores_agree js (db d) s" "\<not> isl (co_encode (js_invite js) invite)"
  shows "case fst (create_invite invite s) of
      Inr _ \<Rightarrow> fst (corr_create_invite cc js invite d) = Inr ()
    | Inl e' \<Rightarrow> (\<exists>e. fst (corr_create_invite cc js invite d) = Inl e \<and> same_error e e')"
proof -
  obtain payload where p: "encode_as ''create_invite'' (js_invite js) invite = Inr payload" using encode_responds[OF assms(3)] by blast
  let ?q = "Insert Invites [ir_id invite] [payload]"
  obtain d' where x: "cc_execute cc [?q] d = (Inr (fst (sql_run expires [?q] (db d))), d')" by (rule responsive_execute[OF assms(1)])
  have "contains_str ''UNIQUE'' ''UNIQUE constraint failed''" by code_simp
  then show ?thesis using p x agree_invites(1)[OF assms(2), of "ir_id invite"]
    by (auto simp: corr_create_invite_def create_invite_def bind_act_def lift_res_def map_err_act_def fail_act_def ret_act_def)
qed

lemma consume_invite_responds:
  assumes "responsive cc db expires" "stores_agree js (db d) s" "now < 2 ^ 63"
  shows "case fst (consume_invite i now s) of
      Inr _ \<Rightarrow> fst (corr_consume_invite cc i now d) = Inr ()
    | Inl e' \<Rightarrow> (\<exists>e. fst (corr_consume_invite cc i now d) = Inl e \<and> same_error e e')"
proof -
  let ?q = "Delete_Unexpired Invites [i] (as_i64 now)" and ?r = "fst (consume_invite i now s)"
  let ?sel = "query_rows cc (Select Invites (Of_Key [i])) ''consume_invite''"
  obtain d' where x: "cc_execute cc [?q] d = (Inr (fst (sql_run expires [?q] (db d))), d')" by (rule responsive_execute[OF assms(1)])
  note ex = consume_invite_exec[OF assms(2) json_expires assms(3), of i]
  have run: "sql_run expires [?q] (db d) = ([Exec_Execute (case ?r of Inr _ \<Rightarrow> 1 | Inl _ \<Rightarrow> 0)], db d')"
    using execute_ok[OF x] ex(1) by (simp add: sql_run_one split: prod.splits del: sql_run.simps)
  show ?thesis
  proof (cases ?r)
    case (Inr u)
    then show ?thesis using x run by (simp add: corr_consume_invite_def bind_act_def map_err_act_def ret_act_def del: sql_run.simps)
  next
    case (Inl e')
    have same: "snd (consume_invite i now s) = s" using Inl by (auto simp: consume_invite_def split: option.splits if_splits)
    have "stores_agree js (db d') s" using ex(2) run same by (simp add: sql_run_one split: prod.splits del: sql_run.simps)
    then have look: "fst (?sel d') = Inr (sql_select Invites (Of_Key [i]) (db d'))"
      "sql_select Invites (Of_Key [i]) (db d') = [] \<longleftrightarrow> hm_get (st_invites s) i = None"
      using query_rows_responds[OF assms(1)] invite_lookup by blast+
    obtain d2 where "?sel d' = (Inr (sql_select Invites (Of_Key [i]) (db d')), d2)" using look(1) by (cases "?sel d'") auto
    then have "fst (corr_consume_invite cc i now d) = Inl (if hm_get (st_invites s) i = None
        then Operation ''invite_not_found'' (''invite '' @ quoted i @ '' not found'')
        else Operation ''invite_expired'' (''invite '' @ quoted i @ '' is expired''))"
      using x run Inl look(2) by (simp add: corr_consume_invite_def bind_act_def map_err_act_def fail_act_def del: sql_run.simps)
    then show ?thesis using Inl by (auto simp: consume_invite_def split: option.splits if_splits)
  qed
qed

end

context corrosion_db
begin

lemma write_responds:
  assumes "responsive cc db expires" "\<not> isl (co_encode co r)" "\<And>payload. plain_write (stmt payload)"
  shows "fst (bind_act (lift_res (encode_as op co r)) (\<lambda>payload. exec_one cc [stmt payload] op') d) = Inr ()"
proof -
  obtain payload where "encode_as op co r = Inr payload" using encode_responds[OF assms(2)] by blast
  then show ?thesis using exec_one_responds[OF assms(1,3)] by (simp add: bind_act_def lift_res_def)
qed

lemma call_responds:
  assumes "responsive cc db expires" "stores_agree js (db d) s" "call_fits call s" "encodable js call"
  shows "case store_result f g call s of
      Inr _ \<Rightarrow> fst (corr_call cc js call d) = Inr ()
    | Inl e' \<Rightarrow> (\<exists>e. fst (corr_call cc js call d) = Inl e \<and> same_error e e')"
proof (cases call)
  case (Call_Upsert_Revision r)
  then show ?thesis using assms(4)
    by (simp add: encodable_def upsert_service_revision_def corr_upsert_service_revision_def) (rule write_responds[OF assms(1)]; simp)
next
  case (Call_Upsert_Release r)
  then show ?thesis using assms(4)
    by (simp add: encodable_def upsert_service_release_def corr_upsert_service_release_def release_upsert_statement_def bind_lift_bind) (rule write_responds[OF assms(1)]; simp)
next
  case (Call_Delete_Release ns service)
  then show ?thesis using exec_one_responds[OF assms(1)]
    by (simp add: delete_service_release_def corr_delete_service_release_def release_delete_statement_def)
next
  case (Call_Upsert_Instance r)
  then show ?thesis using assms(4)
    by (simp add: encodable_def upsert_instance_status_def corr_upsert_instance_status_def) (rule write_responds[OF assms(1)]; simp)
next
  case (Call_Delete_Instance i)
  then show ?thesis using exec_one_responds[OF assms(1)] by (simp add: delete_instance_status_def corr_delete_instance_status_def)
next
  case (Call_Upsert_Deploy r)
  then show ?thesis using assms(4)
    by (simp add: encodable_def upsert_deploy_def corr_upsert_deploy_def deploy_upsert_statement_def bind_lift_bind) (rule write_responds[OF assms(1)]; simp)
next
  case (Call_Commit c)
  then obtain qs where "build_commit_statements js c = Inr qs" "\<forall>q \<in> set qs. plain_write q" using commit_writes[of js c] assms(4) by blast
  then show ?thesis using Call_Commit exec_all_responds[OF assms(1), of qs]
    by (simp add: apply_deploy_commit_def corr_apply_deploy_commit_def Let_def bind_act_def lift_res_def)
next
  case (Call_Create_Invite i)
  then have "\<not> isl (co_encode (js_invite js) i)" using assms(4) by (simp add: encodable_def)
  then show ?thesis unfolding Call_Create_Invite store_result.simps corr_call.simps by (rule create_invite_responds[OF assms(1,2)])
next
  case (Call_Consume_Invite i now)
  then have "now < 2 ^ 63" using assms(3) by (simp add: call_fits_def)
  then show ?thesis unfolding Call_Consume_Invite store_result.simps corr_call.simps by (rule consume_invite_responds[OF assms(1,2)])
next
  case (Call_Upsert_Machine r)
  then show ?thesis using assms(4)
    by (simp add: encodable_def upsert_self_machine_def corr_upsert_self_machine_def Let_def) (rule write_responds[OF assms(1)]; simp)
next
  case (Call_Delete_Machine i)
  then show ?thesis using exec_one_responds[OF assms(1)] by (simp add: delete_machine_def corr_delete_machine_def split: option.split)
qed

end

section \<open>Properties\<close>

lemma store_call_wf: "store_wf s \<Longrightarrow> store_wf (store_call f g call s)"
  by (cases call) (simp_all add: store_wf_machine_ops store_wf_invite_ops store_wf_deploy_ops commit_wf)


text \<open>
  C22. A database that answers makes the replicated store answer as the memory store does: the call succeeds exactly
  when the memory store accepts it, and an invite that exists, is unknown or has expired is refused with the same
  error.
\<close>

theorem corrosion_answers_as_memory:
  assumes "corrosion_db cc db js expires" "responsive cc db expires" "stores_agree js (db d) s" "call_fits call s" "encodable js call"
  shows "case store_result f g call s of
      Inr _ \<Rightarrow> fst (corr_call cc js call d) = Inr ()
    | Inl e' \<Rightarrow> (\<exists>e. fst (corr_call cc js call d) = Inl e \<and> same_error e e')"
  by (rule corrosion_db.call_responds[OF assms])

text \<open>
  C15. Loading the routing state reads what the memory store holds: every revision, release and instance once, none that
  replication has not published, and nothing is missing, as long as a query that is cut short shows as an error or a
  timeout.
\<close>

theorem corrosion_loads_routing:
  assumes "corrosion_db cc db js expires" "stores_agree js (db d) s" "store_wf s"
    and "corr_load_routing_state cc js d = (Inr st, d')"
  shows "set (rt_revisions st) = set (rt_revisions (routing_of s)) \<and> set (rt_releases st) = set (rt_releases (routing_of s)) \<and>
    set (rt_instances st) = set (rt_instances (routing_of s)) \<and>
    distinct (rt_revisions st) \<and> distinct (rt_releases st) \<and> distinct (rt_instances st) \<and> db d' = db d"
  by (rule corrosion_db.load_routing_ok[OF assms(1,4,2,3)])

section \<open>A database in memory\<close>

definition local_client :: "(string \<Rightarrow> int option) \<Rightarrow> corro_tables corr_client" where
  "local_client expires = \<lparr> cc_execute = (\<lambda>qs tables. case sql_run expires qs tables of (rs, tables') \<Rightarrow> (Inr rs, tables')),
    cc_query = (\<lambda>q tables. (Inr (case q of Select t f \<Rightarrow> full_stream (sql_select t f tables) | _ \<Rightarrow> full_stream []), tables)) \<rparr>"

definition invite_example :: invite_record where
  "invite_example = \<lparr> ir_id = ''i'', ir_expires_at = 5 \<rparr>"

definition store_codec :: json_codec where
  "store_codec = codec_example\<lparr> js_invite := table_codec [(invite_example, ''I'')],
    js_deploy := table_codec [(dc_deploy commit_example, ''D'')] \<rparr>"

definition expiry_example :: "string \<Rightarrow> int option" where
  "expiry_example s = (if s = ''I'' then Some 5 else None)"

lemma table_codec_ok: "distinct (map snd tab) \<Longrightarrow> [] \<notin> snd ` set tab \<Longrightarrow> json_ok (table_codec tab)"
  by (auto simp: json_ok_def table_codec_def comp_def split: option.splits dest!: map_of_SomeD)
     (force dest: map_of_SomeD simp: distinct_map inj_on_def map_of_eq_None_iff)+

interpretation local_db: corrosion_db "local_client expiry_example" "\<lambda>d. d" store_codec expiry_example
proof
  show "json_ok (js_machine store_codec)" "json_ok (js_invite store_codec)" "json_ok (js_revision store_codec)"
    "json_ok (js_release store_codec)" "json_ok (js_instance store_codec)" "json_ok (js_deploy store_codec)"
    by (simp_all add: store_codec_def codec_example_def table_codec_ok)
  show "expires_ok (js_invite store_codec) expiry_example"
    by (simp add: expires_ok_def store_codec_def table_codec_def expiry_example_def invite_example_def split: if_splits)
qed (auto simp: local_client_def split: prod.splits)

lemma local_responsive: "responsive (local_client expires) (\<lambda>d. d) expires"
  by (simp add: responsive_def local_client_def split: prod.split)

definition no_rows :: corro_tables where "no_rows t = []"

lemma empty_agrees: "stores_agree js no_rows memory_store_new"
  by (simp add: stores_agree_def table_agrees_def no_rows_def memory_store_new_def bt_wf_def)


theorem corrosion_answers_as_memory_witness:
  "\<exists>msg. fst (corr_call (local_client expiry_example) store_codec (Call_Create_Invite invite_example)
      (snd (sql_exec expiry_example (Insert Invites [''i''] [''I'']) no_rows))) = Inl (Operation ''invite_exists'' msg)"
proof -
  let ?f = "\<lambda>c _. (Send_Ok, c)" and ?s = "snd (create_invite invite_example (memory_store_new :: (unit, unit) store_inner))"
  let ?tables = "snd (sql_exec expiry_example (Insert Invites [''i''] [''I'']) no_rows)" and ?call = "Call_Create_Invite invite_example"
  have "co_decode (js_invite store_codec) ''I'' = Inr invite_example" by (simp add: store_codec_def table_codec_def)
  from insert_invite_agrees[OF empty_agrees _ this, of expiry_example]
  have agree: "stores_agree store_codec ?tables ?s" by (simp add: invite_example_def)
  have enc: "encodable store_codec ?call" by (simp add: encodable_def store_codec_def table_codec_def)
  have fits: "call_fits ?call ?s" by (simp add: call_fits_def)
  have dup: "store_result ?f ?f ?call ?s = Inl (Invite_Exists ''i'')"
    by (simp add: create_invite_def invite_example_def memory_store_new_def hm_contains_def)
  obtain e where e: "fst (corr_call (local_client expiry_example) store_codec ?call ?tables) = Inl e" "same_error e (Invite_Exists ''i'')"
    using corrosion_answers_as_memory[where db = "\<lambda>d. d" and d = ?tables,
        OF local_db.corrosion_db_axioms local_responsive agree fits enc, of ?f ?f] unfolding dup by auto
  then show ?thesis by (cases e) auto
qed

theorem corrosion_loads_routing_witness:
  "\<exists>st tables. corr_load_routing_state (local_client expiry_example) store_codec
      (snd (sql_exec expiry_example (Upsert Service_Releases [''prod'', ''web''] [''W'']) no_rows)) = (Inr st, tables) \<and>
    set (rt_releases st) = {release_example ''web''}"
proof -
  let ?s = "(memory_store_new :: (unit, unit) store_inner)\<lparr>st_service_releases := [((Namespace ''prod'', ''web''), release_example ''web'')]\<rparr>"
  let ?tables = "snd (sql_exec expiry_example (Upsert Service_Releases [''prod'', ''web''] [''W'']) no_rows)"
  have "co_decode (js_release store_codec) ''W'' = Inr (release_example ''web'')"
    by (simp add: store_codec_def codec_example_def table_codec_def)
  from upsert_release_agrees[OF empty_agrees _ this, of expiry_example]
  have agree: "stores_agree store_codec ?tables ?s"
    by (simp add: release_key_cols_def release_example_def memory_store_new_def)
  have wf: "store_wf ?s" by (simp add: store_wf_def memory_store_new_def hm_keyed_def hm_wf_def release_example_def)
  have row: "parse_service_release store_codec [Sql_Text ''prod'', Sql_Text ''web'', Sql_Text ''W''] = Inr (release_example ''web'')"
    using release_example_row by (simp add: parse_service_release_def store_codec_def)
  have "\<exists>st tables. corr_load_routing_state (local_client expiry_example) store_codec ?tables = (Inr st, tables)"
    by (simp add: corr_load_routing_state_def load_all_service_revisions_def load_all_service_releases_def load_all_instance_status_def
        query_records_def query_rows_def bind_act_def map_err_act_def lift_res_def local_client_def collect_full_stream
        sql_select_def no_rows_def published_def row)
  then obtain st tables where st: "corr_load_routing_state (local_client expiry_example) store_codec ?tables = (Inr st, tables)" by blast
  show ?thesis using corrosion_loads_routing[where db = "\<lambda>d. d", OF local_db.corrosion_db_axioms agree wf st] st
    by (auto simp: routing_of_def hm_values_def)
qed

end
