(* ===== verification/Spec2Isabelle.thy ===== *)
theory Spec2Isabelle
  imports Ipam Peer_Sync Deploy_Run Gateway_Proxy Dns Mesh_Orchestrator Ebpf_Dataplane Corrosion_Refinement
begin

text \<open>
  A verification library for ployz, a daemon that joins machines into a WireGuard mesh and deploys containers on them.

  \<^bold>\<open>The program.\<close> Every machine runs the daemon. Its orchestrator brings the mesh up and down and keeps a handful of
  tasks running: one configures the WireGuard peers, one publishes the machine's own record, one decides whether the
  machine takes part, one watches the claims on subnets, one feeds the routes of the other machines to a classifier in
  the kernel. All machines share a store of machines, invites, revisions, releases, instances and deploys, which
  Corrosion replicates. A deploy locks the machines concerned, starts candidate containers, waits until they are
  ready, commits the releases in one step and removes what is no longer wanted. The gateway and the DNS server project
  the releases and instances of the store to routes and names.

  \<^bold>\<open>The theories\<close>, sources below \<open>src/crates\<close> unless \<open>src/ebpf\<close>:

  \<^item> \<open>Ployz_Prelude\<close>, \<open>Rust_Collections\<close>, \<open>Rust_Strings\<close>, \<open>Action_Logic\<close>: results and actions on a state, comparators
    and sorting, the maps and strings of the Rust library, and a Hoare logic for actions.
  \<^item> \<open>Types_Model\<close> and \<open>Service_Spec\<close>: \<open>ployz-types/src/model.rs\<close> and \<open>spec.rs\<close>.
  \<^item> \<open>Mesh_Phase\<close>, \<open>Peer\<close>, \<open>Peer_State\<close>, \<open>Peer_Sync\<close>, \<open>Mesh_Tasks\<close>, \<open>Mesh_Orchestrator\<close>, \<open>Ipam\<close>: the phases, the peers,
    the tasks, the operations of the mesh and the allocators of \<open>ployz-orchestrator/src\<close>. A task is one function for each
    turn of its loop; the histories of a step relation are the interleavings.
  \<^item> \<open>Ebpf_Dataplane\<close>: \<open>src/ebpf/src/main.rs\<close>, \<open>ebpf-common\<close>, \<open>ployz-bpfctl\<close> and \<open>mesh/dataplane.rs\<close> of
    \<open>ployz-runtime-backends\<close>. Packets are byte lists, keys and addresses words of their width.
  \<^item> \<open>Memory_Store\<close>: \<open>ployz-store-api/src/memory.rs\<close>, a record of tables and channels. \<open>Corrosion_Stream\<close>,
    \<open>Corrosion_Store\<close>, \<open>Corrosion_Follow\<close>, \<open>Corrosion_Refinement\<close>: \<open>ployz-corrosion/src/client.rs\<close> and \<open>store\<close>.
  \<^item> \<open>Deploy\<close>, \<open>Deploy_Apply\<close>: \<open>ployz-orchestrator/src/deploy/mod.rs\<close>. \<open>Deploy_Agent\<close>: \<open>deploy_control\<close> of \<open>ployzd\<close>.
    \<open>Container_Spec\<close>, \<open>Container_Engine\<close>, \<open>Deploy_Local\<close>: \<open>runtime\<close> and \<open>deploy/local.rs\<close> of \<open>ployz-runtime-backends\<close>.
    \<open>Deploy_Run\<close> runs a whole deploy on one machine.
  \<^item> \<open>Routing_Sync\<close>, \<open>Gateway_Routes\<close>, \<open>Gateway_Proxy\<close>, \<open>Dns\<close>: \<open>ployz-gateway/src\<close> and \<open>ployz-dns/src\<close>.

  \<^bold>\<open>How the code is modelled.\<close> A struct is a record, an enum a datatype, a method a function of the same name; where two
  methods share a name the later one has a prefix (\<open>corr_\<close> for the replicated store, \<open>agent_\<close>, \<open>session_\<close>,
  \<open>container_\<close>, \<open>native_\<close>). \<open>Result\<close> is a sum with the error on the left. A method that awaits something of the outside
  is an action, a function from a state to a result and a state. Logging is left out.

  What is not in the repository is a parameter: the WireGuard device, Docker, the database behind the Corrosion client,
  JSON, the ipnet and hickory crates, clocks and channels. What the code relies on of it are hypotheses or the laws of a
  locale, each with an instance: \<open>ipnet_spec\<close>, \<open>channel\<close>, \<open>header_layout\<close>, \<open>corrosion_db\<close>. The other locales are
  interfaces inside the program: \<open>rust_map\<close>, \<open>comparator\<close>, \<open>refresh_loop\<close> (gateway and DNS), \<open>mesh_dataplane\<close>,
  \<open>deploy_world\<close> (what a deploy needs of its sessions, provided by the agents through \<open>cluster_ids\<close>),
  \<open>followed_table\<close> and \<open>table_view\<close> (one table of the replicated store).

  \<^bold>\<open>What is proved.\<close>

  \<^item> Deploys: \<open>deploy_apply_atomic\<close> and \<open>deploy_apply_commits_manifest\<close> (a deploy commits all of its manifest or leaves
    the store as it was, and holds no lock at the end), placement, preview, the equivalence of a remote session with
    the local agent, readiness that is decided in bounded time, containers that converge to their specification.
  \<^item> The store: the commit is exact, a machine subscription replays the table; the replicated store refines the memory
    store call by call, answers as it does, loads what it holds, and both of its subscriptions follow their tables
    under every interleaving; below that, the decoder is independent of chunking and a stream has no gaps.
  \<^item> The mesh: what every operation of the orchestrator leaves for every behaviour of its ports, the invariants of the
    peer map and of the tasks, the hysteresis of participation, peers that are planned and ranked as specified.
  \<^item> Traffic: packets for the subnet of another machine enter the tunnel; the kernel finds the most specific route;
    subnets and addresses that are handed out are fresh and inside; gateway routes are exactly those of the
    releases, the most specific one is taken, a request reaches only ready instances; names resolve to exactly the
    ready instances; both snapshots catch up with the store.

  \<^bold>\<open>Termination and bounds.\<close> No definition has fuel. Two loops need not end for every input and are partial functions:
  the search for a subnet (\<open>alloc_loop\<close>, which is shown to return in \<open>ipam_allocate_correct\<close>) and the waiting
  period of a probe (\<open>wait_start_period\<close>, shown to return in \<open>runtime_wait_ready_returns\<close>). Integers that may overflow
  are words; \<open>MAX_ROUTES\<close> bounds the routes of the kernel; a clock below 2 to the 63 is assumed for the expiry of an
  invite, which the database compares as a signed number.

  \<^bold>\<open>Not modelled.\<close> The WireGuard backends, the Docker networks and the Corrosion process (calls into their libraries, seen
  by the orchestrator as ports); the handlers of the daemon for machines, doctor, invites and requests, its start-up,
  configuration, command line, installation, ssh and supervision of services (input, output and process control around
  the operations modelled here); the files and signed tokens of \<open>mesh_state\<close> (file access and cryptography); the SDK
  and API messages (serialisation); the start-up of the gateway and DNS servers; the end-to-end tests.
\<close>

end
